(* ===== verification/Prelude.thy ===== *)
theory Prelude
  imports "HOL-Library.Word" "HOL-Library.Monad_Syntax"
begin

text \<open>
  What the components share: octets, sequencing of fallible computations (\<open>sbind\<close>), the
  big-endian integer format of the wire, and reachability of a transition system with the
  locale of its inductive invariants.
\<close>

named_theorems view_simps \<open>unfolding rules of the views of a result\<close>
named_theorems script_simps \<open>unfolding rules of the concrete environment\<close>

type_synonym byte = "8 word"

abbreviation size_max :: nat where
  "size_max \<equiv> 2 ^ 64"

subsection \<open>Sequencing of fallible computations\<close>

text \<open>\<open>Inl e\<close> leaves the function with the failure \<open>e\<close>, \<open>Inr x\<close> continues with \<open>x\<close>.\<close>

definition sbind :: "'e + 'a \<Rightarrow> ('a \<Rightarrow> 'e + 'b) \<Rightarrow> 'e + 'b" where
  "sbind m f = (case m of Inl e \<Rightarrow> Inl e | Inr x \<Rightarrow> f x)"

lemma sbind_simps [simp]:
  "sbind (Inl e) f = Inl e"
  "sbind (Inr x) f = f x"
  by (simp_all add: sbind_def)

lemma sbind_Inr_iff: "sbind m f = Inr y \<longleftrightarrow> (\<exists>x. m = Inr x \<and> f x = Inr y)"
  by (cases m) auto

lemma sbind_Inl_iff: "sbind m f = Inl e \<longleftrightarrow> m = Inl e \<or> (\<exists>x. m = Inr x \<and> f x = Inl e)"
  by (cases m) auto

lemma sbind_cong [fundef_cong]:
  "m = m' \<Longrightarrow> (\<And>x. m' = Inr x \<Longrightarrow> f x = f' x) \<Longrightarrow> sbind m f = sbind m' f'"
  by (cases m') auto

lemma sbind_assoc: "sbind (sbind m f) g = sbind m (\<lambda>x. sbind (f x) g)"
  by (cases m) auto

subsection \<open>Big-endian integers\<close>

fun be_enc :: "nat \<Rightarrow> nat \<Rightarrow> byte list" where
  "be_enc 0 k = []"
| "be_enc (Suc n) k = of_nat (k div 256 ^ n) # be_enc n k"

definition be_dec :: "byte list \<Rightarrow> nat" where
  "be_dec bs = foldl (\<lambda>a b. a * 256 + unat b) 0 bs"

lemma length_be_enc [simp]: "length (be_enc n k) = n"
  by (induction n) auto

lemma be_dec_acc: "foldl (\<lambda>a b. a * 256 + unat b) c bs = c * 256 ^ length bs + be_dec bs"
proof (induction bs arbitrary: c)
  case Nil
  show ?case by (simp add: be_dec_def)
next
  case (Cons b bs)
  have "be_dec (b # bs) = unat b * 256 ^ length bs + be_dec bs"
    using Cons.IH [of "unat b"] by (simp add: be_dec_def)
  with Cons.IH [of "c * 256 + unat b"] show ?case by (simp add: algebra_simps)
qed

lemma be_dec_Nil [simp]: "be_dec [] = 0"
  by (simp add: be_dec_def)

lemma be_dec_Cons [simp]: "be_dec (b # bs) = unat b * 256 ^ length bs + be_dec bs"
  using be_dec_acc [of "unat b" bs] by (simp add: be_dec_def)

lemma be_dec_less: "be_dec bs < 256 ^ length bs"
proof (induction bs)
  case Nil
  show ?case by simp
next
  case (Cons b bs)
  have "unat b < 2 ^ LENGTH(8)" by (rule unsigned_less)
  then have "unat b \<le> 255" by simp
  then have "unat b * 256 ^ length bs \<le> 255 * 256 ^ length bs" by (rule mult_right_mono) simp
  with Cons.IH have "unat b * 256 ^ length bs + be_dec bs < 256 * 256 ^ length bs" by linarith
  then show ?case by simp
qed

lemma be_dec_enc: "be_dec (be_enc n k) = k mod 256 ^ n"
proof (induction n)
  case 0
  show ?case by simp
next
  case (Suc n)
  have "k mod 256 ^ Suc n = (k div 256 ^ n mod 256) * 256 ^ n + k mod 256 ^ n"
    using mod_mult2_eq [of k "256 ^ n" 256] by (simp add: algebra_simps)
  with Suc.IH show ?case by (simp add: unat_of_nat)
qed

lemma be_enc_unroll:
  "be_enc 1 k = [of_nat k]"
  "be_enc 2 k = [of_nat (k div 256), of_nat k]"
  "be_enc 4 k = [of_nat (k div 16777216), of_nat (k div 65536), of_nat (k div 256), of_nat k]"
proof -
  have n: "(2 :: nat) = Suc (Suc 0)" "(4 :: nat) = Suc (Suc (Suc (Suc 0)))" by simp_all
  show "be_enc 1 k = [of_nat k]" by simp
  show "be_enc 2 k = [of_nat (k div 256), of_nat k]" unfolding n(1) by simp
  show "be_enc 4 k = [of_nat (k div 16777216), of_nat (k div 65536), of_nat (k div 256), of_nat k]"
    unfolding n(2) by simp
qed

text \<open>A machine word of \<open>n\<close> octets, stored and loaded big-endian.\<close>

definition store_be :: "nat \<Rightarrow> 'a::len word \<Rightarrow> byte list" where
  "store_be n w = be_enc n (unat w)"

definition load_be :: "byte list \<Rightarrow> 'a::len word" where
  "load_be bs = of_nat (be_dec bs)"

lemma length_store_be [simp]: "length (store_be n w) = n"
  by (simp add: store_be_def)

lemma load_store_be:
  assumes "LENGTH('a::len) = 8 * n"
  shows "load_be (store_be n (w :: 'a word)) = w"
proof -
  have "unat w < 2 ^ LENGTH('a)" by (rule unsigned_less)
  with assms have "unat w < 256 ^ n" by (simp add: power_mult)
  then show ?thesis by (simp add: load_be_def store_be_def be_dec_enc)
qed

lemmas load_store_be_simps [simp] =
  load_store_be [where 'a = 8 and n = 1, simplified]
  load_store_be [where 'a = 16 and n = 2, simplified]
  load_store_be [where 'a = 32 and n = 4, simplified]
  load_store_be [where 'a = 64 and n = 8, simplified]

subsection \<open>Reachability and inductive invariants\<close>

inductive reach :: "('s \<Rightarrow> bool) \<Rightarrow> ('s \<Rightarrow> 's \<Rightarrow> bool) \<Rightarrow> 's \<Rightarrow> bool"
  for init :: "'s \<Rightarrow> bool" and step :: "'s \<Rightarrow> 's \<Rightarrow> bool" where
  reach_init: "init s \<Longrightarrow> reach init step s"
| reach_step: "reach init step s \<Longrightarrow> step s t \<Longrightarrow> reach init step t"

text \<open>
  A component promises an invariant: its initial states satisfy it and each of its steps
  keeps it. What the clients get is that every reachable state satisfies it.
\<close>

locale inductive_invariant =
  fixes init :: "'s \<Rightarrow> bool" and step :: "'s \<Rightarrow> 's \<Rightarrow> bool" and inv :: "'s \<Rightarrow> bool"
  assumes inv_init: "init s \<Longrightarrow> inv s"
    and inv_step: "inv s \<Longrightarrow> step s t \<Longrightarrow> inv t"
begin

lemma reach_inv: "reach init step s \<Longrightarrow> inv s"
  by (induction rule: reach.induct) (auto intro: inv_init inv_step)

lemma steps_inv: "step\<^sup>*\<^sup>* s t \<Longrightarrow> inv s \<Longrightarrow> inv t"
  by (induction rule: rtranclp_induct) (auto intro: inv_step)

end

text \<open>With a measure that falls with every step, the number of steps is bounded.\<close>

locale terminating_system = inductive_invariant +
  fixes left :: "'a \<Rightarrow> nat"
  assumes left_falls: "inv s \<Longrightarrow> step s t \<Longrightarrow> left t < left s"
begin

lemma steps_bounded: "(step ^^ k) s t \<Longrightarrow> inv s \<Longrightarrow> inv t \<and> k + left t \<le> left s"
proof (induction k arbitrary: t)
  case (Suc k)
  then obtain u where "(step ^^ k) s u" "step u t" by auto
  with Suc.IH Suc.prems(2) inv_step left_falls show ?case by fastforce
qed simp

end

end
