(* ===== verification/ErrorCodes.thy ===== *)
theory ErrorCodes
  imports Prelude
begin

text \<open>
  The error codes of the library (include/psql/error.hpp): the enumeration \<open>psql::error\<close>, its
  category with the messages, and \<open>make_error_code\<close>. A \<open>boost::system::error_code\<close> is a value
  with its category; it denotes success exactly when the value is 0.
\<close>

datatype category = SystemCategory | PsqlCategory | SqlstateCategory

record error_code =
  ec_value :: int
  ec_category :: category

definition no_error :: error_code where
  "no_error = \<lparr>ec_value = 0, ec_category = SystemCategory\<rparr>"

definition failed :: "error_code \<Rightarrow> bool" where
  "failed ec \<longleftrightarrow> ec_value ec \<noteq> 0"

datatype error =
    connection_failed
  | pq_connect_start_failed
  | pq_set_non_blocking_failed
  | pq_flush_failed
  | pq_enter_pipeline_mode_failed
  | pq_exit_pipeline_mode_failed
  | pq_send_query_params_failed
  | pq_send_prepare_failed
  | pq_send_query_prepared_failed
  | pq_send_describe_prepared_failed
  | pq_send_describe_portal_failed
  | pq_pipeline_sync_failed
  | pq_consume_input_failed
  | result_status_bad_response
  | result_status_empty_query
  | result_status_fatal_error
  | result_status_pipeline_aborted
  | result_status_unexpected
  | unexpected_non_null_result
  | exception_in_pipeline_operation
  | user_defined_type_does_not_exist

text \<open>The enumerators count up from 1 in the order of their declaration.\<close>

definition error_enum :: "error list" where
  "error_enum =
     [connection_failed, pq_connect_start_failed, pq_set_non_blocking_failed, pq_flush_failed,
      pq_enter_pipeline_mode_failed, pq_exit_pipeline_mode_failed, pq_send_query_params_failed,
      pq_send_prepare_failed, pq_send_query_prepared_failed, pq_send_describe_prepared_failed,
      pq_send_describe_portal_failed, pq_pipeline_sync_failed, pq_consume_input_failed,
      result_status_bad_response, result_status_empty_query, result_status_fatal_error,
      result_status_pipeline_aborted, result_status_unexpected, unexpected_non_null_result,
      exception_in_pipeline_operation, user_defined_type_does_not_exist]"

fun error_value :: "error \<Rightarrow> int" where
  "error_value connection_failed = 1"
| "error_value pq_connect_start_failed = 2"
| "error_value pq_set_non_blocking_failed = 3"
| "error_value pq_flush_failed = 4"
| "error_value pq_enter_pipeline_mode_failed = 5"
| "error_value pq_exit_pipeline_mode_failed = 6"
| "error_value pq_send_query_params_failed = 7"
| "error_value pq_send_prepare_failed = 8"
| "error_value pq_send_query_prepared_failed = 9"
| "error_value pq_send_describe_prepared_failed = 10"
| "error_value pq_send_describe_portal_failed = 11"
| "error_value pq_pipeline_sync_failed = 12"
| "error_value pq_consume_input_failed = 13"
| "error_value result_status_bad_response = 14"
| "error_value result_status_empty_query = 15"
| "error_value result_status_fatal_error = 16"
| "error_value result_status_pipeline_aborted = 17"
| "error_value result_status_unexpected = 18"
| "error_value unexpected_non_null_result = 19"
| "error_value exception_in_pipeline_operation = 20"
| "error_value user_defined_type_does_not_exist = 21"

text \<open>\<open>static_cast<error>\<close> of an integer: the enumerator with that value, if there is one.\<close>

definition error_of_int :: "int \<Rightarrow> error option" where
  "error_of_int ev = find (\<lambda>e. error_value e = ev) error_enum"

fun error_text :: "error \<Rightarrow> string" where
  "error_text connection_failed = ''Connection to database failed''"
| "error_text pq_connect_start_failed = ''PQconnectStart failed, check the error message on the connection''"
| "error_text pq_set_non_blocking_failed = ''PQsetnonblocking failed, check the error message on the connection''"
| "error_text pq_flush_failed = ''PQflush failed, check the error message on the connection''"
| "error_text pq_enter_pipeline_mode_failed = ''PQenterPipelineMode failed, check the error message on the connection''"
| "error_text pq_exit_pipeline_mode_failed = ''PQexitPipelineMode failed, check the error message on the connection''"
| "error_text pq_send_query_params_failed = ''PQsendQueryParams failed, check the error message on the connection''"
| "error_text pq_send_prepare_failed = ''PQsendPrepare failed, check the error message on the connection''"
| "error_text pq_send_query_prepared_failed = ''PQsendQueryPrepared failed, check the error message on the connection''"
| "error_text pq_send_describe_prepared_failed = ''PQsendDescribePrepared failed, check the error message on the connection''"
| "error_text pq_send_describe_portal_failed = ''PQsendDescribePortal failed, check the error message on the connection''"
| "error_text pq_pipeline_sync_failed = ''PQpipelineSync failed, check the error message on the connection''"
| "error_text pq_consume_input_failed = ''PQconsumeInput failed, check the error message on the connection''"
| "error_text result_status_bad_response = ''The server's response was not understood''"
| "error_text result_status_empty_query = ''The query sent to the server was empty''"
| "error_text result_status_fatal_error = ''Fatal error in query execution, check the error message on the result''"
| "error_text result_status_pipeline_aborted = ''Pipeline execution aborted, check the error message on the result''"
| "error_text result_status_unexpected = ''Unexpected status from query result''"
| "error_text unexpected_non_null_result = ''Unexpected non null result''"
| "error_text exception_in_pipeline_operation = ''An exception occurred while executing the pipeline operation''"
| "error_text user_defined_type_does_not_exist = ''No user-defined type with the given name was found on the server''"

definition error_message :: "int \<Rightarrow> string" where
  "error_message ev = (case error_of_int ev of Some e \<Rightarrow> error_text e | None \<Rightarrow> ''Unknown error'')"

definition make_error_code :: "error \<Rightarrow> error_code" where
  "make_error_code e = \<lparr>ec_value = error_value e, ec_category = PsqlCategory\<rparr>"

subsection \<open>Laws of an error enumeration\<close>

text \<open>
  What the code relies on when an enumeration is registered with \<open>is_error_code_enum\<close>: the codes
  it makes keep the enumerators apart.
\<close>

locale error_enumeration =
  fixes value_of :: "'e \<Rightarrow> int" and mk :: "'e \<Rightarrow> error_code" and cat :: category
    and valid :: "'e \<Rightarrow> bool"
  assumes mk_def: "mk e = \<lparr>ec_value = value_of e, ec_category = cat\<rparr>"
    and value_inj: "valid d \<Longrightarrow> valid e \<Longrightarrow> value_of d = value_of e \<Longrightarrow> d = e"
begin

lemma mk_inj: "valid d \<Longrightarrow> valid e \<Longrightarrow> mk d = mk e \<Longrightarrow> d = e"
  by (auto simp: mk_def intro: value_inj)

lemma mk_failed_iff: "failed (mk e) \<longleftrightarrow> value_of e \<noteq> 0"
  by (simp add: mk_def failed_def)

lemma mk_category: "ec_category (mk e) = cat"
  by (simp add: mk_def)

end

lemma no_error_not_failed [simp]: "\<not> failed no_error"
  by (simp add: failed_def no_error_def)

lemma no_error_category [simp]: "ec_category no_error = SystemCategory"
  by (simp add: no_error_def)

lemma error_enum_complete: "e \<in> set error_enum"
  by (cases e) (simp_all add: error_enum_def)

lemma error_value_bounds: "1 \<le> error_value e \<and> error_value e \<le> 21"
  by (cases e) simp_all

lemma error_of_int_value [simp]: "error_of_int (error_value e) = Some e"
  by (cases e) (simp_all add: error_of_int_def error_enum_def)

lemma error_value_inj: "error_value d = error_value e \<Longrightarrow> d = e"
  by (metis error_of_int_value option.inject)

interpretation psql_errors: error_enumeration error_value make_error_code PsqlCategory "\<lambda>_. True"
  by unfold_locales (auto simp: make_error_code_def intro: error_value_inj)

lemma make_error_code_failed [simp]: "failed (make_error_code e)"
  using error_value_bounds [of e] by (simp add: psql_errors.mk_failed_iff)

lemma make_error_code_inj [simp]: "make_error_code d = make_error_code e \<longleftrightarrow> d = e"
  by (auto intro: psql_errors.mk_inj)

lemma make_error_code_category [simp]: "ec_category (make_error_code e) = PsqlCategory"
  by (rule psql_errors.mk_category)

text \<open>Enumerators compare as their values.\<close>

instantiation error :: linorder
begin

definition less_eq_error :: "error \<Rightarrow> error \<Rightarrow> bool" where
  "less_eq_error d e \<longleftrightarrow> error_value d \<le> error_value e"

definition less_error :: "error \<Rightarrow> error \<Rightarrow> bool" where
  "less_error d e \<longleftrightarrow> error_value d < error_value e"

instance
  by standard (auto simp: less_eq_error_def less_error_def intro: error_value_inj)

end

lemma error_enum_sorted: "sorted error_enum" "distinct error_enum"
  by (simp_all add: error_enum_def less_eq_error_def)

lemma error_of_int_Some: "error_of_int ev = Some e \<Longrightarrow> ev = error_value e"
  by (auto simp: error_of_int_def find_Some_iff)

lemma error_text_known: "error_text e \<noteq> ''Unknown error''"
  by (cases e) simp_all

text \<open>
  Every code that the library makes has the message of its enumerator, and every other value of
  the category reads as unknown.
\<close>

theorem error_message_exact:
  "error_message (ec_value (make_error_code e)) = error_text e \<and>
   (error_message ev = ''Unknown error'' \<longleftrightarrow> (\<nexists>e. ev = ec_value (make_error_code e)))"
  using error_text_known
  by (auto simp: error_message_def make_error_code_def split: option.split dest: error_of_int_Some)

end
