(* ===== verification/Base36.thy ===== *)
theory Base36
  imports ErrorCodes
begin

text \<open>
  SQLSTATE codes as numbers (include/psql/sqlstate.hpp and the use of \<open>strtol\<close> in
  include/psql/connection.hpp): printing in base 36, reading in base 36, and the error codes made
  from a SQLSTATE. Reading and printing are inverse to each other up to leading zeros.
\<close>

subsection \<open>Base 36\<close>

definition digits36 :: string where
  "digits36 = ''0123456789ABCDEFGHIJKLMNOPQRSTUVWXYZ''"

text \<open>
  The loop of \<open>to_base36\<close> pushes the digits from the least significant one; the result is then
  reversed. An \<open>int\<close> that is not positive gives the empty string.
\<close>

function to_base36_loop :: "int \<Rightarrow> string \<Rightarrow> string" where
  "to_base36_loop val result =
     (if val > 0
      then to_base36_loop (val div 36) (result @ [digits36 ! nat (val mod 36)])
      else result)"
  by pat_completeness auto
termination
  by (relation "measure (\<lambda>(val, result). nat val)") auto

definition to_base36 :: "int \<Rightarrow> string" where
  "to_base36 val = rev (to_base36_loop val [])"

definition make_sqlstate_code :: "int \<Rightarrow> error_code" where
  "make_sqlstate_code e = \<lparr>ec_value = e, ec_category = SqlstateCategory\<rparr>"

text \<open>
  \<open>std::strtol(e, nullptr, 36)\<close>: leading white space, an optional sign, then the longest run of
  digits, of either case; the value saturates at the bounds of \<open>long\<close>.
\<close>

definition digit36 :: "char \<Rightarrow> nat option" where
  "digit36 c =
     (let n = of_char c :: nat in
      if 48 \<le> n \<and> n \<le> 57 then Some (n - 48)
      else if 65 \<le> n \<and> n \<le> 90 then Some (n - 55)
      else if 97 \<le> n \<and> n \<le> 122 then Some (n - 87)
      else None)"

definition is_space :: "char \<Rightarrow> bool" where
  "is_space c \<longleftrightarrow> (let n = of_char c :: nat in n = 32 \<or> 9 \<le> n \<and> n \<le> 13)"

fun read_digits36 :: "nat \<Rightarrow> string \<Rightarrow> nat" where
  "read_digits36 acc [] = acc"
| "read_digits36 acc (c # cs) =
     (case digit36 c of None \<Rightarrow> acc | Some d \<Rightarrow> read_digits36 (36 * acc + d) cs)"

definition strtol36 :: "string \<Rightarrow> int" where
  "strtol36 s =
     (case dropWhile is_space s of
        [] \<Rightarrow> 0
      | c # cs \<Rightarrow>
          if c = CHR ''-'' then max (- (2 ^ 63)) (- int (read_digits36 0 cs))
          else if c = CHR ''+'' then min (2 ^ 63 - 1) (int (read_digits36 0 cs))
          else min (2 ^ 63 - 1) (int (read_digits36 0 (c # cs))))"

text \<open>\<open>static_cast<sqlstate>\<close> of a \<open>long\<close>: the underlying type is \<open>int\<close>, 32 bits.\<close>

definition sqlstate_of_long :: "int \<Rightarrow> int" where
  "sqlstate_of_long l = sint (word_of_int l :: 32 word)"

definition sqlstate_error_code :: "string \<Rightarrow> error_code" where
  "sqlstate_error_code e = make_sqlstate_code (sqlstate_of_long (strtol36 e))"

subsection \<open>Base 36 round trip\<close>

declare to_base36_loop.simps [simp del]

lemma to_base36_loop_pos:
  "val > 0 \<Longrightarrow> to_base36_loop val r = to_base36_loop (val div 36) (r @ [digits36 ! nat (val mod 36)])"
  by (subst to_base36_loop.simps) simp

lemma to_base36_loop_nonpos [simp]: "\<not> val > 0 \<Longrightarrow> to_base36_loop val r = r"
  by (subst to_base36_loop.simps) simp

lemma base36_induct [case_names nonpos pos]:
  assumes nonpos: "\<And>v :: int. v \<le> 0 \<Longrightarrow> P v"
    and pos: "\<And>v. v > 0 \<Longrightarrow> P (v div 36) \<Longrightarrow> P v"
  shows "P v"
proof (induction v rule: measure_induct_rule [where f = nat])
  case (less v)
  show ?case
  proof (cases "v > 0")
    case True
    moreover from True have "nat (v div 36) < nat v" by simp
    then have "P (v div 36)" by (rule less)
    ultimately show ?thesis by (rule pos)
  qed (simp add: nonpos)
qed

lemma to_base36_loop_acc: "to_base36_loop v r = r @ to_base36_loop v []"
proof (induction v arbitrary: r rule: base36_induct)
  case (pos v)
  let ?d = "digits36 ! nat (v mod 36)"
  have "to_base36_loop v r = (r @ [?d]) @ to_base36_loop (v div 36) []"
    by (subst to_base36_loop_pos [OF pos.hyps]) (rule pos.IH)
  also have "\<dots> = r @ to_base36_loop (v div 36) [?d]"
    by (subst pos.IH [of "[?d]"]) simp
  also have "\<dots> = r @ to_base36_loop v []"
    by (simp add: to_base36_loop_pos [OF pos.hyps])
  finally show ?case .
qed simp

lemma to_base36_pos:
  "val > 0 \<Longrightarrow> to_base36 val = to_base36 (val div 36) @ [digits36 ! nat (val mod 36)]"
  by (simp add: to_base36_def to_base36_loop_pos [of val])
    (subst to_base36_loop_acc, simp)

lemma to_base36_zero [simp]: "to_base36 0 = []"
  by (simp add: to_base36_def)

lemma digit36_digits: "d < 36 \<Longrightarrow> digit36 (digits36 ! d) = Some d"
proof -
  have "\<forall>d \<in> set [0..<36]. digit36 (digits36 ! d) = Some d"
    by (simp add: upt_rec digits36_def digit36_def Let_def)
  then show "d < 36 \<Longrightarrow> ?thesis" by simp
qed

lemma digit36_digits_mod [simp]: "digit36 (digits36 ! nat (v mod 36)) = Some (nat (v mod 36))"
  by (rule digit36_digits) simp

lemma read_digits36_append:
  "(\<forall>c \<in> set s. digit36 c \<noteq> None) \<Longrightarrow> read_digits36 acc (s @ t) = read_digits36 (read_digits36 acc s) t"
  by (induction s arbitrary: acc) auto

lemma to_base36_digits: "c \<in> set (to_base36 v) \<Longrightarrow> digit36 c \<noteq> None"
proof (induction v rule: base36_induct)
  case (pos v)
  then show ?case by (auto simp: to_base36_pos [OF pos.hyps])
qed (simp add: to_base36_def)

lemma read_to_base36: "0 \<le> v \<Longrightarrow> read_digits36 0 (to_base36 v) = nat v"
proof (induction v rule: base36_induct)
  case (pos v)
  then have "read_digits36 0 (to_base36 (v div 36)) = nat (v div 36)" by simp
  moreover have "36 * nat (v div 36) + nat (v mod 36) = nat v"
    using pos.hyps by (simp add: nat_div_distrib nat_mod_distrib)
  ultimately show ?case
    using to_base36_digits [of _ "v div 36"]
    by (simp add: to_base36_pos [OF pos.hyps] read_digits36_append)
qed simp

subsection \<open>Reading a SQLSTATE\<close>

text \<open>The codes the server sends: five digits or upper-case letters.\<close>

definition sqlstate_wf :: "string \<Rightarrow> bool" where
  "sqlstate_wf s \<longleftrightarrow> length s = 5 \<and> set s \<subseteq> set digits36"

lemma set_digits36D:
  assumes "c \<in> set digits36"
  shows "\<exists>d < 36. c = digits36 ! d \<and> digit36 c = Some d"
proof -
  have "length digits36 = 36" by (simp add: digits36_def)
  with assms obtain d where "d < 36" "c = digits36 ! d" by (metis in_set_conv_nth)
  then show ?thesis using digit36_digits by blast
qed

lemma read_digits36_acc:
  "set s \<subseteq> set digits36 \<Longrightarrow> read_digits36 acc s = acc * 36 ^ length s + read_digits36 0 s"
proof (induction s arbitrary: acc)
  case (Cons c s)
  then obtain d where d: "digit36 c = Some d" using set_digits36D by fastforce
  have "read_digits36 a s = a * 36 ^ length s + read_digits36 0 s" for a
    using Cons.prems by (intro Cons.IH) simp
  from this [of d] this [of "36 * acc + d"] d show ?case by (simp add: algebra_simps)
qed simp

lemma read_digits36_less: "set s \<subseteq> set digits36 \<Longrightarrow> read_digits36 0 s < 36 ^ length s"
proof (induction s)
  case (Cons c s)
  then obtain d where d: "digit36 c = Some d" "d < 36" using set_digits36D by fastforce
  from d(2) have "d * 36 ^ length s \<le> 35 * 36 ^ length s" by (intro mult_right_mono) auto
  moreover from Cons have "read_digits36 0 s < 36 ^ length s" by simp
  ultimately have "d * 36 ^ length s + read_digits36 0 s < 36 * 36 ^ length s" by linarith
  then show ?case using Cons.prems d(1) by (simp add: read_digits36_acc [of s d])
qed simp

lemma read_digits36_inj:
  "set s \<subseteq> set digits36 \<Longrightarrow> set t \<subseteq> set digits36 \<Longrightarrow> length s = length t \<Longrightarrow>
   read_digits36 0 s = read_digits36 0 t \<Longrightarrow> s = t"
proof (induction s arbitrary: t)
  case (Cons c s)
  then obtain b u where t: "t = b # u" by (cases t) auto
  from Cons.prems t obtain d e where
    d: "c = digits36 ! d" "digit36 c = Some d" and e: "b = digits36 ! e" "digit36 b = Some e"
    using set_digits36D [of c] set_digits36D [of b] by auto
  let ?n = "36 ^ length s :: nat"
  have lt: "read_digits36 0 s < ?n" "read_digits36 0 u < ?n"
    using Cons.prems t read_digits36_less [of s] read_digits36_less [of u] by auto
  have "d * ?n + read_digits36 0 s = e * ?n + read_digits36 0 u"
    using Cons.prems t d e by (simp add: read_digits36_acc [of s d] read_digits36_acc [of u e])
  with lt have "d = e" and "read_digits36 0 s = read_digits36 0 u"
    by (metis div_mult_self3 div_less add_0_right less_nat_zero_code, metis mod_mult_self3 mod_less)
  with Cons t d e show ?case by auto
qed simp

lemma digits_not_special:
  assumes "c \<in> set digits36"
  shows "\<not> is_space c" "c \<noteq> CHR ''-''" "c \<noteq> CHR ''+''"
  using assms by (auto simp: digits36_def is_space_def Let_def)

lemma strtol36_digits:
  assumes "s \<noteq> []" and "set s \<subseteq> set digits36"
  shows "strtol36 s = min (2 ^ 63 - 1) (int (read_digits36 0 s))"
proof -
  from assms obtain c cs where s: "s = c # cs" and c: "c \<in> set digits36" by (cases s) auto
  with digits_not_special [OF c] have "dropWhile is_space s = s" by simp
  with s digits_not_special [OF c] show ?thesis by (simp add: strtol36_def del: read_digits36.simps)
qed

lemma sqlstate_of_long_id: "- (2 ^ 31) \<le> l \<Longrightarrow> l < 2 ^ 31 \<Longrightarrow> sqlstate_of_long l = l"
  by (simp add: sqlstate_of_long_def signed_of_int signed_take_bit_int_eq_self)

lemma sqlstate_wf_value:
  assumes "sqlstate_wf s"
  shows "sqlstate_of_long (strtol36 s) = int (read_digits36 0 s)"
proof -
  from assms have "s \<noteq> []" and s: "set s \<subseteq> set digits36" "length s = 5"
    by (auto simp: sqlstate_wf_def)
  from read_digits36_less [OF s(1)] s(2) have "read_digits36 0 s < 60466176" by simp
  with strtol36_digits [OF \<open>s \<noteq> []\<close> s(1)] show ?thesis by (simp add: sqlstate_of_long_id)
qed

interpretation sqlstate_codes:
  error_enumeration "\<lambda>s. sqlstate_of_long (strtol36 s)" sqlstate_error_code SqlstateCategory sqlstate_wf
proof unfold_locales
  fix s
  show "sqlstate_error_code s = \<lparr>ec_value = sqlstate_of_long (strtol36 s), ec_category = SqlstateCategory\<rparr>"
    by (simp add: sqlstate_error_code_def make_sqlstate_code_def)
next
  fix s t
  assume "sqlstate_wf s" "sqlstate_wf t"
    "sqlstate_of_long (strtol36 s) = sqlstate_of_long (strtol36 t)"
  then show "s = t"
    using read_digits36_inj by (simp add: sqlstate_wf_value) (simp add: sqlstate_wf_def)
qed

lemma sqlstate_failed_iff: "sqlstate_wf s \<Longrightarrow> failed (sqlstate_error_code s) \<longleftrightarrow> s \<noteq> ''00000''"
proof -
  assume s: "sqlstate_wf s"
  have z: "sqlstate_wf ''00000''" by (simp add: sqlstate_wf_def digits36_def)
  have "sqlstate_of_long (strtol36 ''00000'') = 0"
    by (simp add: sqlstate_wf_value [OF z] digit36_def Let_def)
  then show ?thesis
    using sqlstate_codes.value_inj [OF s z] by (auto simp: sqlstate_codes.mk_failed_iff)
qed

lemma to_base36_set: "set (to_base36 v) \<subseteq> set digits36"
proof (induction v rule: base36_induct)
  case (pos v)
  have "nat (v mod 36) < length digits36" by (simp add: digits36_def nat_less_iff)
  then have "digits36 ! nat (v mod 36) \<in> set digits36" by (rule nth_mem)
  with pos.IH show ?case by (simp add: to_base36_pos [OF pos.hyps])
qed (simp add: to_base36_def)

lemma strtol36_to_base36:
  assumes "0 \<le> v" and "v < 2 ^ 31"
  shows "sqlstate_of_long (strtol36 (to_base36 v)) = v"
proof (cases "to_base36 v = []")
  case True
  then have "v = 0" using read_to_base36 [OF assms(1)] assms(1) by simp
  then show ?thesis by (simp add: strtol36_def sqlstate_of_long_def)
next
  case False
  from strtol36_digits [OF this to_base36_set] read_to_base36 [OF assms(1)] assms
  show ?thesis by (simp add: sqlstate_of_long_id)
qed

lemma read_digits36_zeros: "read_digits36 0 (dropWhile (\<lambda>c. c = CHR ''0'') s) = read_digits36 0 s"
  by (induction s) (auto simp: digit36_def Let_def)

lemma to_base36_read:
  assumes "set t \<subseteq> set digits36" and "t = [] \<or> hd t \<noteq> CHR ''0''"
  shows "to_base36 (int (read_digits36 0 t)) = t"
  using assms
proof (induction t rule: rev_induct)
  case (snoc c u)
  from snoc.prems obtain d where d: "d < 36" "c = digits36 ! d" "digit36 c = Some d"
    using set_digits36D by fastforce
  have u: "\<forall>c \<in> set u. digit36 c \<noteq> None" using snoc.prems(1) set_digits36D by fastforce
  have hd: "u = [] \<or> hd u \<noteq> CHR ''0''" using snoc.prems(2) by (cases u) auto
  then have IH: "to_base36 (int (read_digits36 0 u)) = u" using snoc by simp
  let ?v = "36 * read_digits36 0 u + d"
  have v: "read_digits36 0 (u @ [c]) = ?v" using u d by (simp add: read_digits36_append)
  have "?v > 0"
  proof (rule ccontr)
    assume "\<not> ?v > 0"
    then have "u = []" and "d = 0" using IH by auto
    with snoc.prems(2) d(2) show False by (simp add: digits36_def)
  qed
  then have "to_base36 (int ?v) = to_base36 (int ?v div 36) @ [digits36 ! nat (int ?v mod 36)]"
    by (intro to_base36_pos) linarith
  moreover have "int ?v div 36 = int (read_digits36 0 u)" and "nat (int ?v mod 36) = d"
    using d(1) by (simp_all add: zdiv_int [symmetric] zmod_int [symmetric])
  ultimately show ?case using IH d v by simp
qed simp

subsection \<open>Properties\<close>

text \<open>C40: formatting the error code of a five-character SQLSTATE gives its characters back, without the leading zeros.\<close>

theorem sqlstate_roundtrip:
  assumes "sqlstate_wf s"
  shows "to_base36 (ec_value (sqlstate_error_code s)) = dropWhile (\<lambda>c. c = CHR ''0'') s"
proof -
  let ?t = "dropWhile (\<lambda>c. c = CHR ''0'') s"
  have "set ?t \<subseteq> set digits36" using assms set_dropWhileD by (fastforce simp: sqlstate_wf_def)
  moreover have "?t = [] \<or> hd ?t \<noteq> CHR ''0''" using hd_dropWhile by blast
  ultimately have "to_base36 (int (read_digits36 0 ?t)) = ?t" by (rule to_base36_read)
  then show ?thesis
    by (simp add: sqlstate_error_code_def make_sqlstate_code_def sqlstate_wf_value [OF assms]
        read_digits36_zeros)
qed

theorem sqlstate_roundtrip_witness:
  "to_base36 (ec_value (sqlstate_error_code ''0A001'')) = ''A001''"
  using sqlstate_roundtrip [of "''0A001''"] by (simp add: sqlstate_wf_def digits36_def)

text \<open>Reading SQLSTATEs as numbers in base 36 loses nothing: two different codes give different error codes, none is cut by the conversion to a 32-bit enumerator, and the only code that is read as success is 00000.\<close>

theorem sqlstate_codes_distinguish:
  assumes "sqlstate_wf s" and "sqlstate_wf t"
  shows "(sqlstate_error_code s = sqlstate_error_code t \<longleftrightarrow> s = t) \<and>
    (failed (sqlstate_error_code s) \<longleftrightarrow> s \<noteq> ''00000'')"
  using assms sqlstate_codes.mk_inj sqlstate_failed_iff by auto

theorem sqlstate_codes_distinguish_witness:
  "sqlstate_error_code ''23505'' \<noteq> sqlstate_error_code ''40P01'' \<and> failed (sqlstate_error_code ''23505'')"
  using sqlstate_codes_distinguish [of "''23505''" "''40P01''"] by (simp add: sqlstate_wf_def digits36_def)

end
