(* ===== verification/SqlState.thy ===== *)
theory SqlState
  imports Base36
begin

text \<open>
  The SQLSTATE error codes (include/psql/sqlstate.hpp). A five-character SQLSTATE is read as a
  number in base 36; the enumeration \<open>psql::sqlstate\<close> names the known numbers. An enumerator is
  modelled by its name, and the enumeration by the table of names and values; the message switch is
  the table of its case labels and returned texts, in the order of the source.
\<close>

subsection \<open>The enumeration\<close>

definition sqlstate_enum_1 :: "(string \<times> int) list" where
  "sqlstate_enum_1 =
    [
      (''successful_completion'', 0),
      (''warning'', 46656),
      (''warning_dynamic_result_sets_returned'', 46668),
      (''warning_implicit_zero_bit_padding'', 46664),
      (''warning_null_value_eliminated_in_set_function'', 46659),
      (''warning_privilege_not_granted'', 46663),
      (''warning_privilege_not_revoked'', 46662),
      (''warning_string_data_right_truncation'', 46660),
      (''warning_deprecated_feature'', 79057),
      (''no_data'', 93312),
      (''no_additional_dynamic_result_sets_returned'', 93313),
      (''sql_statement_not_yet_complete'', 139968),
      (''connection_exception'', 373248),
      (''connection_does_not_exist'', 373251),
      (''connection_failure'', 373254),
      (''sqlclient_unable_to_establish_sqlconnection'', 373249),
      (''sqlserver_rejected_establishment_of_sqlconnection'', 373252),
      (''transaction_resolution_unknown'', 373255),
      (''protocol_violation'', 405649),
      (''triggered_action_exception'', 419904),
      (''feature_not_supported'', 466560),
      (''invalid_transaction_initiation'', 513216),
      (''locator_exception'', 699840),
      (''l_e_invalid_specification'', 699841),
      (''invalid_grantor'', 979776),
      (''invalid_grant_operation'', 1012177),
      (''invalid_role_specification'', 1166400),
      (''diagnostics_exception'', 1632960),
      (''stacked_diagnostics_accessed_without_active_handler'', 1632962),
      (''case_not_found'', 3359232),
      (''cardinality_violation'', 3405888),
      (''data_exception'', 3452544),
      (''array_element_error'', 3452630),
      (''character_not_in_repertoire'', 3452617),
      (''datetime_field_overflow'', 3452552),
      (''division_by_zero'', 3452582),
      (''error_in_assignment'', 3452549),
      (''escape_character_conflict'', 3452555),
      (''indicator_overflow'', 3452618),
      (''interval_field_overflow'', 3452585),
      (''invalid_argument_for_log'', 3452594),
      (''invalid_argument_for_ntile'', 3452584),
      (''invalid_argument_for_nth_value'', 3452586),
      (''invalid_argument_for_power_function'', 3452595),
      (''invalid_argument_for_width_bucket_function'', 3452596),
      (''invalid_character_value_for_cast'', 3452588),
      (''invalid_datetime_format'', 3452551),
      (''invalid_escape_character'', 3452589),
      (''invalid_escape_octet'', 3452557),
      (''invalid_escape_sequence'', 3452621),
      (''nonstandard_use_of_escape_character'', 3484950),
      (''invalid_indicator_parameter_value'', 3452580),
      (''invalid_parameter_value'', 3452619),
      (''invalid_preceding_or_following_size'', 3452583),
      (''invalid_regular_expression'', 3452591),
      (''invalid_row_count_in_limit_clause'', 3452612),
      (''invalid_row_count_in_result_offset_clause'', 3452613),
      (''invalid_tablesample_argument'', 3452633),
      (''invalid_tablesample_repeat'', 3452632),
      (''invalid_time_zone_displacement_value'', 3452553),
      (''invalid_use_of_escape_character'', 3452556),
      (''most_specific_type_mismatch'', 3452560),
      (''null_value_not_allowed'', 3452548),
      (''null_value_no_indicator_parameter'', 3452546),
      (''numeric_value_out_of_range'', 3452547),
      (''sequence_generator_limit_exceeded'', 3452561),
      (''string_data_length_mismatch'', 3452622),
      (''string_data_right_truncation'', 3452545),
      (''substring_error'', 3452581),
      (''trim_error'', 3452623),
      (''unterminated_c_string'', 3452620),
      (''zero_length_character_string'', 3452559),
      (''floating_point_exception'', 3484945),
      (''invalid_text_representation'', 3484946),
      (''invalid_binary_representation'', 3484947),
      (''bad_copy_file_format'', 3484948),
      (''untranslatable_character'', 3484949),
      (''not_an_xml_document'', 3452565),
      (''invalid_xml_document'', 3452566),
      (''invalid_xml_content'', 3452567),
      (''invalid_xml_comment'', 3452572),
      (''invalid_xml_processing_instruction'', 3452573),
      (''duplicate_json_object_key_value'', 3452652),
      (''invalid_argument_for_sql_json_datetime_function'', 3452653),
      (''invalid_json_text'', 3452654),
      (''invalid_sql_json_subscript'', 3452655),
      (''more_than_one_sql_json_item'', 3452656),
      (''no_sql_json_item'', 3452657),
      (''non_numeric_sql_json_item'', 3452658),
      (''non_unique_keys_in_a_json_object'', 3452659),
      (''singleton_sql_json_item_required'', 3452660),
      (''sql_json_array_not_found'', 3452661),
      (''sql_json_member_not_found'', 3452662),
      (''sql_json_number_not_found'', 3452663),
      (''sql_json_object_not_found'', 3452664),
      (''too_many_json_array_elements'', 3452665),
      (''too_many_json_object_members'', 3452666),
      (''sql_json_scalar_required'', 3452667),
      (''sql_json_item_cannot_be_cast_to_target_type'', 3452668),
      (''integrity_constraint_violation'', 3499200),
      (''restrict_violation'', 3499201),
      (''not_null_violation'', 3505682),
      (''foreign_key_violation'', 3505683),
      (''unique_violation'', 3505685),
      (''check_violation'', 3505720),
      (''exclusion_violation'', 3531601),
      (''invalid_cursor_state'', 3545856),
      (''invalid_transaction_state'', 3592512),
      (''active_sql_transaction'', 3592513),
      (''branch_transaction_already_active'', 3592514),
      (''held_cursor_requires_same_isolation_level'', 3592520),
      (''inappropriate_access_mode_for_branch_transaction'', 3592515),
      (''inappropriate_isolation_level_for_branch_transaction'', 3592516),
      (''no_active_sql_transaction_for_branch_transaction'', 3592517),
      (''read_only_sql_transaction'', 3592518),
      (''schema_and_data_statement_mixing_not_supported'', 3592519),
      (''no_active_sql_transaction'', 3624913),
      (''in_failed_sql_transaction'', 3624914),
      (''idle_in_transaction_session_timeout'', 3624915),
      (''invalid_sql_statement_name'', 3639168),
      (''triggered_data_change_violation'', 3685824),
      (''invalid_authorization_specification'', 3732480),
      (''invalid_password'', 3764881),
      (''dependent_privilege_descriptors_still_exist'', 3872448),
      (''dependent_objects_still_exist'', 3904849),
      (''invalid_transaction_termination'', 3965760),
      (''sql_routine_exception'', 4059072),
      (''s_r_e_function_executed_no_return_statement'', 4059077),
      (''s_r_e_modifying_sql_data_not_permitted'', 4059074),
      (''s_r_e_prohibited_sql_statement_attempted'', 4059075)]"

definition sqlstate_enum_2 :: "(string \<times> int) list" where
  "sqlstate_enum_2 =
    [
      (''s_r_e_reading_sql_data_not_permitted'', 4059076),
      (''invalid_cursor_name'', 5225472),
      (''external_routine_exception'', 5412096),
      (''e_r_e_containing_sql_not_permitted'', 5412097),
      (''e_r_e_modifying_sql_data_not_permitted'', 5412098),
      (''e_r_e_prohibited_sql_statement_attempted'', 5412099),
      (''e_r_e_reading_sql_data_not_permitted'', 5412100),
      (''external_routine_invocation_exception'', 5458752),
      (''e_r_i_e_invalid_sqlstate_returned'', 5458753),
      (''e_r_i_e_null_value_not_allowed'', 5458756),
      (''e_r_i_e_trigger_protocol_violated'', 5491153),
      (''e_r_i_e_srf_protocol_violated'', 5491154),
      (''e_r_i_e_event_trigger_protocol_violated'', 5491155),
      (''savepoint_exception'', 5552064),
      (''s_e_invalid_specification'', 5552065),
      (''invalid_catalog_name'', 5645376),
      (''invalid_schema_name'', 5738688),
      (''transaction_rollback'', 6718464),
      (''t_r_integrity_constraint_violation'', 6718466),
      (''t_r_serialization_failure'', 6718465),
      (''t_r_statement_completion_unknown'', 6718467),
      (''t_r_deadlock_detected'', 6750865),
      (''syntax_error_or_access_rule_violation'', 6811776),
      (''syntax_error'', 6819553),
      (''insufficient_privilege'', 6818257),
      (''cannot_coerce'', 6822294),
      (''grouping_error'', 6822147),
      (''windowing_error'', 6844248),
      (''invalid_recursion'', 6844221),
      (''invalid_foreign_key'', 6822252),
      (''invalid_name'', 6819554),
      (''name_too_long'', 6819626),
      (''reserved_name'', 6823557),
      (''datatype_mismatch'', 6822148),
      (''indeterminate_datatype'', 6844220),
      (''collation_mismatch'', 6844249),
      (''indeterminate_collation'', 6844250),
      (''wrong_object_type'', 6822153),
      (''generated_always'', 6822585),
      (''undefined_column'', 6820851),
      (''undefined_function'', 6822435),
      (''undefined_table'', 6844177),
      (''undefined_parameter'', 6844178),
      (''undefined_object'', 6820852),
      (''duplicate_column'', 6820849),
      (''duplicate_cursor'', 6844179),
      (''duplicate_database'', 6844180),
      (''duplicate_function'', 6820923),
      (''duplicate_pstatement'', 6844181),
      (''duplicate_schema'', 6844182),
      (''duplicate_table'', 6844183),
      (''duplicate_alias'', 6820886),
      (''duplicate_object'', 6820884),
      (''ambiguous_column'', 6820850),
      (''ambiguous_function'', 6820925),
      (''ambiguous_parameter'', 6844184),
      (''ambiguous_alias'', 6844185),
      (''invalid_column_reference'', 6844212),
      (''invalid_column_definition'', 6819589),
      (''invalid_cursor_definition'', 6844213),
      (''invalid_database_definition'', 6844214),
      (''invalid_function_definition'', 6844215),
      (''invalid_pstatement_definition'', 6844216),
      (''invalid_schema_definition'', 6844217),
      (''invalid_table_definition'', 6844218),
      (''invalid_object_definition'', 6844219),
      (''with_check_option_violation'', 6905088),
      (''insufficient_resources'', 8538048),
      (''disk_full'', 8539344),
      (''out_of_memory'', 8540640),
      (''too_many_connections'', 8541936),
      (''configuration_limit_exceeded'', 8543232),
      (''program_limit_exceeded'', 8584704),
      (''statement_too_complex'', 8584705),
      (''too_many_columns'', 8584741),
      (''too_many_arguments'', 8584779),
      (''object_not_in_prerequisite_state'', 8631360),
      (''object_in_use'', 8631366),
      (''cant_change_runtime_param'', 8663762),
      (''lock_not_available'', 8663763),
      (''unsafe_new_enum_value_usage'', 8663764),
      (''operator_intervention'', 8724672),
      (''query_canceled'', 8724712),
      (''admin_shutdown'', 8757073),
      (''crash_shutdown'', 8757074),
      (''cannot_connect_now'', 8757075),
      (''database_dropped'', 8757076),
      (''idle_session_timeout'', 8757077),
      (''system_error'', 8771328),
      (''io_error'', 8771436),
      (''undefined_file'', 8803729),
      (''duplicate_file'', 8803730),
      (''snapshot_too_old'', 11850624),
      (''config_file_error'', 25194240),
      (''lock_file_exists'', 25194241),
      (''fdw_error'', 29999808),
      (''fdw_column_name_not_found'', 29999813),
      (''fdw_dynamic_parameter_value_needed'', 29999810),
      (''fdw_function_sequence_error'', 29999844),
      (''fdw_inconsistent_descriptor_information'', 29999881),
      (''fdw_invalid_attribute_value'', 29999884),
      (''fdw_invalid_column_name'', 29999815),
      (''fdw_invalid_column_number'', 29999816),
      (''fdw_invalid_data_type'', 29999812),
      (''fdw_invalid_data_type_descriptors'', 29999814),
      (''fdw_invalid_descriptor_field_identifier'', 30000133),
      (''fdw_invalid_handle'', 29999819),
      (''fdw_invalid_option_index'', 29999820),
      (''fdw_invalid_option_name'', 29999821),
      (''fdw_invalid_string_length_or_buffer_length'', 30000132),
      (''fdw_invalid_string_format'', 29999818),
      (''fdw_invalid_use_of_null_pointer'', 29999817),
      (''fdw_too_many_handles'', 29999848),
      (''fdw_out_of_memory'', 29999809),
      (''fdw_no_schemas'', 29999833),
      (''fdw_option_name_not_found'', 29999827),
      (''fdw_reply_handle'', 29999828),
      (''fdw_schema_not_found'', 29999834),
      (''fdw_table_not_found'', 29999835),
      (''fdw_unable_to_create_execution'', 29999829),
      (''fdw_unable_to_create_reply'', 29999830),
      (''fdw_unable_to_establish_connection'', 29999831),
      (''plpgsql_error'', 41990400),
      (''raise_exception'', 41990401),
      (''no_data_found'', 41990402),
      (''too_many_rows'', 41990403),
      (''assert_failure'', 41990404),
      (''internal_error'', 56966976),
      (''data_corrupted'', 56966977),
      (''index_corrupted'', 56966978)]"

definition sqlstate_cases_1 :: "(string \<times> string) list" where
  "sqlstate_cases_1 =
    [
      (''successful_completion'', ''successful_completion''),
      (''warning'', ''warning''),
      (''warning_dynamic_result_sets_returned'', ''warning_dynamic_result_sets_returned''),
      (''warning_implicit_zero_bit_padding'', ''warning_implicit_zero_bit_padding''),
      (''warning_null_value_eliminated_in_set_function'', ''warning_null_value_eliminated_in_set_function''),
      (''warning_privilege_not_granted'', ''warning_privilege_not_granted''),
      (''warning_privilege_not_revoked'', ''warning_privilege_not_revoked''),
      (''warning_string_data_right_truncation'', ''warning_string_data_right_truncation''),
      (''warning_deprecated_feature'', ''warning_deprecated_feature''),
      (''no_data'', ''no_data''),
      (''no_additional_dynamic_result_sets_returned'', ''no_additional_dynamic_result_sets_returned''),
      (''sql_statement_not_yet_complete'', ''sql_statement_not_yet_complete''),
      (''connection_exception'', ''connection_exception''),
      (''connection_does_not_exist'', ''connection_does_not_exist''),
      (''connection_failure'', ''connection_failure''),
      (''sqlclient_unable_to_establish_sqlconnection'', ''sqlclient_unable_to_establish_sqlconnection''),
      (''sqlserver_rejected_establishment_of_sqlconnection'', ''sqlserver_rejected_establishment_of_sqlconnection''),
      (''transaction_resolution_unknown'', ''transaction_resolution_unknown''),
      (''protocol_violation'', ''protocol_violation''),
      (''triggered_action_exception'', ''triggered_action_exception''),
      (''feature_not_supported'', ''feature_not_supported''),
      (''invalid_transaction_initiation'', ''invalid_transaction_initiation''),
      (''locator_exception'', ''locator_exception''),
      (''l_e_invalid_specification'', ''l_e_invalid_specification''),
      (''invalid_grantor'', ''invalid_grantor''),
      (''invalid_grant_operation'', ''invalid_grant_operation''),
      (''invalid_role_specification'', ''invalid_role_specification''),
      (''diagnostics_exception'', ''diagnostics_exception''),
      (''stacked_diagnostics_accessed_without_active_handler'', ''stacked_diagnostics_accessed_without_active_handler''),
      (''case_not_found'', ''case_not_found''),
      (''cardinality_violation'', ''cardinality_violation''),
      (''data_exception'', ''data_exception''),
      (''array_element_error'', ''array_element_error''),
      (''character_not_in_repertoire'', ''character_not_in_repertoire''),
      (''datetime_field_overflow'', ''datetime_field_overflow''),
      (''division_by_zero'', ''division_by_zero''),
      (''error_in_assignment'', ''error_in_assignment''),
      (''escape_character_conflict'', ''escape_character_conflict''),
      (''indicator_overflow'', ''indicator_overflow''),
      (''interval_field_overflow'', ''interval_field_overflow''),
      (''invalid_argument_for_log'', ''invalid_argument_for_log''),
      (''invalid_argument_for_ntile'', ''invalid_argument_for_ntile''),
      (''invalid_argument_for_nth_value'', ''invalid_argument_for_nth_value''),
      (''invalid_argument_for_power_function'', ''invalid_argument_for_power_function''),
      (''invalid_argument_for_width_bucket_function'', ''invalid_argument_for_width_bucket_function''),
      (''invalid_character_value_for_cast'', ''invalid_character_value_for_cast''),
      (''invalid_datetime_format'', ''invalid_datetime_format''),
      (''invalid_escape_character'', ''invalid_escape_character''),
      (''invalid_escape_octet'', ''invalid_escape_octet''),
      (''invalid_escape_sequence'', ''invalid_escape_sequence''),
      (''nonstandard_use_of_escape_character'', ''nonstandard_use_of_escape_character''),
      (''invalid_indicator_parameter_value'', ''invalid_indicator_parameter_value''),
      (''invalid_parameter_value'', ''invalid_parameter_value''),
      (''invalid_preceding_or_following_size'', ''invalid_preceding_or_following_size''),
      (''invalid_regular_expression'', ''invalid_regular_expression''),
      (''invalid_row_count_in_limit_clause'', ''invalid_row_count_in_limit_clause''),
      (''invalid_row_count_in_result_offset_clause'', ''invalid_row_count_in_result_offset_clause''),
      (''invalid_tablesample_argument'', ''invalid_tablesample_argument''),
      (''invalid_tablesample_repeat'', ''invalid_tablesample_repeat''),
      (''invalid_time_zone_displacement_value'', ''invalid_time_zone_displacement_value''),
      (''invalid_use_of_escape_character'', ''invalid_use_of_escape_character''),
      (''most_specific_type_mismatch'', ''most_specific_type_mismatch''),
      (''null_value_not_allowed'', ''null_value_not_allowed''),
      (''null_value_no_indicator_parameter'', ''null_value_no_indicator_parameter''),
      (''numeric_value_out_of_range'', ''numeric_value_out_of_range'')]"

definition sqlstate_cases_2 :: "(string \<times> string) list" where
  "sqlstate_cases_2 =
    [
      (''sequence_generator_limit_exceeded'', ''sequence_generator_limit_exceeded''),
      (''string_data_length_mismatch'', ''string_data_length_mismatch''),
      (''string_data_right_truncation'', ''string_data_right_truncation''),
      (''substring_error'', ''substring_error''),
      (''trim_error'', ''trim_error''),
      (''unterminated_c_string'', ''unterminated_c_string''),
      (''zero_length_character_string'', ''zero_length_character_string''),
      (''floating_point_exception'', ''floating_point_exception''),
      (''invalid_text_representation'', ''invalid_text_representation''),
      (''invalid_binary_representation'', ''invalid_binary_representation''),
      (''bad_copy_file_format'', ''bad_copy_file_format''),
      (''untranslatable_character'', ''untranslatable_character''),
      (''not_an_xml_document'', ''not_an_xml_document''),
      (''invalid_xml_document'', ''invalid_xml_document''),
      (''invalid_xml_content'', ''invalid_xml_content''),
      (''invalid_xml_comment'', ''invalid_xml_comment''),
      (''invalid_xml_processing_instruction'', ''invalid_xml_processing_instruction''),
      (''duplicate_json_object_key_value'', ''duplicate_json_object_key_value''),
      (''invalid_argument_for_sql_json_datetime_function'', ''invalid_argument_for_sql_json_datetime_function''),
      (''invalid_json_text'', ''invalid_json_text''),
      (''invalid_sql_json_subscript'', ''invalid_sql_json_subscript''),
      (''more_than_one_sql_json_item'', ''more_than_one_sql_json_item''),
      (''no_sql_json_item'', ''no_sql_json_item''),
      (''non_numeric_sql_json_item'', ''non_numeric_sql_json_item''),
      (''non_unique_keys_in_a_json_object'', ''non_unique_keys_in_a_json_object''),
      (''singleton_sql_json_item_required'', ''singleton_sql_json_item_required''),
      (''sql_json_array_not_found'', ''sql_json_array_not_found''),
      (''sql_json_member_not_found'', ''sql_json_member_not_found''),
      (''sql_json_number_not_found'', ''sql_json_number_not_found''),
      (''sql_json_object_not_found'', ''sql_json_object_not_found''),
      (''too_many_json_array_elements'', ''too_many_json_array_elements''),
      (''too_many_json_object_members'', ''too_many_json_object_members''),
      (''sql_json_scalar_required'', ''sql_json_scalar_required''),
      (''sql_json_item_cannot_be_cast_to_target_type'', ''sql_json_item_cannot_be_cast_to_target_type''),
      (''integrity_constraint_violation'', ''integrity_constraint_violation''),
      (''restrict_violation'', ''restrict_violation''),
      (''not_null_violation'', ''not_null_violation''),
      (''foreign_key_violation'', ''foreign_key_violation''),
      (''unique_violation'', ''unique_violation''),
      (''check_violation'', ''check_violation''),
      (''exclusion_violation'', ''exclusion_violation''),
      (''invalid_cursor_state'', ''invalid_cursor_state''),
      (''invalid_transaction_state'', ''invalid_transaction_state''),
      (''active_sql_transaction'', ''active_sql_transaction''),
      (''branch_transaction_already_active'', ''branch_transaction_already_active''),
      (''held_cursor_requires_same_isolation_level'', ''held_cursor_requires_same_isolation_level''),
      (''inappropriate_access_mode_for_branch_transaction'', ''inappropriate_access_mode_for_branch_transaction''),
      (''inappropriate_isolation_level_for_branch_transaction'', ''inappropriate_isolation_level_for_branch_transaction''),
      (''no_active_sql_transaction_for_branch_transaction'', ''no_active_sql_transaction_for_branch_transaction''),
      (''read_only_sql_transaction'', ''read_only_sql_transaction''),
      (''schema_and_data_statement_mixing_not_supported'', ''schema_and_data_statement_mixing_not_supported''),
      (''no_active_sql_transaction'', ''no_active_sql_transaction''),
      (''in_failed_sql_transaction'', ''in_failed_sql_transaction''),
      (''idle_in_transaction_session_timeout'', ''idle_in_transaction_session_timeout''),
      (''invalid_sql_statement_name'', ''invalid_sql_statement_name''),
      (''triggered_data_change_violation'', ''triggered_data_change_violation''),
      (''invalid_authorization_specification'', ''invalid_authorization_specification''),
      (''invalid_password'', ''invalid_password''),
      (''dependent_privilege_descriptors_still_exist'', ''dependent_privilege_descriptors_still_exist''),
      (''dependent_objects_still_exist'', ''dependent_objects_still_exist''),
      (''invalid_transaction_termination'', ''invalid_transaction_termination''),
      (''sql_routine_exception'', ''sql_routine_exception''),
      (''s_r_e_function_executed_no_return_statement'', ''s_r_e_function_executed_no_return_statement''),
      (''s_r_e_modifying_sql_data_not_permitted'', ''s_r_e_modifying_sql_data_not_permitted''),
      (''s_r_e_prohibited_sql_statement_attempted'', ''s_r_e_prohibited_sql_statement_attempted'')]"

definition sqlstate_cases_3 :: "(string \<times> string) list" where
  "sqlstate_cases_3 =
    [
      (''s_r_e_reading_sql_data_not_permitted'', ''s_r_e_reading_sql_data_not_permitted''),
      (''invalid_cursor_name'', ''invalid_cursor_name''),
      (''external_routine_exception'', ''external_routine_exception''),
      (''e_r_e_containing_sql_not_permitted'', ''e_r_e_containing_sql_not_permitted''),
      (''e_r_e_modifying_sql_data_not_permitted'', ''e_r_e_modifying_sql_data_not_permitted''),
      (''e_r_e_prohibited_sql_statement_attempted'', ''e_r_e_prohibited_sql_statement_attempted''),
      (''e_r_e_reading_sql_data_not_permitted'', ''e_r_e_reading_sql_data_not_permitted''),
      (''external_routine_invocation_exception'', ''external_routine_invocation_exception''),
      (''e_r_i_e_invalid_sqlstate_returned'', ''e_r_i_e_invalid_sqlstate_returned''),
      (''e_r_i_e_null_value_not_allowed'', ''e_r_i_e_null_value_not_allowed''),
      (''e_r_i_e_trigger_protocol_violated'', ''e_r_i_e_trigger_protocol_violated''),
      (''e_r_i_e_srf_protocol_violated'', ''e_r_i_e_srf_protocol_violated''),
      (''e_r_i_e_event_trigger_protocol_violated'', ''e_r_i_e_event_trigger_protocol_violated''),
      (''savepoint_exception'', ''savepoint_exception''),
      (''s_e_invalid_specification'', ''s_e_invalid_specification''),
      (''invalid_catalog_name'', ''invalid_catalog_name''),
      (''invalid_schema_name'', ''invalid_schema_name''),
      (''transaction_rollback'', ''transaction_rollback''),
      (''t_r_integrity_constraint_violation'', ''t_r_integrity_constraint_violation''),
      (''t_r_serialization_failure'', ''t_r_serialization_failure''),
      (''t_r_statement_completion_unknown'', ''t_r_statement_completion_unknown''),
      (''t_r_deadlock_detected'', ''t_r_deadlock_detected''),
      (''syntax_error_or_access_rule_violation'', ''syntax_error_or_access_rule_violation''),
      (''syntax_error'', ''syntax_error''),
      (''insufficient_privilege'', ''insufficient_privilege''),
      (''cannot_coerce'', ''cannot_coerce''),
      (''grouping_error'', ''grouping_error''),
      (''windowing_error'', ''windowing_error''),
      (''invalid_recursion'', ''invalid_recursion''),
      (''invalid_foreign_key'', ''invalid_foreign_key''),
      (''invalid_name'', ''invalid_name''),
      (''name_too_long'', ''name_too_long''),
      (''reserved_name'', ''reserved_name''),
      (''datatype_mismatch'', ''datatype_mismatch''),
      (''indeterminate_datatype'', ''indeterminate_datatype''),
      (''collation_mismatch'', ''collation_mismatch''),
      (''indeterminate_collation'', ''indeterminate_collation''),
      (''wrong_object_type'', ''wrong_object_type''),
      (''generated_always'', ''generated_always''),
      (''undefined_column'', ''undefined_column''),
      (''undefined_function'', ''undefined_function''),
      (''undefined_table'', ''undefined_table''),
      (''undefined_parameter'', ''undefined_parameter''),
      (''undefined_object'', ''undefined_object''),
      (''duplicate_column'', ''duplicate_column''),
      (''duplicate_cursor'', ''duplicate_cursor''),
      (''duplicate_database'', ''duplicate_database''),
      (''duplicate_function'', ''duplicate_function''),
      (''duplicate_pstatement'', ''duplicate_pstatement''),
      (''duplicate_schema'', ''duplicate_schema''),
      (''duplicate_table'', ''duplicate_table''),
      (''duplicate_alias'', ''duplicate_alias''),
      (''duplicate_object'', ''duplicate_object''),
      (''ambiguous_column'', ''ambiguous_column''),
      (''ambiguous_function'', ''ambiguous_function''),
      (''ambiguous_parameter'', ''ambiguous_parameter''),
      (''ambiguous_alias'', ''ambiguous_alias''),
      (''invalid_column_reference'', ''invalid_column_reference''),
      (''invalid_column_definition'', ''invalid_column_definition''),
      (''invalid_cursor_definition'', ''invalid_cursor_definition''),
      (''invalid_database_definition'', ''invalid_database_definition''),
      (''invalid_function_definition'', ''invalid_function_definition''),
      (''invalid_pstatement_definition'', ''invalid_pstatement_definition''),
      (''invalid_schema_definition'', ''invalid_schema_definition''),
      (''invalid_table_definition'', ''invalid_table_definition'')]"

definition sqlstate_cases_4 :: "(string \<times> string) list" where
  "sqlstate_cases_4 =
    [
      (''invalid_object_definition'', ''invalid_object_definition''),
      (''with_check_option_violation'', ''with_check_option_violation''),
      (''insufficient_resources'', ''insufficient_resources''),
      (''disk_full'', ''disk_full''),
      (''out_of_memory'', ''out_of_memory''),
      (''too_many_connections'', ''too_many_connections''),
      (''configuration_limit_exceeded'', ''configuration_limit_exceeded''),
      (''program_limit_exceeded'', ''program_limit_exceeded''),
      (''statement_too_complex'', ''statement_too_complex''),
      (''too_many_columns'', ''too_many_columns''),
      (''too_many_arguments'', ''too_many_arguments''),
      (''object_not_in_prerequisite_state'', ''object_not_in_prerequisite_state''),
      (''object_in_use'', ''object_in_use''),
      (''cant_change_runtime_param'', ''cant_change_runtime_param''),
      (''lock_not_available'', ''lock_not_available''),
      (''unsafe_new_enum_value_usage'', ''unsafe_new_enum_value_usage''),
      (''operator_intervention'', ''operator_intervention''),
      (''query_canceled'', ''query_canceled''),
      (''admin_shutdown'', ''admin_shutdown''),
      (''crash_shutdown'', ''crash_shutdown''),
      (''cannot_connect_now'', ''cannot_connect_now''),
      (''database_dropped'', ''database_dropped''),
      (''idle_session_timeout'', ''idle_session_timeout''),
      (''system_error'', ''system_error''),
      (''io_error'', ''io_error''),
      (''undefined_file'', ''undefined_file''),
      (''duplicate_file'', ''duplicate_file''),
      (''snapshot_too_old'', ''snapshot_too_old''),
      (''config_file_error'', ''config_file_error''),
      (''lock_file_exists'', ''lock_file_exists''),
      (''fdw_error'', ''fdw_error''),
      (''fdw_column_name_not_found'', ''fdw_column_name_not_found''),
      (''fdw_dynamic_parameter_value_needed'', ''fdw_dynamic_parameter_value_needed''),
      (''fdw_function_sequence_error'', ''fdw_function_sequence_error''),
      (''fdw_inconsistent_descriptor_information'', ''fdw_inconsistent_descriptor_information''),
      (''fdw_invalid_attribute_value'', ''fdw_invalid_attribute_value''),
      (''fdw_invalid_column_name'', ''fdw_invalid_column_name''),
      (''fdw_invalid_column_number'', ''fdw_invalid_column_number''),
      (''fdw_invalid_data_type'', ''fdw_invalid_data_type''),
      (''fdw_invalid_data_type_descriptors'', ''fdw_invalid_data_type_descriptors''),
      (''fdw_invalid_descriptor_field_identifier'', ''fdw_invalid_descriptor_field_identifier''),
      (''fdw_invalid_handle'', ''fdw_invalid_handle''),
      (''fdw_invalid_option_index'', ''fdw_invalid_option_index''),
      (''fdw_invalid_option_name'', ''fdw_invalid_option_name''),
      (''fdw_invalid_string_length_or_buffer_length'', ''fdw_invalid_string_length_or_buffer_length''),
      (''fdw_invalid_string_format'', ''fdw_invalid_string_format''),
      (''fdw_invalid_use_of_null_pointer'', ''fdw_invalid_use_of_null_pointer''),
      (''fdw_too_many_handles'', ''fdw_too_many_handles''),
      (''fdw_out_of_memory'', ''fdw_out_of_memory''),
      (''fdw_no_schemas'', ''fdw_no_schemas''),
      (''fdw_option_name_not_found'', ''fdw_option_name_not_found''),
      (''fdw_reply_handle'', ''fdw_reply_handle''),
      (''fdw_schema_not_found'', ''fdw_schema_not_found''),
      (''fdw_table_not_found'', ''fdw_table_not_found''),
      (''fdw_unable_to_create_execution'', ''fdw_unable_to_create_execution''),
      (''fdw_unable_to_create_reply'', ''fdw_unable_to_create_reply''),
      (''fdw_unable_to_establish_connection'', ''fdw_unable_to_establish_connection''),
      (''plpgsql_error'', ''plpgsql_error''),
      (''raise_exception'', ''raise_exception''),
      (''no_data_found'', ''no_data_found''),
      (''too_many_rows'', ''too_many_rows''),
      (''assert_failure'', ''assert_failure''),
      (''internal_error'', ''internal_error''),
      (''data_corrupted'', ''data_corrupted''),
      (''index_corrupted'', ''index_corrupted'')]"

definition sqlstate_enum :: "(string \<times> int) list" where
  "sqlstate_enum = sqlstate_enum_1 @ sqlstate_enum_2"

definition sqlstate_cases :: "(string \<times> string) list" where
  "sqlstate_cases = sqlstate_cases_1 @ sqlstate_cases_2 @ sqlstate_cases_3 @ sqlstate_cases_4"

text \<open>
  The switch compares the value with each label in turn; a value without an enumerator falls to
  the default.
\<close>

definition sqlstate_message :: "int \<Rightarrow> string" where
  "sqlstate_message ev =
     (case find (\<lambda>(label, text). map_of sqlstate_enum label = Some ev) sqlstate_cases of
        Some (label, text) \<Rightarrow> text
      | None \<Rightarrow> ''sqlstate error code:'' @ to_base36 ev)"

subsection \<open>The tables are consistent\<close>

text \<open>
  The names and the values of the enumeration are pairwise different. For the names the simplifier
  compares numbers computed from them, which is much faster than comparing the strings.
\<close>

fun string_key :: "int \<Rightarrow> string \<Rightarrow> int" where
  "string_key h [] = h"
| "string_key h (c # s) = string_key (3 * h + of_char c) s"

lemmas sqlstate_table_defs =
  sqlstate_enum_def sqlstate_enum_1_def sqlstate_enum_2_def
  sqlstate_cases_def sqlstate_cases_1_def sqlstate_cases_2_def sqlstate_cases_3_def sqlstate_cases_4_def

lemma distinct_sqlstate_values: "distinct (map snd sqlstate_enum)"
  by (simp add: sqlstate_table_defs)

lemma distinct_sqlstate_names: "distinct (map fst sqlstate_enum)"
proof -
  have "distinct (map (string_key 0) (map fst sqlstate_enum))"
    by (simp add: sqlstate_table_defs)
  then show ?thesis using distinct_map by blast
qed

lemma sqlstate_cases_labels: "map fst sqlstate_cases = map fst sqlstate_enum"
  unfolding sqlstate_table_defs list.map fst_conv append.simps by (rule refl)

lemma sqlstate_cases_texts: "map snd sqlstate_cases = map fst sqlstate_cases"
  unfolding sqlstate_table_defs list.map fst_conv snd_conv append.simps by (rule refl)

lemma sqlstate_values_bounds: "v \<in> set (map snd sqlstate_enum) \<Longrightarrow> 0 \<le> v \<and> v < 36 ^ 5"
  by (auto simp: sqlstate_table_defs)

lemma map_of_sqlstate_enum: "map_of sqlstate_enum n = Some v \<longleftrightarrow> (n, v) \<in> set sqlstate_enum"
  using distinct_sqlstate_names by (rule map_of_eq_Some_iff)

lemma sqlstate_value_inj:
  assumes "(m, v) \<in> set sqlstate_enum" and "(n, v) \<in> set sqlstate_enum"
  shows "m = n"
  using assms distinct_sqlstate_values
  by (metis (mono_tags, lifting) distinct_map inj_onD prod.inject snd_conv)

lemma sqlstate_cases_same: "(l, t) \<in> set sqlstate_cases \<Longrightarrow> t = l"
  using sqlstate_cases_texts by (metis (no_types, lifting) fst_conv map_eq_conv snd_conv)

lemma find_case:
  assumes "(n, v) \<in> set sqlstate_enum"
  shows "find (\<lambda>(label, text). map_of sqlstate_enum label = Some v) sqlstate_cases = Some (n, n)"
proof -
  have "n \<in> set (map fst sqlstate_cases)"
    using assms unfolding sqlstate_cases_labels by force
  then have "(n, n) \<in> set sqlstate_cases" using sqlstate_cases_same by fastforce
  then have "find (\<lambda>(label, text). map_of sqlstate_enum label = Some v) sqlstate_cases \<noteq> None"
    using assms by (auto simp: find_None_iff map_of_sqlstate_enum)
  then obtain l t where f: "find (\<lambda>(label, text). map_of sqlstate_enum label = Some v) sqlstate_cases = Some (l, t)"
    by auto
  then have "(l, v) \<in> set sqlstate_enum" and "(l, t) \<in> set sqlstate_cases"
    by (auto simp: find_Some_iff map_of_sqlstate_enum) (metis nth_mem)
  with f show ?thesis using assms sqlstate_value_inj sqlstate_cases_same by blast
qed

subsection \<open>Properties\<close>

text \<open>The message of every value of the enumeration is the name of its enumerator: each case of the switch returns its own label.\<close>

theorem sqlstate_message_known:
  assumes "(n, v) \<in> set sqlstate_enum"
  shows "sqlstate_message v = n"
  by (simp add: sqlstate_message_def find_case [OF assms])

theorem sqlstate_message_known_witness:
  "sqlstate_message 3505685 = ''unique_violation''"
  by (rule sqlstate_message_known) (simp add: sqlstate_table_defs)

text \<open>For a value without an enumerator the message carries a text that reads back, in base 36, to exactly that value.\<close>

theorem sqlstate_message_unknown:
  assumes "v \<notin> set (map snd sqlstate_enum)" and "0 \<le> v" and "v < 2 ^ 31"
  shows "\<exists>s. sqlstate_message v = ''sqlstate error code:'' @ s \<and> sqlstate_of_long (strtol36 s) = v"
proof -
  have "find (\<lambda>(label, text). map_of sqlstate_enum label = Some v) sqlstate_cases = None"
    using assms(1) by (force simp: find_None_iff map_of_sqlstate_enum)
  with strtol36_to_base36 [OF assms(2,3)] show ?thesis by (simp add: sqlstate_message_def)
qed

theorem sqlstate_message_unknown_witness:
  "\<exists>s. sqlstate_message 46657 = ''sqlstate error code:'' @ s \<and> sqlstate_of_long (strtol36 s) = 46657"
  by (rule sqlstate_message_unknown) (simp_all add: sqlstate_table_defs)



end
