(* ===== verification/Failures.thy ===== *)
theory Failures
  imports ErrorCodes
begin

text \<open>
  The ways in which a computation of the library fails to return: the exceptions of the C++ code,
  behaviour that the C++ standard leaves undefined, and template instantiations that do not compile
  (a model term exists for them, no program does). The payload of a mismatch is the pair of numbers
  that the text of the exception shows.
\<close>

datatype cpp_exception =
    OutOfRange
  | OidMismatch (oid_found: "32 word") (oid_expected: "32 word")
  | MemberCountMismatch (count_found: "32 word") (count_expected: "32 word")
  | MultidimensionalArray
  | LengthError
  | SystemError error_code

datatype undefined_behaviour =
    ReadOutOfBounds
  | BadSubspan
  | SignedOverflow
  | InvalidBool
  | DanglingPointer

datatype failure =
    Throw cpp_exception
  | Undefined undefined_behaviour
  | IllFormed

type_synonym 'a res = "failure + 'a"

end
