(* ===== verification/PgTypes.thy ===== *)
theory PgTypes
  imports Failures
begin

text \<open>
  The C++ types that the library converts (include/psql/detail/type_traits.hpp), and their object
  identifiers on the server (builtins.hpp, oid_pair.hpp, oid_map.hpp, oid_of.hpp).
\<close>

subsection \<open>The types\<close>

text \<open>The scalar types are those with a \<open>builtin\<close> specialisation.\<close>

datatype scalar =
    UInt32 | Bool | Byte | Char1 | Int64 | Int16 | Int32 | Float | Double
  | TimePoint | StringView | String | CharPtr

text \<open>
  A user-defined type is a specialisation of \<open>user_defined\<close>: its name on the server, the
  \<open>type_index\<close> of the C++ type and the types of its members.
\<close>

datatype ty =
    Scalar scalar
  | Vector ty
  | StdArray nat ty
  | Tuple "ty list"
  | UserDefined string nat "ty list"

fun is_user_defined :: "ty \<Rightarrow> bool" where
  "is_user_defined (UserDefined name index members) = True"
| "is_user_defined _ = False"

fun is_array :: "ty \<Rightarrow> bool" where
  "is_array (Vector t) = True"
| "is_array (StdArray n t) = True"
| "is_array _ = False"

fun is_tuple :: "ty \<Rightarrow> bool" where
  "is_tuple (Tuple ts) = True"
| "is_tuple _ = False"

definition is_composite :: "ty \<Rightarrow> bool" where
  "is_composite t \<longleftrightarrow> is_user_defined t \<or> is_tuple t"

subsection \<open>Object identifiers\<close>

type_synonym oid = "32 word"

record oid_pair =
  single :: oid
  array :: oid

fun builtin :: "ty \<Rightarrow> oid_pair option" where
  "builtin (Scalar UInt32) = Some \<lparr>single = 26, array = 1028\<rparr>"
| "builtin (Scalar Bool) = Some \<lparr>single = 16, array = 1000\<rparr>"
| "builtin (Scalar Byte) = Some \<lparr>single = 17, array = 1001\<rparr>"
| "builtin (Scalar Char1) = Some \<lparr>single = 18, array = 1002\<rparr>"
| "builtin (Scalar Int64) = Some \<lparr>single = 20, array = 1016\<rparr>"
| "builtin (Scalar Int16) = Some \<lparr>single = 21, array = 1005\<rparr>"
| "builtin (Scalar Int32) = Some \<lparr>single = 23, array = 1007\<rparr>"
| "builtin (Scalar Float) = Some \<lparr>single = 700, array = 1021\<rparr>"
| "builtin (Scalar Double) = Some \<lparr>single = 701, array = 1022\<rparr>"
| "builtin (Scalar TimePoint) = Some \<lparr>single = 1114, array = 1115\<rparr>"
| "builtin (Scalar StringView) = Some \<lparr>single = 25, array = 1009\<rparr>"
| "builtin (Scalar String) = Some \<lparr>single = 25, array = 1009\<rparr>"
| "builtin (Scalar CharPtr) = Some \<lparr>single = 25, array = 1009\<rparr>"
| "builtin (Tuple ts) = Some \<lparr>single = 2249, array = 2287\<rparr>"
| "builtin _ = None"

type_synonym oid_map = "nat \<Rightarrow> oid_pair option"

text \<open>\<open>std::map::at\<close> throws \<open>std::out_of_range\<close> for a missing key.\<close>

definition oid_map_at :: "oid_map \<Rightarrow> nat \<Rightarrow> oid_pair res" where
  "oid_map_at omp i = (case omp i of None \<Rightarrow> Inl (Throw OutOfRange) | Some p \<Rightarrow> Inr p)"

definition oids_of_builtin :: "ty \<Rightarrow> oid_pair res" where
  "oids_of_builtin t = (case builtin t of None \<Rightarrow> Inl IllFormed | Some p \<Rightarrow> Inr p)"

text \<open>
  \<open>oid_pair_of omp t\<close> is the pair from which both specialisations of \<open>oid_of_impl\<close> take a
  component: the registered one of a user-defined type, the built-in one otherwise.
\<close>

fun oid_pair_of :: "oid_map \<Rightarrow> ty \<Rightarrow> oid_pair res" where
  "oid_pair_of omp (UserDefined name index members) = oid_map_at omp index"
| "oid_pair_of omp t = oids_of_builtin t"

fun oid_of :: "oid_map \<Rightarrow> ty \<Rightarrow> oid res" where
  "oid_of omp (Vector t) = sbind (oid_pair_of omp t) (\<lambda>p. Inr (array p))"
| "oid_of omp (StdArray n t) = sbind (oid_pair_of omp t) (\<lambda>p. Inr (array p))"
| "oid_of omp t = sbind (oid_pair_of omp t) (\<lambda>p. Inr (single p))"

text \<open>
  The overload without a map, used to check received data: 0, meaning "any", for a user-defined
  type and for an array of one.
\<close>

fun static_oid :: "ty \<Rightarrow> oid res" where
  "static_oid (Vector t) =
     (if is_user_defined t then Inr 0 else sbind (oids_of_builtin t) (\<lambda>p. Inr (array p)))"
| "static_oid (StdArray n t) =
     (if is_user_defined t then Inr 0 else sbind (oids_of_builtin t) (\<lambda>p. Inr (array p)))"
| "static_oid t =
     (if is_user_defined t then Inr 0 else sbind (oids_of_builtin t) (\<lambda>p. Inr (single p)))"

subsection \<open>Which instantiations compile\<close>

text \<open>
  No \<open>builtin\<close> exists for an array, so arrays do not nest; the fold of \<open>size_of\<close> over the members
  needs at least one.
\<close>

fun encodable :: "ty \<Rightarrow> bool" where
  "encodable (Scalar s) = True"
| "encodable (Vector t) = (\<not> is_array t \<and> encodable t)"
| "encodable (StdArray n t) = (\<not> is_array t \<and> encodable t)"
| "encodable (Tuple ts) = (ts \<noteq> [] \<and> (\<forall>t \<in> set ts. encodable t))"
| "encodable (UserDefined name index ts) = (ts \<noteq> [] \<and> (\<forall>t \<in> set ts. encodable t))"

text \<open>
  Received data cannot be stored in a \<open>const char*\<close>, in a \<open>std::array\<close> (it has no \<open>resize\<close>) or in a
  \<open>std::vector<bool>\<close> (its elements cannot be bound to a reference).
\<close>

fun decodable :: "ty \<Rightarrow> bool" where
  "decodable (Scalar s) = (s \<noteq> CharPtr)"
| "decodable (Vector t) = (\<not> is_array t \<and> t \<noteq> Scalar Bool \<and> decodable t)"
| "decodable (StdArray n t) = False"
| "decodable (Tuple ts) = (\<forall>t \<in> set ts. decodable t)"
| "decodable (UserDefined name index ts) = (\<forall>t \<in> set ts. decodable t)"

text \<open>The type indices of the user-defined types that occur in a type.\<close>

fun udts :: "ty \<Rightarrow> nat set" where
  "udts (Scalar s) = {}"
| "udts (Vector t) = udts t"
| "udts (StdArray n t) = udts t"
| "udts (Tuple ts) = (\<Union>t \<in> set ts. udts t)"
| "udts (UserDefined name index ts) = insert index (\<Union>t \<in> set ts. udts t)"

subsection \<open>Facts\<close>

lemma builtin_scalar [simp]: "\<exists>p. builtin (Scalar s) = Some p"
  by (cases s) auto

lemma oids_of_builtin_ok: "\<not> is_array t \<Longrightarrow> \<not> is_user_defined t \<Longrightarrow> \<exists>p. oids_of_builtin t = Inr p"
  by (cases t) (auto simp: oids_of_builtin_def split: option.split)

lemma oid_pair_of_ok:
  assumes "\<not> is_array t" and "udts t \<subseteq> dom omp"
  shows "\<exists>p. oid_pair_of omp t = Inr p"
  using assms oids_of_builtin_ok [of t] by (cases t) (auto simp: oid_map_at_def)

lemma oid_of_ok:
  assumes "encodable t" and "udts t \<subseteq> dom omp"
  shows "\<exists>i. oid_of omp t = Inr i"
proof (cases t)
  case (Vector u)
  with assms oid_pair_of_ok [of u omp] show ?thesis by auto
next
  case (StdArray n u)
  with assms oid_pair_of_ok [of u omp] show ?thesis by auto
qed (use assms oid_pair_of_ok [of t omp] in auto)

lemma oid_pair_of_static:
  "oid_pair_of omp t = Inr p \<Longrightarrow> is_user_defined t \<or> oids_of_builtin t = Inr p"
  by (cases t) auto

text \<open>What \<open>oid_of\<close> writes passes the check against the expected identifier.\<close>

lemma static_oid_accepts:
  assumes "oid_of omp t = Inr i"
  shows "\<exists>e. static_oid t = Inr e \<and> (e = 0 \<or> e = i)"
  using assms by (cases t) (auto simp: sbind_Inr_iff dest!: oid_pair_of_static)

lemma oid_pair_of_fails:
  "\<not> is_array t \<Longrightarrow> oid_pair_of omp t = Inl e \<Longrightarrow> e = Throw OutOfRange"
  using oids_of_builtin_ok [of t] by (cases t) (auto simp: oid_map_at_def split: option.splits)

lemma oid_of_fails: "encodable t \<Longrightarrow> oid_of omp t = Inl e \<Longrightarrow> e = Throw OutOfRange"
  by (cases t) (auto simp: sbind_Inl_iff dest: oid_pair_of_fails [rotated] simp del: oid_pair_of.simps)

end
