(* ===== verification/Values.thy ===== *)
theory Values
  imports PgTypes
begin

text \<open>
  The C++ values that are serialized, each with its type, and \<open>size_of\<close>
  (include/psql/detail/size_of.hpp). Floating-point values are their IEEE bit patterns; a time point
  is its count of nanoseconds; a \<open>const char*\<close> is the string up to its terminating zero.
\<close>

datatype scalar_val =
    VUInt32 "32 word" | VBool bool | VByte byte | VChar byte
  | VInt64 "64 word" | VInt16 "16 word" | VInt32 "32 word" | VFloat "32 word" | VDouble "64 word"
  | VTimePoint "64 word"
  | VStringView "byte list" | VString "byte list" | VCharPtr "byte list"

datatype val =
    SVal scalar_val
  | VecVal ty "val list"
  | ArrVal nat ty "val list"
  | TupVal "val list"
  | UdtVal string nat "val list"

fun scalar_of :: "scalar_val \<Rightarrow> scalar" where
  "scalar_of (VUInt32 w) = UInt32"
| "scalar_of (VBool b) = Bool"
| "scalar_of (VByte w) = Byte"
| "scalar_of (VChar w) = Char1"
| "scalar_of (VInt64 w) = Int64"
| "scalar_of (VInt16 w) = Int16"
| "scalar_of (VInt32 w) = Int32"
| "scalar_of (VFloat w) = Float"
| "scalar_of (VDouble w) = Double"
| "scalar_of (VTimePoint w) = TimePoint"
| "scalar_of (VStringView s) = StringView"
| "scalar_of (VString s) = String"
| "scalar_of (VCharPtr s) = CharPtr"

fun ty_of :: "val \<Rightarrow> ty" where
  "ty_of (SVal v) = Scalar (scalar_of v)"
| "ty_of (VecVal t vs) = Vector t"
| "ty_of (ArrVal n t vs) = StdArray n t"
| "ty_of (TupVal vs) = Tuple (map ty_of vs)"
| "ty_of (UdtVal name index vs) = UserDefined name index (map ty_of vs)"

text \<open>What the C++ type system guarantees of a value.\<close>

fun wf_val :: "val \<Rightarrow> bool" where
  "wf_val (SVal v) = (case v of VCharPtr s \<Rightarrow> 0 \<notin> set s | _ \<Rightarrow> True)"
| "wf_val (VecVal t vs) = (\<forall>v \<in> set vs. ty_of v = t \<and> wf_val v)"
| "wf_val (ArrVal n t vs) = (length vs = n \<and> (\<forall>v \<in> set vs. ty_of v = t \<and> wf_val v))"
| "wf_val (TupVal vs) = (\<forall>v \<in> set vs. wf_val v)"
| "wf_val (UdtVal name index vs) = (\<forall>v \<in> set vs. wf_val v)"

subsection \<open>Sizes\<close>

fun size_of_scalar :: "scalar_val \<Rightarrow> nat" where
  "size_of_scalar (VUInt32 w) = 4"
| "size_of_scalar (VBool b) = 1"
| "size_of_scalar (VByte w) = 1"
| "size_of_scalar (VChar w) = 1"
| "size_of_scalar (VInt64 w) = 8"
| "size_of_scalar (VInt16 w) = 2"
| "size_of_scalar (VInt32 w) = 4"
| "size_of_scalar (VFloat w) = 4"
| "size_of_scalar (VDouble w) = 8"
| "size_of_scalar (VTimePoint w) = 8"
| "size_of_scalar (VStringView s) = length s"
| "size_of_scalar (VString s) = length s"
| "size_of_scalar (VCharPtr s) = length s"

text \<open>
  The loop over an array accumulates from 20; the fold over the members of a composite sums from
  the left and adds 4.
\<close>

fun size_of :: "val \<Rightarrow> nat" where
  "size_of (SVal v) = size_of_scalar v"
| "size_of (VecVal t vs) = foldl (\<lambda>n v. n + (size_of v + 4)) 20 vs"
| "size_of (ArrVal n t vs) = foldl (\<lambda>n v. n + (size_of v + 4)) 20 vs"
| "size_of (TupVal vs) = 4 + (\<Sum>v \<leftarrow> vs. size_of v + 8)"
| "size_of (UdtVal name index vs) = 4 + (\<Sum>v \<leftarrow> vs. size_of v + 8)"

lemma foldl_add_sum: "foldl (\<lambda>n v. n + f v) a vs = a + (\<Sum>v \<leftarrow> vs. f v)" for a :: nat
  by (induction vs arbitrary: a) auto

lemma size_of_elements:
  "size_of (VecVal t vs) = 20 + (\<Sum>v \<leftarrow> vs. size_of v + 4)"
  "size_of (ArrVal n t vs) = 20 + (\<Sum>v \<leftarrow> vs. size_of v + 4)"
  using foldl_add_sum [of "\<lambda>v. size_of v + 4"] by simp_all

end
