(* ===== verification/Buffer.thy ===== *)
theory Buffer
  imports Failures
begin

text \<open>
  The send buffer of a connection, a \<open>std::string\<close>: its characters, its capacity and its current
  allocation. A growth beyond the capacity moves the characters to a new allocation, which leaves
  every earlier pointer into the buffer dangling; a pointer is therefore an allocation with an
  offset. Capacity at least doubles when the string grows, as in libstdc++.
\<close>

record buf =
  chars :: "byte list"
  capacity :: nat
  allocation :: nat

type_synonym ptr = "nat \<times> nat"

definition grow_to :: "nat \<Rightarrow> buf \<Rightarrow> buf" where
  "grow_to n b =
     (if n \<le> capacity b then b
      else b\<lparr>capacity := max n (2 * capacity b), allocation := Suc (allocation b)\<rparr>)"

definition buf_clear :: "buf \<Rightarrow> buf" where
  "buf_clear b = b\<lparr>chars := []\<rparr>"

definition buf_reserve :: "nat \<Rightarrow> buf \<Rightarrow> buf" where
  "buf_reserve n b = grow_to n b"

definition buf_append :: "byte list \<Rightarrow> buf \<Rightarrow> buf" where
  "buf_append bs b =
     (let b' = grow_to (length (chars b) + length bs) b in b'\<lparr>chars := chars b @ bs\<rparr>)"

definition buf_resize :: "nat \<Rightarrow> buf \<Rightarrow> buf" where
  "buf_resize n b =
     (let b' = grow_to n b
      in b'\<lparr>chars := take n (chars b) @ replicate (n - length (chars b)) 0\<rparr>)"

text \<open>Writing over existing characters from an offset.\<close>

definition buf_store :: "nat \<Rightarrow> byte list \<Rightarrow> buf \<Rightarrow> buf" where
  "buf_store p bs b = b\<lparr>chars := take p (chars b) @ bs @ drop (p + length bs) (chars b)\<rparr>"

text \<open>\<open>&buffer.front() + buffer.size()\<close>\<close>

definition end_ptr :: "buf \<Rightarrow> ptr" where
  "end_ptr b = (allocation b, length (chars b))"

text \<open>What a reader finds at a pointer: nothing when it dangles or the read leaves the characters.\<close>

definition read_at :: "buf \<Rightarrow> ptr \<Rightarrow> nat \<Rightarrow> byte list option" where
  "read_at b p n =
     (if fst p = allocation b \<and> snd p + n \<le> length (chars b)
      then Some (take n (drop (snd p) (chars b))) else None)"

subsection \<open>Writers\<close>

text \<open>
  A writer changes the buffer and may fail; a failed writer leaves what was written so far.
\<close>

type_synonym writer = "buf \<Rightarrow> failure option \<times> buf"

definition andthen :: "writer \<Rightarrow> writer \<Rightarrow> writer" where
  "andthen f g b = (case f b of (None, b') \<Rightarrow> g b' | (Some e, b') \<Rightarrow> (Some e, b'))"

definition pass :: "buf \<Rightarrow> failure option \<times> buf" where
  "pass b = (None, b)"

definition abandon :: "failure \<Rightarrow> writer" where
  "abandon e b = (Some e, b)"

lemma andthen_simps [simp]:
  "f b = (None, b') \<Longrightarrow> andthen f g b = g b'"
  "f b = (Some e, b') \<Longrightarrow> andthen f g b = (Some e, b')"
  by (simp_all add: andthen_def)

lemma andthen_cong [fundef_cong]:
  "f b = f' b \<Longrightarrow> (\<And>b'. f' b = (None, b') \<Longrightarrow> g b' = g' b') \<Longrightarrow> b = c \<Longrightarrow>
   andthen f g b = andthen f' g' c"
  by (auto simp: andthen_def split: prod.split option.split)

subsection \<open>Appending within the capacity\<close>

lemma chars_grow_to [simp]: "chars (grow_to n b) = chars b"
  by (simp add: grow_to_def)

lemma chars_buf_append [simp]: "chars (buf_append bs b) = chars b @ bs"
  by (simp add: buf_append_def)

lemma capacity_reserve: "n \<le> capacity (buf_reserve n b)"
  by (simp add: buf_reserve_def grow_to_def)

lemma buf_append_fits:
  "length (chars b) + length bs \<le> capacity b \<Longrightarrow> buf_append bs b = b\<lparr>chars := chars b @ bs\<rparr>"
  by (simp add: buf_append_def grow_to_def)

text \<open>Growing by \<open>resize\<close> and then storing at the new end is appending.\<close>

lemma store_resized:
  assumes "length bs = n"
  shows "buf_store (length (chars b)) bs (buf_resize (length (chars b) + n) b) = buf_append bs b"
  using assms by (simp add: buf_store_def buf_resize_def buf_append_def Let_def)

lemma read_at_append:
  "read_at (b\<lparr>chars := xs @ ys @ zs\<rparr>) (allocation b, length xs) (length ys) = Some ys"
  by (simp add: read_at_def)

end
