(* ===== verification/Serialization.thy ===== *)
theory Serialization
  imports Values Buffer
begin

text \<open>
  The serializer (include/psql/detail/serialization.hpp): each \<open>serialize_impl\<close>, and the conversion
  of a parameter list into the four arrays that libpq takes. At the end, the wire format as a pure
  function (\<open>encode\<close>), which the serializer implements.
\<close>

subsection \<open>Values\<close>

text \<open>
  An integer of \<open>n\<close> octets: the buffer is resized, and the octets are stored from the address of the
  last character minus \<open>n - 1\<close>.
\<close>

definition put_be :: "nat \<Rightarrow> 'a::len word \<Rightarrow> writer" where
  "put_be n w b =
     (let b' = buf_resize (length (chars b) + n) b;
          p = (length (chars b') - 1) - (n - 1)
      in pass (buf_store p (store_be n w) b'))"

definition put_int32 :: "32 word \<Rightarrow> writer" where
  "put_int32 = put_be 4"

definition put_string :: "byte list \<Rightarrow> writer" where
  "put_string s b = pass (buf_append s b)"

text \<open>Division of C++ integers rounds towards zero.\<close>

definition cpp_div :: "int \<Rightarrow> int \<Rightarrow> int" where
  "cpp_div a b = sgn a * sgn b * (\<bar>a\<bar> div \<bar>b\<bar>)"

text \<open>Microseconds from the Unix epoch to the epoch of PostgreSQL, 2000-01-01.\<close>

definition pg_epoch :: int where
  "pg_epoch = 946684800000000"

fun serialize_scalar :: "scalar_val \<Rightarrow> writer" where
  "serialize_scalar (VUInt32 w) = put_be 4 w"
| "serialize_scalar (VBool x) = put_be 1 (if x then 1 else 0 :: byte)"
| "serialize_scalar (VByte w) = put_be 1 w"
| "serialize_scalar (VChar w) = put_be 1 w"
| "serialize_scalar (VInt64 w) = put_be 8 w"
| "serialize_scalar (VInt16 w) = put_be 2 w"
| "serialize_scalar (VInt32 w) = put_be 4 w"
| "serialize_scalar (VFloat w) = put_be 4 w"
| "serialize_scalar (VDouble w) = put_be 8 w"
| "serialize_scalar (VTimePoint w) =
     put_be 8 (word_of_int (cpp_div (sint w) 1000 - pg_epoch) :: 64 word)"
| "serialize_scalar (VStringView s) = put_string s"
| "serialize_scalar (VString s) = put_string s"
| "serialize_scalar (VCharPtr s) = put_string s"

definition put_oid :: "oid res \<Rightarrow> writer" where
  "put_oid r = (case r of Inl e \<Rightarrow> abandon e | Inr i \<Rightarrow> put_int32 i)"

fun serialize :: "oid_map \<Rightarrow> val \<Rightarrow> writer"
  and serialize_elements :: "oid_map \<Rightarrow> val list \<Rightarrow> writer"
  and serialize_members :: "oid_map \<Rightarrow> val list \<Rightarrow> writer" where
  "serialize omp (SVal v) = serialize_scalar v"
| "serialize omp (VecVal t vs) =
     andthen (put_int32 1)
    (andthen (put_int32 0)
    (andthen (put_oid (oid_of omp t))
    (andthen (put_int32 (of_nat (length vs)))
    (andthen (put_int32 0)
             (serialize_elements omp vs)))))"
| "serialize omp (ArrVal n t vs) =
     andthen (put_int32 1)
    (andthen (put_int32 0)
    (andthen (put_oid (oid_of omp t))
    (andthen (put_int32 (of_nat (length vs)))
    (andthen (put_int32 0)
             (serialize_elements omp vs)))))"
| "serialize omp (TupVal vs) =
     andthen (put_int32 (of_nat (length vs))) (serialize_members omp vs)"
| "serialize omp (UdtVal name index vs) =
     andthen (put_int32 (of_nat (length vs))) (serialize_members omp vs)"
| "serialize_elements omp [] = pass"
| "serialize_elements omp (v # vs) =
     andthen (put_int32 (of_nat (size_of v)))
    (andthen (serialize omp v)
             (serialize_elements omp vs))"
| "serialize_members omp [] = pass"
| "serialize_members omp (v # vs) =
     andthen (put_oid (oid_of omp (ty_of v)))
    (andthen (put_int32 (of_nat (size_of v)))
    (andthen (serialize omp v)
             (serialize_members omp vs)))"

subsection \<open>Parameters\<close>

record send_args =
  param_types :: "oid list"
  param_values :: "ptr list"
  param_lengths :: "32 word list"
  param_formats :: "int list"

fun oids_of :: "oid_map \<Rightarrow> ty list \<Rightarrow> oid list res" where
  "oids_of omp [] = Inr []"
| "oids_of omp (t # ts) =
     sbind (oid_of omp t) (\<lambda>i. sbind (oids_of omp ts) (\<lambda>is. Inr (i # is)))"

text \<open>\<open>serialize\<close> of a value returns the address at which it starts.\<close>

definition serialize_value :: "oid_map \<Rightarrow> val \<Rightarrow> buf \<Rightarrow> ptr res \<times> buf" where
  "serialize_value omp v b =
     (case serialize omp v b of (None, b') \<Rightarrow> (Inr (end_ptr b), b') | (Some e, b') \<Rightarrow> (Inl e, b'))"

fun serialize_values :: "oid_map \<Rightarrow> val list \<Rightarrow> buf \<Rightarrow> ptr list res \<times> buf" where
  "serialize_values omp [] b = (Inr [], b)"
| "serialize_values omp (v # vs) b =
     (case serialize_value omp v b of
        (Inl e, b1) \<Rightarrow> (Inl e, b1)
      | (Inr p, b1) \<Rightarrow>
          (case serialize_values omp vs b1 of
             (Inl e, b2) \<Rightarrow> (Inl e, b2)
           | (Inr ps, b2) \<Rightarrow> (Inr (p # ps), b2)))"

definition serialize_params :: "oid_map \<Rightarrow> buf \<Rightarrow> val list \<Rightarrow> send_args res \<times> buf" where
  "serialize_params omp b args =
     (let b1 = buf_reserve (\<Sum>v \<leftarrow> args. size_of v) (buf_clear b)
      in case oids_of omp (map ty_of args) of
           Inl e \<Rightarrow> (Inl e, b1)
         | Inr ts \<Rightarrow>
             (case serialize_values omp args b1 of
                (Inl e, b2) \<Rightarrow> (Inl e, b2)
              | (Inr ps, b2) \<Rightarrow>
                  (Inr \<lparr>param_types = ts, param_values = ps,
                        param_lengths = map (\<lambda>v. of_nat (size_of v)) args,
                        param_formats = map (\<lambda>v. 1) args\<rparr>, b2)))"

subsection \<open>The wire format\<close>

definition rappend :: "byte list res \<Rightarrow> byte list res \<Rightarrow> byte list res" where
  "rappend r s = sbind r (\<lambda>x. sbind s (\<lambda>y. Inr (x @ y)))"

definition int32_octets :: "32 word \<Rightarrow> byte list" where
  "int32_octets w = store_be 4 w"

text \<open>A payload behind its length in octets.\<close>

definition frame :: "byte list \<Rightarrow> byte list" where
  "frame e = int32_octets (of_nat (length e)) @ e"

fun encode_scalar :: "scalar_val \<Rightarrow> byte list" where
  "encode_scalar (VUInt32 w) = store_be 4 w"
| "encode_scalar (VBool x) = [if x then 1 else 0]"
| "encode_scalar (VByte w) = [w]"
| "encode_scalar (VChar w) = [w]"
| "encode_scalar (VInt64 w) = store_be 8 w"
| "encode_scalar (VInt16 w) = store_be 2 w"
| "encode_scalar (VInt32 w) = store_be 4 w"
| "encode_scalar (VFloat w) = store_be 4 w"
| "encode_scalar (VDouble w) = store_be 8 w"
| "encode_scalar (VTimePoint w) = store_be 8 (word_of_int (cpp_div (sint w) 1000 - pg_epoch) :: 64 word)"
| "encode_scalar (VStringView s) = s"
| "encode_scalar (VString s) = s"
| "encode_scalar (VCharPtr s) = s"

definition encode_oid :: "oid res \<Rightarrow> byte list res" where
  "encode_oid r = sbind r (\<lambda>i. Inr (int32_octets i))"

definition encode_array_header :: "oid res \<Rightarrow> nat \<Rightarrow> byte list res" where
  "encode_array_header r n =
     sbind r (\<lambda>i. Inr (int32_octets 1 @ int32_octets 0 @ int32_octets i @
                      int32_octets (of_nat n) @ int32_octets 0))"

fun encode :: "oid_map \<Rightarrow> val \<Rightarrow> byte list res"
  and encode_elements :: "oid_map \<Rightarrow> val list \<Rightarrow> byte list res"
  and encode_members :: "oid_map \<Rightarrow> val list \<Rightarrow> byte list res" where
  "encode omp (SVal v) = Inr (encode_scalar v)"
| "encode omp (VecVal t vs) =
     rappend (encode_array_header (oid_of omp t) (length vs)) (encode_elements omp vs)"
| "encode omp (ArrVal n t vs) =
     rappend (encode_array_header (oid_of omp t) (length vs)) (encode_elements omp vs)"
| "encode omp (TupVal vs) = rappend (Inr (int32_octets (of_nat (length vs)))) (encode_members omp vs)"
| "encode omp (UdtVal name index vs) =
     rappend (Inr (int32_octets (of_nat (length vs)))) (encode_members omp vs)"
| "encode_elements omp [] = Inr []"
| "encode_elements omp (v # vs) =
     rappend (sbind (encode omp v) (\<lambda>e. Inr (frame e))) (encode_elements omp vs)"
| "encode_members omp [] = Inr []"
| "encode_members omp (v # vs) =
     rappend (encode_oid (oid_of omp (ty_of v)))
    (rappend (sbind (encode omp v) (\<lambda>e. Inr (frame e))) (encode_members omp vs))"

subsection \<open>Sizes of the format\<close>

lemma rappend_Inr_iff: "rappend r s = Inr z \<longleftrightarrow> (\<exists>x y. r = Inr x \<and> s = Inr y \<and> z = x @ y)"
  by (auto simp: rappend_def sbind_Inr_iff)

lemma length_int32_octets [simp]: "length (int32_octets w) = 4"
  by (simp add: int32_octets_def)

lemma length_frame [simp]: "length (frame e) = 4 + length e"
  by (simp add: frame_def)

lemma length_encode_scalar [simp]: "length (encode_scalar v) = size_of_scalar v"
  by (cases v) simp_all

lemma length_array_header: "encode_array_header r n = Inr h \<Longrightarrow> length h = 20"
  by (auto simp: encode_array_header_def sbind_Inr_iff)

lemma length_encode_oid: "encode_oid r = Inr h \<Longrightarrow> length h = 4"
  by (auto simp: encode_oid_def sbind_Inr_iff)

lemma length_encode:
  "encode omp v = Inr bs \<Longrightarrow> length bs = size_of v"
  "encode_elements omp vs = Inr bs \<Longrightarrow> length bs = (\<Sum>v \<leftarrow> vs. size_of v + 4)"
  "encode_members omp vs = Inr bs \<Longrightarrow> length bs = (\<Sum>v \<leftarrow> vs. size_of v + 8)"
proof (induction omp v and omp vs and omp vs arbitrary: bs and bs and bs
    rule: encode_encode_elements_encode_members.induct)
  case (2 omp t vs)
  then show ?case
    by (auto simp: rappend_Inr_iff length_array_header size_of_elements simp del: size_of.simps)
next
  case (3 omp n t vs)
  then show ?case
    by (auto simp: rappend_Inr_iff length_array_header size_of_elements simp del: size_of.simps)
next
  case (9 omp v vs)
  then show ?case by (fastforce simp: rappend_Inr_iff sbind_Inr_iff length_encode_oid)
qed (auto simp: rappend_Inr_iff sbind_Inr_iff)

subsection \<open>The serializer implements the format\<close>

text \<open>
  \<open>writes w r\<close>: the writer fails where \<open>r\<close> does, and otherwise appends the octets of \<open>r\<close>; within
  the capacity it changes nothing else, so no pointer into the buffer is invalidated.
\<close>

definition writes :: "writer \<Rightarrow> byte list res \<Rightarrow> bool" where
  "writes w r \<longleftrightarrow>
     (\<forall>b. case r of
            Inl e \<Rightarrow> fst (w b) = Some e
          | Inr bs \<Rightarrow>
              fst (w b) = None \<and> chars (snd (w b)) = chars b @ bs \<and>
              (length (chars b) + length bs \<le> capacity b \<longrightarrow> snd (w b) = b\<lparr>chars := chars b @ bs\<rparr>))"

lemma writes_pass: "writes pass (Inr [])"
  by (simp add: writes_def pass_def)

lemma writes_string: "writes (put_string s) (Inr s)"
  by (simp add: writes_def put_string_def pass_def buf_append_fits)

lemma put_be_append: "0 < n \<Longrightarrow> put_be n w = put_string (store_be n w)"
proof (rule ext)
  fix b
  assume "0 < n"
  have "chars (buf_resize (length (chars b) + n) b) = chars b @ replicate n 0"
    by (simp add: buf_resize_def Let_def)
  with \<open>0 < n\<close> have "length (chars (buf_resize (length (chars b) + n) b)) - 1 - (n - 1) = length (chars b)"
    by simp
  then show "put_be n w b = put_string (store_be n w) b"
    by (simp add: put_be_def Let_def put_string_def pass_def store_resized)
qed

lemma writes_be: "0 < n \<Longrightarrow> writes (put_be n w) (Inr (store_be n w))"
  by (simp add: put_be_append writes_string)

lemma writes_int32: "writes (put_int32 w) (Inr (int32_octets w))"
  by (simp add: put_int32_def int32_octets_def writes_be)

lemma writes_oid: "writes (put_oid r) (encode_oid r)"
  using writes_int32 by (cases r) (auto simp: put_oid_def encode_oid_def writes_def abandon_def)

lemma store_be_1: "store_be (Suc 0) w = [w]" for w :: byte
  by (simp add: store_be_def)

lemma writes_scalar: "writes (serialize_scalar v) (Inr (encode_scalar v))"
  using writes_be [of 1 "_ :: byte"]
  by (cases v) (simp_all add: writes_be writes_string store_be_1)

lemma writes_andthen:
  assumes f: "writes f r" and g: "writes g s"
  shows "writes (andthen f g) (rappend r s)"
  unfolding writes_def
proof
  fix b
  show "case rappend r s of
      Inl e \<Rightarrow> fst (andthen f g b) = Some e
    | Inr bs \<Rightarrow> fst (andthen f g b) = None \<and> chars (snd (andthen f g b)) = chars b @ bs \<and>
        (length (chars b) + length bs \<le> capacity b \<longrightarrow> snd (andthen f g b) = b\<lparr>chars := chars b @ bs\<rparr>)"
  proof (cases r)
    case (Inl e)
    with f have "fst (f b) = Some e" by (auto simp: writes_def)
    with Inl show ?thesis by (cases "f b") (simp add: rappend_def andthen_def)
  next
    case (Inr x)
    with f have fb: "fst (f b) = None" "chars (snd (f b)) = chars b @ x"
      "length (chars b) + length x \<le> capacity b \<Longrightarrow> snd (f b) = b\<lparr>chars := chars b @ x\<rparr>"
      by (auto simp: writes_def)
    have run: "andthen f g b = g (snd (f b))" using fb(1) by (cases "f b") simp
    show ?thesis
    proof (cases s)
      case (Inl e)
      with g run Inr show ?thesis by (simp add: rappend_def writes_def)
    next
      case s: (Inr y)
      with g have gb: "fst (g c) = None" "chars (snd (g c)) = chars c @ y"
        "length (chars c) + length y \<le> capacity c \<Longrightarrow> snd (g c) = c\<lparr>chars := chars c @ y\<rparr>" for c
        by (auto simp: writes_def)
      show ?thesis using fb gb by (simp add: rappend_def Inr s run)
    qed
  qed
qed

lemma rappend_assoc: "rappend (rappend r s) t = rappend r (rappend s t)"
  by (cases r; cases s; cases t) (simp_all add: rappend_def)

lemma encode_array_header_eq:
  "encode_array_header r n =
     rappend (Inr (int32_octets 1)) (rappend (Inr (int32_octets 0)) (rappend (encode_oid r)
       (rappend (Inr (int32_octets (of_nat n))) (Inr (int32_octets 0)))))"
  by (cases r) (simp_all add: encode_array_header_def encode_oid_def rappend_def)

lemma writes_frame:
  assumes "writes (serialize omp v) (encode omp v)"
  shows "writes (andthen (put_int32 (of_nat (size_of v))) (serialize omp v))
    (sbind (encode omp v) (\<lambda>e. Inr (frame e)))"
proof -
  have "sbind (encode omp v) (\<lambda>e. Inr (frame e)) =
      rappend (Inr (int32_octets (of_nat (size_of v)))) (encode omp v)"
    using length_encode(1) [of omp v] by (cases "encode omp v") (simp_all add: rappend_def frame_def)
  then show ?thesis using assms by (simp add: writes_andthen writes_int32)
qed

lemma andthen_assoc: "andthen (andthen f g) h = andthen f (andthen g h)"
  by (auto simp: andthen_def fun_eq_iff split: prod.split option.split)

lemma writes_serialize:
  "writes (serialize omp v) (encode omp v)"
  "writes (serialize_elements omp vs) (encode_elements omp vs)"
  "writes (serialize_members omp vs) (encode_members omp vs)"
proof (induction omp v and omp vs and omp vs rule: encode_encode_elements_encode_members.induct)
  case (7 omp v vs)
  then show ?case by (simp add: andthen_assoc [symmetric] writes_andthen writes_frame)
next
  case (9 omp v vs)
  then show ?case
    by (simp add: andthen_assoc [of "put_int32 _", symmetric] writes_andthen writes_frame writes_oid)
qed (simp_all add: writes_scalar writes_pass encode_array_header_eq rappend_assoc
      writes_andthen writes_int32 writes_oid)

lemma writes_InrD:
  assumes "writes w (Inr bs)"
  shows "\<exists>b'. w b = (None, b') \<and> chars b' = chars b @ bs \<and>
    (length (chars b) + length bs \<le> capacity b \<longrightarrow> b' = b\<lparr>chars := chars b @ bs\<rparr>)"
  using assms by (cases "w b") (auto simp: writes_def dest: spec [of _ b])

lemma serialize_Inl: "encode omp v = Inl e \<Longrightarrow> fst (serialize omp v b) = Some e"
  using writes_serialize(1) [of omp v] by (simp add: writes_def)

lemma serialize_chars:
  "encode omp v = Inr bs \<Longrightarrow> \<exists>b'. serialize omp v b = (None, b') \<and> chars b' = chars b @ bs"
  using writes_serialize(1) [of omp v] writes_InrD [of "serialize omp v" bs b] by auto

lemma serialize_fits:
  assumes "encode omp v = Inr bs" and "length (chars b) + size_of v \<le> capacity b"
  shows "serialize omp v b = (None, b\<lparr>chars := chars b @ bs\<rparr>)"
  using writes_serialize(1) [of omp v] writes_InrD [of "serialize omp v" bs b]
    assms length_encode(1) [OF assms(1)] by auto

subsection \<open>When the format exists\<close>

lemma encode_ok:
  "wf_val v \<Longrightarrow> encodable (ty_of v) \<Longrightarrow> udts (ty_of v) \<subseteq> dom omp \<Longrightarrow> \<exists>bs. encode omp v = Inr bs"
  "(\<forall>v \<in> set vs. wf_val v \<and> encodable (ty_of v) \<and> udts (ty_of v) \<subseteq> dom omp) \<Longrightarrow>
     \<exists>bs. encode_elements omp vs = Inr bs"
  "(\<forall>v \<in> set vs. wf_val v \<and> encodable (ty_of v) \<and> udts (ty_of v) \<subseteq> dom omp) \<Longrightarrow>
     \<exists>bs. encode_members omp vs = Inr bs"
proof (induction omp v and omp vs and omp vs rule: encode_encode_elements_encode_members.induct)
  case (2 omp t vs)
  then show ?case
    using oid_of_ok [of t omp] by (auto simp: rappend_Inr_iff encode_array_header_def sbind_Inr_iff)
next
  case (3 omp n t vs)
  then show ?case
    using oid_of_ok [of t omp] by (auto simp: rappend_Inr_iff encode_array_header_def sbind_Inr_iff)
next
  case (9 omp v vs)
  then show ?case
    using oid_of_ok [of "ty_of v" omp]
    by (auto simp: rappend_Inr_iff encode_oid_def sbind_Inr_iff)
qed (auto simp: rappend_Inr_iff sbind_Inr_iff UN_subset_iff)

definition sendable :: "oid_map \<Rightarrow> val \<Rightarrow> bool" where
  "sendable omp v \<longleftrightarrow> wf_val v \<and> encodable (ty_of v) \<and> udts (ty_of v) \<subseteq> dom omp"

lemma sendable_encode: "sendable omp v \<Longrightarrow> \<exists>bs. encode omp v = Inr bs"
  by (simp add: sendable_def encode_ok)

lemma sendable_encodings:
  "\<forall>v \<in> set args. sendable omp v \<Longrightarrow> \<exists>es. list_all2 (\<lambda>v e. encode omp v = Inr e) args es"
proof (induction args)
  case (Cons v vs)
  then obtain e es where "encode omp v = Inr e" "list_all2 (\<lambda>v e. encode omp v = Inr e) vs es"
    using sendable_encode by fastforce
  then have "list_all2 (\<lambda>v e. encode omp v = Inr e) (v # vs) (e # es)" by simp
  then show ?case by blast
qed (auto intro: exI [of _ "[]"])

lemma sendable_oids: "\<forall>v \<in> set args. sendable omp v \<Longrightarrow> \<exists>is. oids_of omp (map ty_of args) = Inr is"
  using oid_of_ok by (induction args) (fastforce simp: sendable_def sbind_Inr_iff)+

lemma oids_of_fails:
  "\<forall>t \<in> set ts. encodable t \<Longrightarrow> oids_of omp ts = Inl e \<Longrightarrow> e = Throw OutOfRange"
  by (induction ts) (auto simp: sbind_Inl_iff dest: oid_of_fails)

lemma oids_of_unregistered:
  "t \<in> set ts \<Longrightarrow> oid_of omp t = Inl e \<Longrightarrow> \<exists>e'. oids_of omp ts = Inl e'"
proof (induction ts)
  case (Cons u us)
  then show ?case by (cases "oid_of omp u") auto
qed simp

lemma length_encodings:
  "list_all2 (\<lambda>v e. encode omp v = Inr e) args es \<Longrightarrow> (\<Sum>v \<leftarrow> args. size_of v) = length (concat es)"
  by (induction rule: list_all2_induct) (auto dest: length_encode(1))

lemma serialize_values_fits:
  assumes "list_all2 (\<lambda>v e. encode omp v = Inr e) args es"
    and "length (chars b) + length (concat es) \<le> capacity b"
  shows "serialize_values omp args b =
    (Inr (map (\<lambda>i. (allocation b, length (chars b) + length (concat (take i es)))) [0..<length args]),
     b\<lparr>chars := chars b @ concat es\<rparr>)"
  using assms
proof (induction arbitrary: b rule: list_all2_induct)
  case (Cons v vs e es)
  have "serialize omp v b = (None, b\<lparr>chars := chars b @ e\<rparr>)"
    using Cons.hyps(1) Cons.prems length_encode(1) [OF Cons.hyps(1)] by (intro serialize_fits) auto
  moreover have "serialize_values omp vs (b\<lparr>chars := chars b @ e\<rparr>) =
      (Inr (map (\<lambda>i. (allocation b, length (chars b) + length e + length (concat (take i es)))) [0..<length vs]),
       b\<lparr>chars := (chars b @ e) @ concat es\<rparr>)"
    using Cons.IH [of "b\<lparr>chars := chars b @ e\<rparr>"] Cons.prems by simp
  ultimately show ?case
    by (simp add: serialize_value_def end_ptr_def map_upt_Suc add.assoc del: upt_Suc)
qed simp

lemma read_at_concat:
  assumes "i < length es"
  shows "read_at (b\<lparr>chars := concat es\<rparr>) (allocation b, length (concat (take i es))) (length (es ! i)) = Some (es ! i)"
proof -
  have "concat es = concat (take i es) @ es ! i @ concat (drop (Suc i) es)"
    using arg_cong [OF id_take_nth_drop [OF assms], of concat] by simp
  then show ?thesis
    using read_at_append [of "concat (take i es)" "es ! i" "concat (drop (Suc i) es)" b] by simp
qed

text \<open>
  The conversion of a parameter list that can be sent: the reservation makes room for everything, so
  the allocation does not change while the values are written.
\<close>

lemma serialize_params_run:
  assumes "\<forall>v \<in> set args. sendable omp v"
  shows "\<exists>es ts b'. list_all2 (\<lambda>v e. encode omp v = Inr e) args es \<and>
    oids_of omp (map ty_of args) = Inr ts \<and> chars b' = concat es \<and>
    serialize_params omp b args =
      (Inr \<lparr>param_types = ts,
            param_values = map (\<lambda>i. (allocation b', length (concat (take i es)))) [0..<length args],
            param_lengths = map (\<lambda>v. of_nat (size_of v)) args,
            param_formats = map (\<lambda>v. 1) args\<rparr>, b')"
proof -
  obtain es where es: "list_all2 (\<lambda>v e. encode omp v = Inr e) args es"
    using sendable_encodings [OF assms] by blast
  obtain ts where ts: "oids_of omp (map ty_of args) = Inr ts"
    using sendable_oids [OF assms] by blast
  let ?b1 = "buf_reserve (length (concat es)) (buf_clear b)"
  let ?b2 = "?b1\<lparr>chars := concat es\<rparr>"
  have "chars ?b1 = []" by (simp add: buf_reserve_def buf_clear_def)
  with serialize_values_fits [OF es, of ?b1] capacity_reserve [of "length (concat es)"]
  have "serialize_values omp args ?b1 =
      (Inr (map (\<lambda>i. (allocation ?b2, length (concat (take i es)))) [0..<length args]), ?b2)" by simp
  with ts length_encodings [OF es] es show ?thesis
    by (intro exI [of _ es] exI [of _ ts] exI [of _ ?b2]) (simp add: serialize_params_def)
qed

lemma encodings_nth:
  assumes "list_all2 (\<lambda>v e. encode omp v = Inr e) args es" and "i < length args"
  shows "encode omp (args ! i) = Inr (es ! i)" "length (es ! i) = size_of (args ! i)" "i < length es"
  using list_all2_nthD [OF assms] list_all2_lengthD [OF assms(1)] assms(2) by (auto dest: length_encode(1))

lemma read_at_value:
  "chars b = concat es \<Longrightarrow> i < length es \<Longrightarrow>
   read_at b (allocation b, length (concat (take i es))) (length (es ! i)) = Some (es ! i)"
  using read_at_concat [of i es b] by (simp add: read_at_def split: if_splits)

subsection \<open>Properties\<close>

text \<open>
  C8: the serializer implements the wire format: it fails exactly where the format does not exist,
  with the same failure, and otherwise appends exactly \<open>size_of\<close> octets, those of the format.
\<close>

theorem serialize_refines_encode:
  "case encode omp v of
     Inl e \<Rightarrow> fst (serialize omp v b) = Some e
   | Inr bs \<Rightarrow> length bs = size_of v \<and> fst (serialize omp v b) = None \<and>
       chars (snd (serialize omp v b)) = chars b @ bs"
  using writes_serialize(1) [of omp v] length_encode(1) [of omp v]
  by (auto simp: writes_def split: sum.splits)

text \<open>
  C3: the four arrays made from the parameters are right, and no pointer dangles: the reservation
  makes room for all parameters, so that the values written later never move the earlier ones. Each
  pointer still designates, in the final buffer, the encoding of its parameter; the types are the
  object identifiers, the lengths those of the encodings and every format is binary.
\<close>

theorem serialize_params_correct:
  assumes "\<forall>v \<in> set args. sendable omp v"
  shows "\<exists>a b' es. serialize_params omp b args = (Inr a, b') \<and>
    list_all2 (\<lambda>v e. encode omp v = Inr e) args es \<and>
    oids_of omp (map ty_of args) = Inr (param_types a) \<and>
    length (param_values a) = length args \<and>
    (\<forall>i < length args.
       read_at b' (param_values a ! i) (size_of (args ! i)) = Some (es ! i) \<and>
       param_lengths a ! i = of_nat (length (es ! i)) \<and> param_formats a ! i = 1)"
proof -
  from serialize_params_run [OF assms, of b] obtain es ts b' where run:
    "list_all2 (\<lambda>v e. encode omp v = Inr e) args es" "oids_of omp (map ty_of args) = Inr ts"
    "chars b' = concat es"
    "serialize_params omp b args =
      (Inr \<lparr>param_types = ts,
            param_values = map (\<lambda>i. (allocation b', length (concat (take i es)))) [0..<length args],
            param_lengths = map (\<lambda>v. of_nat (size_of v)) args,
            param_formats = map (\<lambda>v. 1) args\<rparr>, b')" by blast
  have "read_at b' (allocation b', length (concat (take i es))) (size_of (args ! i)) = Some (es ! i)"
    if "i < length args" for i
    using encodings_nth [OF run(1) that] read_at_value [OF run(3), of i] by simp
  with run encodings_nth(2) [OF run(1)] show ?thesis by (auto intro!: exI [of _ es])
qed

theorem serialize_params_correct_witness:
  "\<exists>a b'. serialize_params Map.empty \<lparr>chars = [7], capacity = 15, allocation = 0\<rparr>
       [SVal (VInt32 32), SVal (VString [74, 69])] = (Inr a, b') \<and>
     read_at b' (param_values a ! 0) 4 = Some [0, 0, 0, 32] \<and> read_at b' (param_values a ! 1) 2 = Some [74, 69]"
proof -
  let ?args = "[SVal (VInt32 32), SVal (VString [74, 69])]"
  have "\<forall>v \<in> set ?args. sendable Map.empty v" by (simp add: sendable_def)
  from serialize_params_correct [OF this, of "\<lparr>chars = [7], capacity = 15, allocation = 0\<rparr>"]
  obtain a b' es where run: "serialize_params Map.empty \<lparr>chars = [7], capacity = 15, allocation = 0\<rparr> ?args = (Inr a, b')"
    "list_all2 (\<lambda>v e. encode Map.empty v = Inr e) ?args es"
    "\<forall>i < 2. read_at b' (param_values a ! i) (size_of (?args ! i)) = Some (es ! i)" by auto
  from run(2) have "es = [[0, 0, 0, 32], [74, 69]]"
    by (auto simp: list_all2_Cons1 store_be_def be_enc_unroll)
  with run(1) run(3) [rule_format, of 0] run(3) [rule_format, of 1] show ?thesis
    by (auto simp: numeral_2_eq_2)
qed

text \<open>
  A parameter whose user-defined type has no registered object identifiers makes the conversion
  throw \<open>std::out_of_range\<close>, whatever the other parameters are.
\<close>

theorem serialize_params_unregistered:
  assumes "UdtVal name index vs \<in> set args" and "omp index = None"
    and "\<forall>v \<in> set args. encodable (ty_of v)"
  shows "fst (serialize_params omp b args) = Inl (Throw OutOfRange)"
proof -
  have "oid_of omp (ty_of (UdtVal name index vs)) = Inl (Throw OutOfRange)"
    using assms(2) by (simp add: oid_map_at_def)
  then obtain e where e: "oids_of omp (map ty_of args) = Inl e"
    using oids_of_unregistered [of "ty_of (UdtVal name index vs)"] assms(1) by (metis imageI set_map)
  with assms(3) have "e = Throw OutOfRange" using oids_of_fails [of "map ty_of args"] by simp
  with e show ?thesis by (simp add: serialize_params_def Let_def)
qed

theorem serialize_params_unregistered_witness:
  "fst (serialize_params Map.empty \<lparr>chars = [], capacity = 15, allocation = 0\<rparr>
      [SVal (VInt32 1), UdtVal ''employee'' 7 [SVal (VString [53])]]) = Inl (Throw OutOfRange)"
  by (rule serialize_params_unregistered [of "''employee''" 7 "[SVal (VString [53])]"]) auto

end
