(* ===== verification/Deserialization.thy ===== *)
theory Deserialization
  imports Serialization
begin

text \<open>
  The deserializer (include/psql/detail/deserialization.hpp). A \<open>std::span<const char>\<close> is the memory
  from its first character to the end of the enclosing object, with the length of the span:
  \<open>endian_load\<close> does not look at the length, and reading past the end of a span is undefined only
  once it leaves the object. \<open>subspan\<close> outside the span is undefined.
\<close>

type_synonym span = "byte list \<times> nat"

definition dynamic_extent :: nat where
  "dynamic_extent = 2 ^ 64 - 1"

definition subspan_from :: "nat \<Rightarrow> span \<Rightarrow> span res" where
  "subspan_from offset sp =
     (if offset \<le> snd sp then Inr (drop offset (fst sp), snd sp - offset)
      else Inl (Undefined BadSubspan))"

definition subspan :: "nat \<Rightarrow> nat \<Rightarrow> span \<Rightarrow> span res" where
  "subspan offset count sp =
     (if count = dynamic_extent then subspan_from offset sp
      else if offset \<le> snd sp \<and> count \<le> snd sp - offset then Inr (drop offset (fst sp), count)
      else Inl (Undefined BadSubspan))"

definition span_chars :: "span \<Rightarrow> byte list" where
  "span_chars sp = take (snd sp) (fst sp)"

definition load_int :: "nat \<Rightarrow> span \<Rightarrow> 'a::len word res" where
  "load_int n sp =
     (if n \<le> length (fst sp) then Inr (load_be (take n (fst sp)))
      else Inl (Undefined ReadOutOfBounds))"

text \<open>Conversion of an \<open>int\<close> to \<open>size_t\<close>, and addition of \<open>int\<close>s.\<close>

definition to_size_t :: "int \<Rightarrow> nat" where
  "to_size_t i = nat (i mod 2 ^ 64)"

definition add_int :: "int \<Rightarrow> 32 word \<Rightarrow> int res" where
  "add_int k w =
     (if k + sint w < 2 ^ 31 then Inr (k + sint w) else Inl (Undefined SignedOverflow))"

text \<open>
  A time point: the microseconds of the server are moved to the Unix epoch in 64-bit signed
  arithmetic, then converted to the nanoseconds of \<open>system_clock\<close>.
\<close>

definition time_point_of :: "64 word \<Rightarrow> scalar_val res" where
  "time_point_of w =
     (let us = sint w + pg_epoch; ns = us * 1000
      in if us \<ge> 2 ^ 63 then Inl (Undefined SignedOverflow)
         else if ns < - (2 ^ 63) \<or> ns \<ge> 2 ^ 63 then Inl (Undefined SignedOverflow)
         else Inr (VTimePoint (word_of_int ns)))"

fun deserialize_scalar :: "scalar \<Rightarrow> span \<Rightarrow> scalar_val res" where
  "deserialize_scalar UInt32 sp = sbind (load_int 4 sp) (\<lambda>w. Inr (VUInt32 w))"
| "deserialize_scalar Bool sp =
     sbind (load_int 1 sp) (\<lambda>w :: byte.
       if w = 0 then Inr (VBool False) else if w = 1 then Inr (VBool True)
       else Inl (Undefined InvalidBool))"
| "deserialize_scalar Byte sp = sbind (load_int 1 sp) (\<lambda>w. Inr (VByte w))"
| "deserialize_scalar Char1 sp = sbind (load_int 1 sp) (\<lambda>w. Inr (VChar w))"
| "deserialize_scalar Int64 sp = sbind (load_int 8 sp) (\<lambda>w. Inr (VInt64 w))"
| "deserialize_scalar Int16 sp = sbind (load_int 2 sp) (\<lambda>w. Inr (VInt16 w))"
| "deserialize_scalar Int32 sp = sbind (load_int 4 sp) (\<lambda>w. Inr (VInt32 w))"
| "deserialize_scalar Float sp = sbind (load_int 4 sp) (\<lambda>w. Inr (VFloat w))"
| "deserialize_scalar Double sp = sbind (load_int 8 sp) (\<lambda>w. Inr (VDouble w))"
| "deserialize_scalar TimePoint sp = sbind (load_int 8 sp) time_point_of"
| "deserialize_scalar StringView sp = Inr (VStringView (span_chars sp))"
| "deserialize_scalar String sp = Inr (VString (span_chars sp))"
| "deserialize_scalar CharPtr sp = Inl IllFormed"

definition deserialize_and_verify_oid :: "span \<Rightarrow> oid \<Rightarrow> unit res" where
  "deserialize_and_verify_oid sp expected =
     sbind (load_int 4 sp) (\<lambda>found.
       if expected \<noteq> 0 \<and> expected \<noteq> found then Inl (Throw (OidMismatch found expected)) else Inr ())"

definition verify_member_counts :: "span \<Rightarrow> 32 word \<Rightarrow> unit res" where
  "verify_member_counts sp expected =
     sbind (load_int 4 sp) (\<lambda>count.
       if expected \<noteq> count then Inl (Throw (MemberCountMismatch count expected)) else Inr ())"

text \<open>The loop over the elements of an array, for any way to read an element.\<close>

fun deserialize_elements :: "(span \<Rightarrow> 'v res) \<Rightarrow> nat \<Rightarrow> span \<Rightarrow> 'v list res" where
  "deserialize_elements f 0 sp = Inr []"
| "deserialize_elements f (Suc n) sp =
     sbind (load_int 4 sp) (\<lambda>value_size.
     sbind (subspan 4 (to_size_t (sint value_size)) sp) (\<lambda>element.
     sbind (f element) (\<lambda>v.
     sbind (add_int 4 value_size) (\<lambda>k.
     sbind (subspan_from (to_size_t k) sp) (\<lambda>rest.
     sbind (deserialize_elements f n rest) (\<lambda>vs.
     Inr (v # vs)))))))"

text \<open>\<open>array.resize(size)\<close>: a negative size becomes a \<open>size_t\<close> beyond every capacity.\<close>

definition resize_count :: "32 word \<Rightarrow> nat res" where
  "resize_count w = (if sint w < 0 then Inl (Throw LengthError) else Inr (nat (sint w)))"

fun deserialize :: "ty \<Rightarrow> span \<Rightarrow> val res"
  and deserialize_members :: "ty list \<Rightarrow> span \<Rightarrow> val list res" where
  "deserialize (Scalar s) sp = sbind (deserialize_scalar s sp) (\<lambda>v. Inr (SVal v))"
| "deserialize (Vector t) sp =
     sbind (subspan_from 0 sp) (\<lambda>s0.
     sbind (load_int 4 s0) (\<lambda>dimensions_count :: 32 word.
     if dimensions_count \<noteq> 1 then Inl (Throw MultidimensionalArray) else
     sbind (subspan_from 8 sp) (\<lambda>s8.
     sbind (static_oid t) (\<lambda>expected.
     sbind (deserialize_and_verify_oid s8 expected) (\<lambda>u.
     sbind (subspan_from 12 sp) (\<lambda>s12.
     sbind (load_int 4 s12) (\<lambda>size.
     sbind (subspan_from 20 sp) (\<lambda>s20.
     sbind (resize_count size) (\<lambda>n.
     sbind (deserialize_elements (\<lambda>e. deserialize t e) n s20) (\<lambda>vs.
     Inr (VecVal t vs)))))))))))"
| "deserialize (StdArray n t) sp = Inl IllFormed"
| "deserialize (Tuple ts) sp =
     sbind (verify_member_counts sp (of_nat (length ts))) (\<lambda>u.
     sbind (subspan_from 4 sp) (\<lambda>s4.
     sbind (deserialize_members ts s4) (\<lambda>vs.
     Inr (TupVal vs))))"
| "deserialize (UserDefined name index ts) sp =
     sbind (verify_member_counts sp (of_nat (length ts))) (\<lambda>u.
     sbind (subspan_from 4 sp) (\<lambda>s4.
     sbind (deserialize_members ts s4) (\<lambda>vs.
     Inr (UdtVal name index vs))))"
| "deserialize_members [] sp = Inr []"
| "deserialize_members (t # ts) sp =
     sbind (static_oid t) (\<lambda>expected.
     sbind (deserialize_and_verify_oid sp expected) (\<lambda>u.
     sbind (subspan_from 4 sp) (\<lambda>s4.
     sbind (load_int 4 s4) (\<lambda>member_size.
     sbind (subspan 8 (to_size_t (sint member_size)) sp) (\<lambda>member.
     sbind (deserialize t member) (\<lambda>v.
     sbind (add_int 8 member_size) (\<lambda>k.
     sbind (subspan_from (to_size_t k) sp) (\<lambda>rest.
     sbind (deserialize_members ts rest) (\<lambda>vs.
     Inr (v # vs))))))))))"

subsection \<open>Reading what was framed\<close>

lemma load_int_append: "length xs = n \<Longrightarrow> load_int n (xs @ ys, k) = Inr (load_be xs)"
  by (simp add: load_int_def)

lemma load_int32_octets [simp]: "load_int 4 (int32_octets w @ ys, k) = Inr w"
  by (simp add: load_int_append int32_octets_def)

lemma load_int32_octets_end [simp]: "load_int 4 (int32_octets w, k) = Inr w"
  using load_int32_octets [of w "[]"] by simp

lemma subspan_from_append:
  "length xs = n \<Longrightarrow> n \<le> k \<Longrightarrow> subspan_from n (xs @ ys, k) = Inr (ys, k - n)"
  by (simp add: subspan_from_def)

lemma subspan_append:
  assumes "length xs = n" and "m < 2 ^ 64 - 1" and "n + m \<le> k"
  shows "subspan n m (xs @ ys, k) = Inr (ys, m)"
  using assms by (simp add: subspan_def dynamic_extent_def)

lemma sint_of_nat32: "n < 2 ^ 31 \<Longrightarrow> sint (of_nat n :: 32 word) = int n"
  by (simp add: signed_of_nat signed_take_bit_int_eq_self)

lemma to_size_t_of_nat: "n < 2 ^ 64 \<Longrightarrow> to_size_t (int n) = n"
  by (simp add: to_size_t_def nat_mod_as_int [symmetric])

lemma add_int_of_nat: "int n + k < 2 ^ 31 \<Longrightarrow> n < 2 ^ 31 \<Longrightarrow> add_int k (of_nat n) = Inr (k + int n)"
  by (simp add: add_int_def sint_of_nat32)

lemma span_chars_append [simp]: "span_chars (xs @ ys, length xs) = xs"
  by (simp add: span_chars_def)

text \<open>
  The contract between the two directions, per type of element: what one writes the other reads
  back, wherever it stands in memory; \<open>norm\<close> is what the format keeps of a value.
\<close>

locale element_codec =
  fixes enc :: "'v \<Rightarrow> byte list" and dec :: "span \<Rightarrow> 'w res"
    and ok :: "'v \<Rightarrow> bool" and norm :: "'v \<Rightarrow> 'w"
  assumes dec_enc: "ok v \<Longrightarrow> length (enc v) < 2 ^ 31 \<Longrightarrow>
    dec (enc v @ tail, length (enc v)) = Inr (norm v)"
begin

text \<open>A frame read behind a header of \<open>h\<close> octets.\<close>

lemma read_frame:
  assumes "ok v" and "h + length (enc v) < 2 ^ 31" and "length hdr = h" and "h + length (enc v) \<le> k"
  shows "sbind (subspan h (to_size_t (sint (of_nat (length (enc v)) :: 32 word))) (hdr @ enc v @ tail, k))
           (\<lambda>e. sbind (dec e) (\<lambda>x.
            sbind (add_int (int h) (of_nat (length (enc v)))) (\<lambda>n.
            sbind (subspan_from (to_size_t n) (hdr @ enc v @ tail, k)) (\<lambda>rest. f x rest)))) =
         f (norm v) (tail, k - (h + length (enc v)))"
proof -
  have "subspan_from (h + length (enc v)) ((hdr @ enc v) @ tail, k) = Inr (tail, k - (h + length (enc v)))"
    using assms by (intro subspan_from_append) auto
  moreover have "to_size_t (int h + int (length (enc v))) = h + length (enc v)"
    using to_size_t_of_nat [of "h + length (enc v)"] assms(2) by simp
  moreover have "subspan h (length (enc v)) (hdr @ enc v @ tail, k) = Inr (enc v @ tail, length (enc v))"
    using assms by (intro subspan_append) auto
  ultimately show ?thesis
    using assms by (simp add: sint_of_nat32 to_size_t_of_nat add_int_of_nat dec_enc)
qed

lemma elements_roundtrip:
  assumes "\<forall>v \<in> set vs. ok v" and "length (concat (map (\<lambda>v. frame (enc v)) vs)) < 2 ^ 31"
    and "length (concat (map (\<lambda>v. frame (enc v)) vs)) \<le> k"
  shows "deserialize_elements dec (length vs) (concat (map (\<lambda>v. frame (enc v)) vs) @ tail, k) =
    Inr (map norm vs)"
  using assms
proof (induction vs arbitrary: k)
  case (Cons v vs)
  let ?rest = "concat (map (\<lambda>v. frame (enc v)) vs) @ tail"
  let ?h = "int32_octets (of_nat (length (enc v)))"
  have "deserialize_elements dec (length vs) (?rest, k - (4 + length (enc v))) = Inr (map norm vs)"
    using Cons by simp
  with read_frame [of v 4 ?h k ?rest "\<lambda>x r. sbind (deserialize_elements dec (length vs) r) (\<lambda>xs. Inr (x # xs))"]
  show ?case using Cons.prems by (simp add: frame_def)
qed simp

end

end
