(* ===== verification/RoundTrip.thy ===== *)
theory RoundTrip
  imports Deserialization
begin

text \<open>
  Serialized values are read back: for every type that can be received, \<open>deserialize\<close> inverts
  \<open>serialize\<close>, up to the resolution of time points. Then the inputs on which the deserializer fails.
\<close>

subsection \<open>What the format keeps of a value\<close>

text \<open>A time point loses its nanoseconds below the microsecond, towards the Unix epoch.\<close>

fun norm_scalar :: "scalar_val \<Rightarrow> scalar_val" where
  "norm_scalar (VTimePoint w) = VTimePoint (word_of_int (cpp_div (sint w) 1000 * 1000))"
| "norm_scalar v = v"

fun norm :: "val \<Rightarrow> val" where
  "norm (SVal v) = SVal (norm_scalar v)"
| "norm (VecVal t vs) = VecVal t (map norm vs)"
| "norm (ArrVal n t vs) = ArrVal n t (map norm vs)"
| "norm (TupVal vs) = TupVal (map norm vs)"
| "norm (UdtVal name index vs) = UdtVal name index (map norm vs)"

definition octets :: "oid_map \<Rightarrow> val \<Rightarrow> byte list" where
  "octets omp v = (case encode omp v of Inr bs \<Rightarrow> bs | Inl e \<Rightarrow> [])"

lemma encode_octets: "encode omp v = Inr bs \<Longrightarrow> octets omp v = bs"
  by (simp add: octets_def)

subsection \<open>Scalars\<close>

lemma cpp_div_bound: "0 < b \<Longrightarrow> \<bar>cpp_div a b * b\<bar> \<le> \<bar>a\<bar>"
proof -
  assume "0 < b"
  then have "0 \<le> \<bar>a\<bar> div b" by (simp add: pos_imp_zdiv_nonneg_iff)
  then have "\<bar>cpp_div a b * b\<bar> = (\<bar>a\<bar> div b * b) * \<bar>sgn a\<bar>"
    using \<open>0 < b\<close> by (simp add: cpp_div_def abs_mult)
  also have "\<dots> \<le> \<bar>a\<bar>" using \<open>0 < b\<close> by (cases "a = 0") (simp_all add: div_mult_mod_eq [symmetric] minus_mod_eq_div_mult [symmetric])
  finally show ?thesis .
qed

lemma sint_bounds64: "- (2 ^ 63) \<le> sint w \<and> sint w < 2 ^ 63" for w :: "64 word"
  using sint_greater_eq [of w] sint_less [of w] by simp

lemma sint_word_of_int64: "- (2 ^ 63) \<le> i \<Longrightarrow> i < 2 ^ 63 \<Longrightarrow> sint (word_of_int i :: 64 word) = i"
  by (simp add: signed_of_int signed_take_bit_int_eq_self)

lemma time_point_roundtrip:
  "time_point_of (word_of_int (cpp_div (sint w) 1000 - pg_epoch)) = Inr (norm_scalar (VTimePoint w))"
proof -
  let ?us = "cpp_div (sint w) 1000"
  have b: "\<bar>?us * 1000\<bar> \<le> \<bar>sint w\<bar>" by (rule cpp_div_bound) simp
  with sint_bounds64 [of w] have "- (2 ^ 63) \<le> ?us * 1000" "?us * 1000 \<le> 2 ^ 63" by linarith+
  moreover have "?us * 1000 < 2 ^ 63"
  proof (cases "sint w \<ge> 0")
    case True
    with b sint_bounds64 [of w] show ?thesis by linarith
  next
    case False
    then have "?us * 1000 \<le> 0" by (simp add: cpp_div_def)
    then show ?thesis by simp
  qed
  ultimately show ?thesis
    by (simp add: time_point_of_def Let_def pg_epoch_def sint_word_of_int64 del: of_int_diff of_int_mult)
qed

lemma load_int_byte: "load_int 1 (b # tail, k) = Inr b" for b :: byte
  by (simp add: load_int_def load_be_def)

lemma scalar_roundtrip:
  assumes "scalar_of v \<noteq> CharPtr"
  shows "deserialize_scalar (scalar_of v) (encode_scalar v @ tail, length (encode_scalar v)) = Inr (norm_scalar v)"
  using assms
  by (cases v) (simp_all add: load_int_append load_int_byte time_point_roundtrip
      del: of_int_diff of_int_mult One_nat_def norm_scalar.simps(1))

subsection \<open>Containers\<close>

lemma encode_elements_octets:
  "encode_elements omp vs = Inr bs \<Longrightarrow>
   bs = concat (map (\<lambda>v. frame (octets omp v)) vs) \<and> (\<forall>v \<in> set vs. encode omp v = Inr (octets omp v))"
  by (induction vs arbitrary: bs) (auto simp: rappend_Inr_iff sbind_Inr_iff encode_octets)

lemma encode_members_octets:
  "encode_members omp vs = Inr bs \<Longrightarrow> v \<in> set vs \<Longrightarrow> encode omp v = Inr (octets omp v)"
  by (induction vs arbitrary: bs) (auto simp: rappend_Inr_iff sbind_Inr_iff encode_octets)

definition reads_back :: "oid_map \<Rightarrow> val \<Rightarrow> bool" where
  "reads_back omp v \<longleftrightarrow>
     (\<forall>tail. length (octets omp v) < 2 ^ 31 \<longrightarrow>
        deserialize (ty_of v) (octets omp v @ tail, length (octets omp v)) = Inr (norm v))"

lemma codec_of_reads_back:
  "element_codec (octets omp) (deserialize t) (\<lambda>v. ty_of v = t \<and> reads_back omp v) norm"
  by unfold_locales (auto simp: reads_back_def)

lemma members_roundtrip:
  assumes "\<forall>v \<in> set vs. reads_back omp v" and "encode_members omp vs = Inr bs"
    and "length bs < 2 ^ 31" and "length bs \<le> k"
  shows "deserialize_members (map ty_of vs) (bs @ tail, k) = Inr (map norm vs)"
  using assms
proof (induction vs arbitrary: bs k)
  case (Cons v vs)
  from Cons.prems(2) obtain i e ms where
    i: "oid_of omp (ty_of v) = Inr i" and e: "encode omp v = Inr e" and
    ms: "encode_members omp vs = Inr ms" and bs: "bs = int32_octets i @ frame e @ ms"
    by (auto simp: rappend_Inr_iff sbind_Inr_iff encode_oid_def)
  let ?hdr = "int32_octets i @ int32_octets (of_nat (length e))"
  obtain x where x: "static_oid (ty_of v) = Inr x" "x = 0 \<or> x = i"
    using static_oid_accepts [OF i] by blast
  have oct: "octets omp v = e" using e by (rule encode_octets)
  have IH: "deserialize_members (map ty_of vs) (ms @ tail, k - (8 + length e)) = Inr (map norm vs)"
    using Cons.IH [OF _ ms] Cons.prems bs by simp
  have mem: "bs @ tail = ?hdr @ octets omp v @ (ms @ tail)" by (simp add: bs frame_def oct)
  have verify: "deserialize_and_verify_oid (?hdr @ octets omp v @ (ms @ tail), k) x = Inr ()"
    using x(2) by (auto simp: deserialize_and_verify_oid_def)
  have size: "subspan_from 4 (?hdr @ octets omp v @ (ms @ tail), k) =
      Inr (int32_octets (of_nat (length e)) @ octets omp v @ (ms @ tail), k - 4)"
    using subspan_from_append [of "int32_octets i" 4 k] Cons.prems bs by simp
  note frame = element_codec.read_frame [OF codec_of_reads_back, of v "ty_of v" omp 8 ?hdr k "ms @ tail"
      "\<lambda>x r. sbind (deserialize_members (map ty_of vs) r) (\<lambda>xs. Inr (x # xs))"]
  show ?case
    unfolding list.map deserialize_members.simps mem x(1) sbind_simps verify size load_int32_octets
    using frame IH Cons.prems bs oct by simp
qed simp

lemma elements_room: "4 * length vs \<le> length (concat (map (\<lambda>v. frame (f v)) vs))"
  by (induction vs) auto

lemma resize_count_of_nat: "n < 2 ^ 31 \<Longrightarrow> resize_count (of_nat n) = Inr n"
  by (simp add: resize_count_def sint_of_nat32)

lemma array_roundtrip:
  assumes vs: "\<forall>v \<in> set vs. ty_of v = t \<and> reads_back omp v"
    and "encode omp (VecVal t vs) = Inr bs" and "length bs < 2 ^ 31"
  shows "deserialize (Vector t) (bs @ tail, length bs) = Inr (VecVal t (map norm vs))"
proof -
  from assms(2) obtain i es where i: "oid_of omp t = Inr i" and es: "encode_elements omp vs = Inr es"
    and bs: "bs = int32_octets 1 @ int32_octets 0 @ int32_octets i @ int32_octets (of_nat (length vs)) @
      int32_octets 0 @ es"
    by (auto simp: rappend_Inr_iff encode_array_header_def sbind_Inr_iff)
  obtain x where x: "static_oid t = Inr x" "x = 0 \<or> x = i"
    using static_oid_accepts [OF i] by blast
  have eseq: "es = concat (map (\<lambda>v. frame (octets omp v)) vs)"
    using encode_elements_octets [OF es] by simp
  with elements_room [of vs "octets omp"] assms(3) bs have n: "length vs < 2 ^ 31" by simp
  have "deserialize_elements (deserialize t) (length vs) (es @ tail, length es) = Inr (map norm vs)"
    using element_codec.elements_roundtrip [OF codec_of_reads_back, of vs t omp] vs assms(3) bs eseq by simp
  with x n show ?thesis
    by (auto simp: bs subspan_from_def deserialize_and_verify_oid_def resize_count_of_nat)
qed

lemma composite_roundtrip:
  assumes "\<forall>v \<in> set vs. reads_back omp v" and "encode omp (TupVal vs) = Inr bs" and "length bs < 2 ^ 31"
  shows "verify_member_counts (bs @ tail, length bs) (of_nat (length vs)) = Inr () \<and>
    (\<exists>s4. subspan_from 4 (bs @ tail, length bs) = Inr s4 \<and>
       deserialize_members (map ty_of vs) s4 = Inr (map norm vs))"
proof -
  from assms(2) obtain ms where ms: "encode_members omp vs = Inr ms"
    and bs: "bs = int32_octets (of_nat (length vs)) @ ms"
    by (auto simp: rappend_Inr_iff)
  with members_roundtrip [OF assms(1) ms] assms(3) show ?thesis
    by (simp add: verify_member_counts_def subspan_from_def)
qed

text \<open>Every value of a type that can be received reads back.\<close>

lemma roundtrip:
  "wf_val v \<Longrightarrow> decodable (ty_of v) \<Longrightarrow> encode omp v = Inr bs \<Longrightarrow> length bs < 2 ^ 31 \<Longrightarrow>
   deserialize (ty_of v) (bs @ tail, length bs) = Inr (norm v)"
proof (induction v arbitrary: bs tail)
  case (SVal v)
  then show ?case using scalar_roundtrip [of v tail] by auto
next
  case (VecVal t vs)
  have "\<forall>v \<in> set vs. ty_of v = t \<and> reads_back omp v"
  proof
    fix v
    assume v: "v \<in> set vs"
    have "encode omp v = Inr (octets omp v)"
      using VecVal.prems(3) v encode_elements_octets by (fastforce simp: rappend_Inr_iff)
    then show "ty_of v = t \<and> reads_back omp v"
      using VecVal.IH [OF v] VecVal.prems v by (auto simp: reads_back_def)
  qed
  from array_roundtrip [OF this VecVal.prems(3,4)] show ?case by simp
next
  case (ArrVal n t vs)
  then show ?case by simp
next
  case (TupVal vs)
  have vs: "\<forall>v \<in> set vs. reads_back omp v"
    using TupVal.IH TupVal.prems encode_members_octets
    by (fastforce simp: reads_back_def rappend_Inr_iff)
  from composite_roundtrip [OF vs TupVal.prems(3,4), where tail = tail] show ?case by auto
next
  case (UdtVal name index vs)
  have vs: "\<forall>v \<in> set vs. reads_back omp v"
    using UdtVal.IH UdtVal.prems encode_members_octets
    by (fastforce simp: reads_back_def rappend_Inr_iff)
  have "encode omp (TupVal vs) = Inr bs" using UdtVal.prems(3) by simp
  from composite_roundtrip [OF vs this UdtVal.prems(4), where tail = tail] show ?case by auto
qed

interpretation wire: element_codec "octets omp" "deserialize t"
  "\<lambda>v. ty_of v = t \<and> wf_val v \<and> decodable t \<and> (\<exists>bs. encode omp v = Inr bs)" norm for omp t
  by unfold_locales (auto simp: encode_octets intro: roundtrip)

subsection \<open>Properties\<close>

text \<open>
  C2: what the serializer appends to the buffer for a value of a type that can be received,
  user-defined types, tuples and vectors included, the deserializer reads back as that value, up to
  the microsecond resolution of time points, whatever follows it in memory.
\<close>

theorem deserialize_serialize:
  assumes "wf_val v" and "decodable (ty_of v)" and "size_of v < 2 ^ 31"
    and "serialize omp v b = (None, b')"
  shows "deserialize (ty_of v) (drop (length (chars b)) (chars b') @ tail, size_of v) = Inr (norm v)"
proof -
  obtain bs where bs: "encode omp v = Inr bs"
    using assms(4) serialize_Inl [of omp v _ b] by (cases "encode omp v") auto
  from serialize_chars [OF bs, of b] assms(4) have "chars b' = chars b @ bs" by simp
  with roundtrip [OF assms(1,2) bs] assms(3) length_encode(1) [OF bs] show ?thesis by simp
qed

definition example_oids :: oid_map where
  "example_oids = [7 \<mapsto> \<lparr>single = 16400, array = 16399\<rparr>]"

definition example_company :: val where
  "example_company =
     TupVal [SVal (VInt64 104),
             VecVal (UserDefined ''employee'' 7 [Scalar String, Scalar String])
               [UdtVal ''employee'' 7 [SVal (VString [74, 69]), SVal (VString [53])]]]"

lemma example_serialized:
  "\<exists>b'. serialize example_oids example_company \<lparr>chars = [], capacity = 0, allocation = 0\<rparr> = (None, b')"
proof -
  have "sendable example_oids example_company"
    by (simp add: sendable_def example_company_def example_oids_def)
  with sendable_encode serialize_chars show ?thesis by blast
qed

theorem deserialize_serialize_witness:
  "\<exists>b'. serialize example_oids example_company \<lparr>chars = [], capacity = 0, allocation = 0\<rparr> = (None, b') \<and>
     deserialize (ty_of example_company) (chars b', 75) = Inr example_company"
proof -
  obtain b' where b': "serialize example_oids example_company \<lparr>chars = [], capacity = 0, allocation = 0\<rparr> = (None, b')"
    using example_serialized by blast
  from deserialize_serialize [OF _ _ _ b', of "[]"] b' show ?thesis
    by (simp add: example_company_def del: deserialize.simps)
qed

text \<open>
  A received timestamp is converted without undefined behaviour exactly when its distance from
  the Unix epoch fits 64 bits of nanoseconds; in particular the server's value \<open>infinity\<close> and every
  date beyond the year 2262 overflow.
\<close>

lemma time_point_overflow_iff:
  "(\<exists>u. deserialize (Scalar TimePoint) (store_be 8 (w :: 64 word) @ tail, 8) = Inl (Undefined u)) \<longleftrightarrow>
   (sint w + 946684800000000) * 1000 < - (2 ^ 63) \<or> (sint w + 946684800000000) * 1000 \<ge> 2 ^ 63"
  by (auto simp: load_int_append time_point_of_def Let_def pg_epoch_def)

text \<open>
  C35: an array of one dimension is required: any other number of dimensions is reported as a
  multidimensional array. The server sends the empty array with no dimension at all, so receiving
  an empty array fails with that exception.
\<close>

theorem array_dimensions_checked:
  assumes "d \<noteq> 1"
  shows "deserialize (Vector t) (int32_octets d @ rest, k) = Inl (Throw MultidimensionalArray)"
  using assms by (simp add: subspan_from_def)

theorem array_dimensions_checked_witness:
  "deserialize (Vector (Scalar Int32)) ([0, 0, 0, 0, 0, 0, 0, 0, 0, 0, 0, 23], 12) =
     Inl (Throw MultidimensionalArray)"
proof -
  have "int32_octets 0 = [0, 0, 0, 0]"
    by (simp add: int32_octets_def store_be_def be_enc_unroll)
  then show ?thesis
    using array_dimensions_checked [of 0 "Scalar Int32" "[0, 0, 0, 0, 0, 0, 0, 23]" 12] by simp
qed

definition null_size :: "byte list" where
  "null_size = int32_octets 0xFFFFFFFF"

text \<open>The octets of a received array of texts with one dimension.\<close>

definition text_array :: "nat \<Rightarrow> byte list \<Rightarrow> byte list" where
  "text_array n es =
     int32_octets 1 @ int32_octets 1 @ int32_octets 25 @ int32_octets (of_nat n) @ int32_octets 1 @ es"

lemma null_size_octets: "null_size = [255, 255, 255, 255]"
  by (simp add: null_size_def int32_octets_def store_be_def be_enc_unroll)

lemma text_array_elements:
  assumes "n < 2 ^ 31" and "20 + length es \<le> k"
  shows "deserialize (Vector (Scalar String)) (text_array n es @ tail, k) =
    sbind (deserialize_elements (deserialize (Scalar String)) n (es @ tail, k - 20))
      (\<lambda>vs. Inr (VecVal (Scalar String) vs))"
  using assms
  by (simp add: text_array_def subspan_from_def deserialize_and_verify_oid_def oids_of_builtin_def
      resize_count_of_nat)

lemma load_null_size: "load_int 4 (null_size @ ys, k) = Inr (0xFFFFFFFF :: 32 word)"
  by (simp add: null_size_def)

text \<open>An element with the size of SQL NULL takes the rest of the span, and 3 octets are consumed.\<close>

lemma null_element:
  "deserialize_elements (deserialize (Scalar String)) (Suc n) (null_size @ rest, 4 + k) =
    sbind (deserialize_elements (deserialize (Scalar String)) n (255 # rest, Suc k))
      (\<lambda>vs. Inr (SVal (VString (take k rest)) # vs))"
proof -
  have "subspan 4 (to_size_t (- 1)) (null_size @ rest, 4 + k) = Inr (rest, k)"
    by (simp add: subspan_def to_size_t_def dynamic_extent_def subspan_from_def null_size_def)
  moreover have "subspan_from 3 (null_size @ rest, 4 + k) = Inr (255 # rest, Suc k)"
    by (simp add: subspan_from_def null_size_octets)
  ultimately show ?thesis
    by (simp add: load_null_size add_int_def span_chars_def) (simp add: to_size_t_def)
qed

lemma sint_of_nat32_negative:
  assumes "2 ^ 31 \<le> n" and "n < 2 ^ 32"
  shows "sint (of_nat n :: 32 word) = int n - 2 ^ 32"
proof -
  have "(int n + 2 ^ 31) mod 2 ^ 32 = int n - 2 ^ 31"
    using assms by (intro int_mod_pos_eq [where q = 1]) auto
  then show ?thesis using int_word_sint [of "int n", where 'a = 32] by simp
qed

lemma misaligned_size:
  assumes "length s < 2 ^ 24"
  shows "\<exists>w :: 32 word. load_int 4 (255 # frame s @ tail, k) = Inr w \<and>
    - (2 ^ 24) \<le> sint w \<and> sint w < - (2 ^ 24) + 2 ^ 16"
proof -
  let ?b = "of_nat (length s div 65536) :: byte" and ?c = "of_nat (length s div 256) :: byte"
  have "length s div 16777216 = 0" using assms by simp
  moreover have "unat (of_nat (length s) :: 32 word) = length s"
    using assms by (simp add: unat_of_nat take_bit_nat_eq_self)
  ultimately have "take 4 (255 # frame s @ tail) = [255, 0, ?b, ?c]"
    by (simp add: frame_def int32_octets_def store_be_def be_enc_unroll)
  moreover define m where "m = be_dec [?b, ?c]"
  ultimately have "load_int 4 (255 # frame s @ tail, k) = Inr (of_nat (4278190080 + m) :: 32 word)"
    by (simp add: load_int_def load_be_def frame_def)
  moreover have m: "m < 65536" using be_dec_less [of "[?b, ?c]"] by (simp add: m_def)
  moreover from m have "sint (of_nat (4278190080 + m) :: 32 word) = - (2 ^ 24) + int m"
    by (subst sint_of_nat32_negative) simp_all
  ultimately show ?thesis by (intro exI [of _ "of_nat (4278190080 + m)"]) simp
qed

text \<open>
  C36: SQL NULL inside an array is not recognised. An array with the single element NULL is read as
  one empty text, and NULL followed by a text of up to 16 MB leads to a subspan outside the buffer:
  the size -1 selects the rest of the buffer as the element, after which the loop continues one
  octet too early.
\<close>

theorem null_element_misread:
  assumes "length s < 2 ^ 24"
  shows "deserialize (Vector (Scalar String)) (text_array 1 null_size @ tail, 24) =
      Inr (VecVal (Scalar String) [SVal (VString [])]) \<and>
    deserialize (Vector (Scalar String)) (text_array 2 (null_size @ frame s) @ tail, 28 + length s) =
      Inl (Undefined BadSubspan)"
proof
  show "deserialize (Vector (Scalar String)) (text_array 1 null_size @ tail, 24) =
      Inr (VecVal (Scalar String) [SVal (VString [])])"
    using null_element [of 0 tail 0]
    by (subst text_array_elements) (simp_all add: null_size_octets del: deserialize_elements.simps(2))
  let ?k = "4 + length s"
  obtain w :: "32 word" where w: "load_int 4 (255 # frame s @ tail, Suc ?k) = Inr w"
    "- (2 ^ 24) \<le> sint w" "sint w < - (2 ^ 24) + 2 ^ 16"
    using misaligned_size [OF assms] by blast
  have "to_size_t (sint w) = nat (2 ^ 64 + sint w)"
    unfolding to_size_t_def using w(2,3) by (subst int_mod_pos_eq [where q = "-1"]) simp_all
  with w(2,3) assms have "to_size_t (sint w) \<noteq> dynamic_extent" and "\<not> to_size_t (sint w) \<le> Suc ?k - 4"
    by (simp_all add: dynamic_extent_def nat_eq_iff nat_le_iff)
  then have "subspan 4 (to_size_t (sint w)) (255 # frame s @ tail, Suc ?k) = Inl (Undefined BadSubspan)"
    by (simp add: subspan_def)
  with w(1) have "deserialize_elements (deserialize (Scalar String)) (Suc 0) (255 # frame s @ tail, Suc ?k) =
      Inl (Undefined BadSubspan)" by simp
  then have "deserialize_elements (deserialize (Scalar String)) 2 (null_size @ frame s @ tail, 4 + ?k) =
      Inl (Undefined BadSubspan)"
    unfolding numeral_2_eq_2 null_element by simp
  then show "deserialize (Vector (Scalar String)) (text_array 2 (null_size @ frame s) @ tail, 28 + length s) =
      Inl (Undefined BadSubspan)"
    by (subst text_array_elements) (simp_all add: null_size_octets del: deserialize_elements.simps(2))
qed

theorem null_element_misread_witness:
  "deserialize (Vector (Scalar String)) (text_array 2 (null_size @ frame [98]), 29) =
     Inl (Undefined BadSubspan)"
  using null_element_misread [of "[98]" "[]"] by simp

subsection \<open>What is accepted\<close>

text \<open>
  The octets of a composite and of an array as the server sends them: fields with their lengths. A reader
  of a field is given the span of the field, behind which the memory goes on with the fields that follow.
\<close>

definition member_octets :: "oid \<times> byte list \<Rightarrow> byte list" where
  "member_octets m = int32_octets (fst m) @ frame (snd m)"

definition composite_octets :: "(oid \<times> byte list) list \<Rightarrow> byte list" where
  "composite_octets ms = int32_octets (of_nat (length ms)) @ concat (map member_octets ms)"

definition array_octets :: "32 word \<Rightarrow> oid \<Rightarrow> 32 word \<Rightarrow> byte list list \<Rightarrow> byte list" where
  "array_octets flags i lower es =
     int32_octets 1 @ int32_octets flags @ int32_octets i @ int32_octets (of_nat (length es)) @
     int32_octets lower @ concat (map frame es)"

lemma length_member_octets [simp]: "length (member_octets m) = 8 + length (snd m)"
  by (simp add: member_octets_def frame_def)

lemma read_field:
  assumes "h + length bs < 2 ^ 31" and "length hdr = h" and "h + length bs \<le> k"
  shows "subspan h (to_size_t (sint (of_nat (length bs) :: 32 word))) (hdr @ bs @ tail, k) = Inr (bs @ tail, length bs)"
    and "add_int (int h) (of_nat (length bs)) = Inr (int (h + length bs))"
    and "subspan_from (to_size_t (int (h + length bs))) (hdr @ bs @ tail, k) = Inr (tail, k - (h + length bs))"
proof -
  show "subspan h (to_size_t (sint (of_nat (length bs) :: 32 word))) (hdr @ bs @ tail, k) = Inr (bs @ tail, length bs)"
    using assms by (simp add: sint_of_nat32 to_size_t_of_nat subspan_append)
  show "add_int (int h) (of_nat (length bs)) = Inr (int (h + length bs))"
    using assms by (simp add: add_int_of_nat)
  have "to_size_t (int (h + length bs)) = h + length bs" using assms by (intro to_size_t_of_nat) simp
  then show "subspan_from (to_size_t (int (h + length bs))) (hdr @ bs @ tail, k) = Inr (tail, k - (h + length bs))"
    using assms subspan_from_append [of "hdr @ bs" "h + length bs" k tail] by simp
qed

lemma deserialize_member:
  assumes "8 + length bs < 2 ^ 31" and "8 + length bs \<le> k"
  shows "deserialize_members (t # ts) (member_octets (i, bs) @ tail, k) =
    sbind (static_oid t) (\<lambda>e.
      if e \<noteq> 0 \<and> e \<noteq> i then Inl (Throw (OidMismatch i e))
      else sbind (deserialize t (bs @ tail, length bs)) (\<lambda>v.
           sbind (deserialize_members ts (tail, k - (8 + length bs))) (\<lambda>vs. Inr (v # vs))))"
proof -
  let ?hdr = "int32_octets i @ int32_octets (of_nat (length bs))"
  have mem: "member_octets (i, bs) @ tail = ?hdr @ bs @ tail" by (simp add: member_octets_def frame_def)
  have "subspan_from 4 (?hdr @ bs @ tail, k) = Inr (int32_octets (of_nat (length bs)) @ bs @ tail, k - 4)"
    using subspan_from_append [of "int32_octets i" 4 k] assms(2) by simp
  moreover have "length ?hdr = 8" by simp
  ultimately show ?thesis
    using read_field(1,3) [OF assms(1) _ assms(2), where hdr = ?hdr and tail = tail]
      read_field(2) [OF assms(1) _ assms(2), where hdr = ?hdr] unfolding mem deserialize_members.simps
    by (cases "static_oid t") (simp_all add: deserialize_and_verify_oid_def)
qed

lemma deserialize_element:
  assumes "4 + length bs < 2 ^ 31" and "4 + length bs \<le> k"
  shows "deserialize_elements f (Suc n) (frame bs @ tail, k) =
    sbind (f (bs @ tail, length bs)) (\<lambda>v.
    sbind (deserialize_elements f n (tail, k - (4 + length bs))) (\<lambda>vs. Inr (v # vs)))"
  using read_field(1,3) [OF assms(1) _ assms(2), where hdr = "int32_octets (of_nat (length bs))" and tail = tail]
    read_field(2) [OF assms(1) _ assms(2), where hdr = "int32_octets (of_nat (length bs))"]
  by (simp add: frame_def)

text \<open>Field \<open>j\<close> of a composite is accepted as a member of the type \<open>t\<close> with the value \<open>v\<close>.\<close>

definition member_accepted :: "(oid \<times> byte list) list \<Rightarrow> byte list \<Rightarrow> nat \<Rightarrow> ty \<Rightarrow> val \<Rightarrow> bool" where
  "member_accepted ms tail j t v \<longleftrightarrow>
     (static_oid t = Inr 0 \<or> static_oid t = Inr (fst (ms ! j))) \<and>
     deserialize t (snd (ms ! j) @ concat (map member_octets (drop (Suc j) ms)) @ tail, length (snd (ms ! j))) = Inr v"

lemma member_accepted_Suc [simp]: "member_accepted (m # ms) tail (Suc j) t v = member_accepted ms tail j t v"
  by (simp add: member_accepted_def)

lemma members_accepted:
  assumes "length (concat (map member_octets ms)) < 2 ^ 31" and "length (concat (map member_octets ms)) \<le> k"
    and "length ts = length ms"
  shows "deserialize_members ts (concat (map member_octets ms) @ tail, k) = Inr vs \<longleftrightarrow>
    length vs = length ts \<and> (\<forall>j < length ts. member_accepted ms tail j (ts ! j) (vs ! j))"
  using assms
proof (induction ts arbitrary: ms k vs)
  case Nil
  then show ?case by auto
next
  case (Cons t ts)
  then obtain i bs ms' where ms: "ms = (i, bs) # ms'" by (metis length_Suc_conv surj_pair)
  let ?rest = "concat (map member_octets ms') @ tail"
  have k: "8 + length bs < 2 ^ 31" "8 + length bs \<le> k" using Cons.prems ms by simp_all
  have IH: "deserialize_members ts (?rest, k - (8 + length bs)) = Inr us \<longleftrightarrow>
      length us = length ts \<and> (\<forall>j < length ts. member_accepted ms' tail j (ts ! j) (us ! j))" for us
    using Cons.IH [of ms' "k - (8 + length bs)" us] Cons.prems ms by simp
  have "deserialize_members (t # ts) (concat (map member_octets ms) @ tail, k) = Inr vs \<longleftrightarrow>
      (\<exists>v us. vs = v # us \<and> (static_oid t = Inr 0 \<or> static_oid t = Inr i) \<and>
        deserialize t (bs @ ?rest, length bs) = Inr v \<and> deserialize_members ts (?rest, k - (8 + length bs)) = Inr us)"
    using deserialize_member [OF k, of t ts i ?rest] ms by (cases "static_oid t") (auto simp: sbind_Inr_iff)
  moreover have "member_accepted ms tail 0 t v \<longleftrightarrow>
      (static_oid t = Inr 0 \<or> static_oid t = Inr i) \<and> deserialize t (bs @ ?rest, length bs) = Inr v" for v
    by (simp add: member_accepted_def ms)
  ultimately show ?case
    unfolding IH by (cases vs) (auto simp: All_less_Suc2 ms simp del: deserialize_members.simps)
qed

text \<open>The first member with another object identifier than its type requires is reported.\<close>

lemma members_refused:
  assumes "length (concat (map member_octets ms)) < 2 ^ 31" and "length (concat (map member_octets ms)) \<le> k"
    and "length ts = length ms" and "j < length ts"
    and "\<forall>l < j. \<exists>v. member_accepted ms tail l (ts ! l) v"
    and "static_oid (ts ! j) = Inr e" and "e \<noteq> 0" and "e \<noteq> fst (ms ! j)"
  shows "deserialize_members ts (concat (map member_octets ms) @ tail, k) = Inl (Throw (OidMismatch (fst (ms ! j)) e))"
  using assms
proof (induction ts arbitrary: ms k j)
  case (Cons t ts)
  then obtain i bs ms' where ms: "ms = (i, bs) # ms'" by (metis length_Suc_conv surj_pair)
  let ?rest = "concat (map member_octets ms') @ tail"
  have k: "8 + length bs < 2 ^ 31" "8 + length bs \<le> k" using Cons.prems ms by simp_all
  note step = deserialize_member [OF k, of t ts i ?rest]
  show ?case
  proof (cases j)
    case 0
    with step ms Cons.prems(6-8) show ?thesis by simp
  next
    case (Suc l)
    with Cons.prems(5) obtain v where "member_accepted ms tail 0 t v" by fastforce
    then have ok: "static_oid t = Inr 0 \<or> static_oid t = Inr i" "deserialize t (bs @ ?rest, length bs) = Inr v"
      using ms by (auto simp: member_accepted_def)
    have "\<forall>l' < l. \<exists>v. member_accepted ms' tail l' (ts ! l') v"
      using Cons.prems(5) Suc ms by (metis Suc_less_eq member_accepted_Suc nth_Cons_Suc)
    then have "deserialize_members ts (?rest, k - (8 + length bs)) = Inl (Throw (OidMismatch (fst (ms' ! l)) e))"
      using Cons.IH [of ms' "k - (8 + length bs)" l] Cons.prems ms Suc by simp
    with step ok ms Suc show ?thesis by auto
  qed
qed simp

lemma elements_accepted:
  assumes "length (concat (map frame es)) < 2 ^ 31" and "length (concat (map frame es)) \<le> k"
  shows "deserialize_elements f (length es) (concat (map frame es) @ tail, k) = Inr vs \<longleftrightarrow>
    length vs = length es \<and>
    (\<forall>j < length es. f (es ! j @ concat (map frame (drop (Suc j) es)) @ tail, length (es ! j)) = Inr (vs ! j))"
  using assms
proof (induction es arbitrary: k vs)
  case (Cons e es)
  let ?rest = "concat (map frame es) @ tail"
  have len: "length (frame e) = 4 + length e" by (simp add: frame_def)
  have k: "4 + length e < 2 ^ 31" "4 + length e \<le> k" using Cons.prems len by simp_all
  have IH: "deserialize_elements f (length es) (?rest, k - (4 + length e)) = Inr us \<longleftrightarrow>
      length us = length es \<and>
      (\<forall>j < length es. f (es ! j @ concat (map frame (drop (Suc j) es)) @ tail, length (es ! j)) = Inr (us ! j))" for us
    using Cons.IH [of "k - (4 + length e)" us] Cons.prems len by simp
  have "deserialize_elements f (length (e # es)) (concat (map frame (e # es)) @ tail, k) = Inr vs \<longleftrightarrow>
      (\<exists>v us. vs = v # us \<and> f (e @ ?rest, length e) = Inr v \<and>
        deserialize_elements f (length es) (?rest, k - (4 + length e)) = Inr us)"
    using deserialize_element [OF k, of f "length es" ?rest] by (auto simp: sbind_Inr_iff simp del: deserialize_elements.simps)
  then show ?case
    unfolding IH by (cases vs) (auto simp: All_less_Suc2)
qed auto

lemma member_count_wrap: "length ms < 2 ^ 32 \<Longrightarrow> length ts < 2 ^ 32 \<Longrightarrow>
   (of_nat (length ts) :: 32 word) = of_nat (length ms) \<longleftrightarrow> length ts = length ms"
  by (simp add: word_of_nat_eq_iff take_bit_nat_eq_self)

text \<open>
  C34: exactly which composites are accepted, for tuples and user-defined types alike. A composite with
  another number of members than the type is refused. With as many, it is accepted with the values \<open>vs\<close> if
  and only if every member has the object identifier that its type requires, if it requires one, and is
  read as its value; the first member that has another one is reported. The exceptions carry what was found
  and what was expected.
\<close>

theorem composite_checked:
  assumes "length (composite_octets ms) < 2 ^ 31" and "length ts < 2 ^ 31"
    and "(t, mk) \<in> {(Tuple ts, TupVal), (UserDefined name index ts, UdtVal name index)}"
  shows "(length ms \<noteq> length ts \<longrightarrow>
      deserialize t (composite_octets ms @ tail, length (composite_octets ms)) =
        Inl (Throw (MemberCountMismatch (of_nat (length ms)) (of_nat (length ts))))) \<and>
    (length ms = length ts \<longrightarrow>
      (deserialize t (composite_octets ms @ tail, length (composite_octets ms)) = Inr v \<longleftrightarrow>
        (\<exists>vs. v = mk vs \<and> length vs = length ts \<and>
          (\<forall>j < length ts. member_accepted ms tail j (ts ! j) (vs ! j))))) \<and>
    (length ms = length ts \<longrightarrow> (\<forall>j < length ts. \<forall>e.
      (\<forall>l < j. \<exists>v. member_accepted ms tail l (ts ! l) v) \<and>
      static_oid (ts ! j) = Inr e \<and> e \<noteq> 0 \<and> e \<noteq> fst (ms ! j) \<longrightarrow>
      deserialize t (composite_octets ms @ tail, length (composite_octets ms)) =
        Inl (Throw (OidMismatch (fst (ms ! j)) e))))"
proof -
  let ?k = "length (composite_octets ms)" and ?fields = "concat (map member_octets ms)"
  have "length ms \<le> length ?fields" by (induction ms) simp_all
  then have n: "length ms < 2 ^ 31" and small: "length ?fields < 2 ^ 31" and k: "length ?fields = ?k - 4"
    using assms(1) by (simp_all add: composite_octets_def)
  have run: "deserialize t (composite_octets ms @ tail, ?k) =
      (if length ms \<noteq> length ts then Inl (Throw (MemberCountMismatch (of_nat (length ms)) (of_nat (length ts))))
       else sbind (deserialize_members ts (?fields @ tail, ?k - 4)) (\<lambda>vs. Inr (mk vs)))"
  proof -
    have "verify_member_counts (composite_octets ms @ tail, ?k) (of_nat (length ts)) =
        (if length ms \<noteq> length ts then Inl (Throw (MemberCountMismatch (of_nat (length ms)) (of_nat (length ts)))) else Inr ())"
      using n assms(2) member_count_wrap [of ms ts] by (simp add: composite_octets_def verify_member_counts_def)
    moreover have "subspan_from 4 (composite_octets ms @ tail, ?k) = Inr (?fields @ tail, ?k - 4)"
      by (simp add: composite_octets_def subspan_from_def)
    moreover have "t = Tuple ts \<and> mk = TupVal \<or> t = UserDefined name index ts \<and> mk = UdtVal name index" using assms(3) by auto
    ultimately show ?thesis by (elim disjE) simp_all
  qed
  have accepted: "deserialize_members ts (?fields @ tail, ?k - 4) = Inr vs \<longleftrightarrow>
      length vs = length ts \<and> (\<forall>j < length ts. member_accepted ms tail j (ts ! j) (vs ! j))"
    if "length ms = length ts" for vs
    using members_accepted [OF small, of "?k - 4" ts tail vs] that k by simp
  have refused: "deserialize_members ts (?fields @ tail, ?k - 4) = Inl (Throw (OidMismatch (fst (ms ! j)) e))"
    if "length ms = length ts" "j < length ts" "\<forall>l < j. \<exists>v. member_accepted ms tail l (ts ! l) v"
      "static_oid (ts ! j) = Inr e" "e \<noteq> 0" "e \<noteq> fst (ms ! j)" for j e
    using members_refused [OF small, of "?k - 4" ts j tail e] that k by simp
  show ?thesis
    unfolding run by (intro conjI impI allI) (auto simp: sbind_Inr_iff accepted refused)
qed

theorem composite_checked_witness:
  "deserialize (Tuple [Scalar Int32]) (composite_octets [], 4) = Inl (Throw (MemberCountMismatch 0 1)) \<and>
   deserialize (UserDefined ''pair'' 3 [Scalar String, Scalar Int32])
     (composite_octets [(25, [97]), (25, [0, 0, 0, 1])], 25) = Inl (Throw (OidMismatch 25 23)) \<and>
   deserialize (UserDefined ''pair'' 3 [Scalar String, Scalar Int32])
     (composite_octets [(25, [97]), (23, [0, 0, 0, 1])], 25) =
     Inr (UdtVal ''pair'' 3 [SVal (VString [97]), SVal (VInt32 1)])"
proof (intro conjI)
  have len: "length (composite_octets [(25, [97]), (i, [0, 0, 0, 1])]) = 25" for i
    by (simp add: composite_octets_def)
  have first: "member_accepted [(25, [97]), (i, [0, 0, 0, 1])] [] 0 (Scalar String) (SVal (VString [97]))" for i
    by (simp add: member_accepted_def oids_of_builtin_def span_chars_def)
  show "deserialize (Tuple [Scalar Int32]) (composite_octets [], 4) = Inl (Throw (MemberCountMismatch 0 1))"
    using composite_checked [of "[]" "[Scalar Int32]" "Tuple [Scalar Int32]" TupVal "[]" 0 "[]"]
    by (simp add: composite_octets_def del: deserialize.simps)
  show "deserialize (UserDefined ''pair'' 3 [Scalar String, Scalar Int32])
     (composite_octets [(25, [97]), (25, [0, 0, 0, 1])], 25) = Inl (Throw (OidMismatch 25 23))"
    using composite_checked [of "[(25, [97]), (25, [0, 0, 0, 1])]" "[Scalar String, Scalar Int32]"
        "UserDefined ''pair'' 3 [Scalar String, Scalar Int32]" "UdtVal ''pair'' 3" "''pair''" 3 "[]",
        THEN conjunct2, THEN conjunct2, rule_format, of 1 23] len first
    by (auto simp: oids_of_builtin_def simp del: deserialize.simps)
  show "deserialize (UserDefined ''pair'' 3 [Scalar String, Scalar Int32])
     (composite_octets [(25, [97]), (23, [0, 0, 0, 1])], 25) =
     Inr (UdtVal ''pair'' 3 [SVal (VString [97]), SVal (VInt32 1)])"
  proof -
    have "member_accepted [(25, [97]), (23, [0, 0, 0, 1])] [] 1 (Scalar Int32) (SVal (VInt32 1))"
      by (simp add: member_accepted_def oids_of_builtin_def load_int_def load_be_def be_dec_def)
    then show ?thesis
      using composite_checked [of "[(25, [97]), (23, [0, 0, 0, 1])]" "[Scalar String, Scalar Int32]"
        "UserDefined ''pair'' 3 [Scalar String, Scalar Int32]" "UdtVal ''pair'' 3" "''pair''" 3 "[]"] len first
      by (auto simp: All_less_Suc2 simp del: deserialize.simps)
  qed
qed

text \<open>
  C31: exactly which arrays are accepted: one of one dimension with the elements \<open>es\<close> is read as the vector of
  the values \<open>vs\<close> if and only if it has the object identifier that the type of the elements requires, if
  that requires one, and every element is read as its value; with another object identifier it is
  refused. The flags and the lower bound of the array are not looked at.
\<close>

theorem arrays_accepted:
  assumes "length (array_octets flags i lower es) < 2 ^ 31"
  shows "(deserialize (Vector t) (array_octets flags i lower es @ tail, length (array_octets flags i lower es)) = Inr v \<longleftrightarrow>
      (static_oid t = Inr 0 \<or> static_oid t = Inr i) \<and>
      (\<exists>vs. v = VecVal t vs \<and> length vs = length es \<and>
        (\<forall>j < length es. deserialize t (es ! j @ concat (map frame (drop (Suc j) es)) @ tail, length (es ! j)) = Inr (vs ! j)))) \<and>
    (\<forall>e. static_oid t = Inr e \<and> e \<noteq> 0 \<and> e \<noteq> i \<longrightarrow>
      deserialize (Vector t) (array_octets flags i lower es @ tail, length (array_octets flags i lower es)) =
        Inl (Throw (OidMismatch i e)))"
proof -
  let ?k = "length (array_octets flags i lower es)" and ?fields = "concat (map frame es)"
  have small: "length ?fields < 2 ^ 31" and k: "length ?fields = ?k - 20" "20 \<le> ?k"
    using assms by (simp_all add: array_octets_def)
  have "length es \<le> length ?fields" by (induction es) (simp_all add: frame_def)
  then have n: "length es < 2 ^ 31" using small by simp
  have run: "deserialize (Vector t) (array_octets flags i lower es @ tail, ?k) =
      sbind (static_oid t) (\<lambda>e. if e \<noteq> 0 \<and> e \<noteq> i then Inl (Throw (OidMismatch i e))
        else sbind (deserialize_elements (\<lambda>x. deserialize t x) (length es) (?fields @ tail, ?k - 20)) (\<lambda>vs. Inr (VecVal t vs)))"
    using n k(2) by (cases "static_oid t")
      (simp_all add: array_octets_def subspan_from_def deserialize_and_verify_oid_def resize_count_of_nat)
  show ?thesis
    unfolding run using elements_accepted [OF small, of "?k - 20" "\<lambda>x. deserialize t x" tail] k(1)
    by (cases "static_oid t") (auto simp: sbind_Inr_iff)
qed

theorem arrays_accepted_witness:
  "deserialize (Vector (Scalar Int32)) (array_octets 0 23 1 [[0, 0, 0, 7]], 28) =
     Inr (VecVal (Scalar Int32) [SVal (VInt32 7)]) \<and>
   deserialize (Vector (Scalar Int32)) (array_octets 0 25 1 [[0, 0, 0, 7]], 28) = Inl (Throw (OidMismatch 25 23))"
proof -
  have "length (array_octets 0 i 1 [[0, 0, 0, 7]]) = 28" for i by (simp add: array_octets_def frame_def)
  moreover have "deserialize (Scalar Int32) ([0, 0, 0, 7], k) = Inr (SVal (VInt32 7))" for k
    by (simp add: load_int_def load_be_def be_dec_def)
  ultimately show ?thesis
    using arrays_accepted [of 0 23 1 "[[0, 0, 0, 7]]" "Scalar Int32" "[]" "VecVal (Scalar Int32) [SVal (VInt32 7)]"]
      arrays_accepted [of 0 25 1 "[[0, 0, 0, 7]]" "Scalar Int32" "[]" "VecVal (Scalar Int32) []"]
    by (auto simp: oids_of_builtin_def simp del: deserialize.simps)
qed

end
