(* ===== verification/ResultView.thy ===== *)
theory ResultView
  imports RoundTrip
begin

text \<open>
  The views of a query result (include/psql/result.hpp, row.hpp, field.hpp): access by index and by
  name, the iterators, and the conversions \<open>as\<close>. A \<open>PGresult*\<close> is an option (a null pointer is
  None) of an abstract type; the functions of libpq that read it are parameters.
\<close>

subsection \<open>The libpq functions that read a result\<close>

datatype exec_status =
    PGRES_EMPTY_QUERY | PGRES_COMMAND_OK | PGRES_TUPLES_OK | PGRES_COPY_OUT | PGRES_COPY_IN
  | PGRES_BAD_RESPONSE | PGRES_NONFATAL_ERROR | PGRES_FATAL_ERROR | PGRES_COPY_BOTH
  | PGRES_SINGLE_TUPLE | PGRES_PIPELINE_SYNC | PGRES_PIPELINE_ABORTED

text \<open>
  \<open>PQgetvalue\<close> gives the memory from the returned pointer to the end of the object it points into.
\<close>

record 'r result_api =
  PQntuples :: "'r option \<Rightarrow> int"
  PQnfields :: "'r option \<Rightarrow> int"
  PQftype :: "'r option \<Rightarrow> int \<Rightarrow> oid"
  PQfname :: "'r option \<Rightarrow> int \<Rightarrow> string"
  PQfnumber :: "'r option \<Rightarrow> string \<Rightarrow> int"
  PQgetvalue :: "'r option \<Rightarrow> int \<Rightarrow> int \<Rightarrow> byte list"
  PQgetlength :: "'r option \<Rightarrow> int \<Rightarrow> int \<Rightarrow> int"
  PQgetisnull :: "'r option \<Rightarrow> int \<Rightarrow> int \<Rightarrow> int"
  PQresultStatus :: "'r option \<Rightarrow> exec_status"
  PQresultSqlstate :: "'r option \<Rightarrow> string option"
  PQresultErrorMessage :: "'r option \<Rightarrow> string"

text \<open>\<open>static_cast<int>\<close> of a \<open>size_t\<close> keeps the lower 32 bits.\<close>

definition to_int :: "nat \<Rightarrow> int" where
  "to_int n = sint (word_of_nat n :: 32 word)"

lemma to_int_small: "n < 2 ^ 31 \<Longrightarrow> to_int n = int n"
  by (simp add: to_int_def signed_of_nat signed_take_bit_int_eq_self)

subsection \<open>field\<close>

record 'r field =
  field_result :: "'r option"
  field_row :: int
  field_col :: int

definition field_oid :: "'r result_api \<Rightarrow> 'r field \<Rightarrow> oid" where
  "field_oid A f = PQftype A (field_result f) (field_col f)"

definition field_name :: "'r result_api \<Rightarrow> 'r field \<Rightarrow> string" where
  "field_name A f = PQfname A (field_result f) (field_col f)"

definition field_data :: "'r result_api \<Rightarrow> 'r field \<Rightarrow> byte list" where
  "field_data A f = PQgetvalue A (field_result f) (field_row f) (field_col f)"

definition field_size :: "'r result_api \<Rightarrow> 'r field \<Rightarrow> nat" where
  "field_size A f = to_size_t (PQgetlength A (field_result f) (field_row f) (field_col f))"

definition field_is_null :: "'r result_api \<Rightarrow> 'r field \<Rightarrow> bool" where
  "field_is_null A f \<longleftrightarrow> PQgetisnull A (field_result f) (field_row f) (field_col f) \<noteq> 0"

text \<open>\<open>as<T>\<close> of a field: the type is checked unless 0 is expected, then the value is read.\<close>

definition as_field :: "'r result_api \<Rightarrow> ty \<Rightarrow> 'r field \<Rightarrow> val res" where
  "as_field A t f =
     sbind (static_oid t) (\<lambda>expected_oid.
       if expected_oid \<noteq> 0 \<and> expected_oid \<noteq> field_oid A f
       then Inl (Throw (OidMismatch (field_oid A f) expected_oid))
       else deserialize t (field_data A f, field_size A f))"

subsection \<open>row\<close>

record 'r row =
  row_result :: "'r option"
  row_index :: int

definition row_size :: "'r result_api \<Rightarrow> 'r row \<Rightarrow> nat" where
  "row_size A r = to_size_t (PQnfields A (row_result r))"

definition row_empty :: "'r result_api \<Rightarrow> 'r row \<Rightarrow> bool" where
  "row_empty A r \<longleftrightarrow> row_size A r = 0"

definition row_nth :: "'r row \<Rightarrow> int \<Rightarrow> 'r field" where
  "row_nth r index = \<lparr>field_result = row_result r, field_row = row_index r, field_col = index\<rparr>"

definition row_at :: "'r result_api \<Rightarrow> 'r row \<Rightarrow> int \<Rightarrow> 'r field res" where
  "row_at A r index =
     (if to_size_t index < row_size A r then Inr (row_nth r index) else Inl (Throw OutOfRange))"

definition row_at_name :: "'r result_api \<Rightarrow> 'r row \<Rightarrow> string \<Rightarrow> 'r field res" where
  "row_at_name A r name =
     (let i = PQfnumber A (row_result r) name
      in if i \<noteq> -1 then Inr (row_nth r i) else Inl (Throw OutOfRange))"

fun as_fields :: "'r result_api \<Rightarrow> 'r row \<Rightarrow> int \<Rightarrow> ty list \<Rightarrow> val list res" where
  "as_fields A r i [] = Inr []"
| "as_fields A r i (t # ts) =
     sbind (row_at A r i) (\<lambda>f.
     sbind (as_field A t f) (\<lambda>v.
     sbind (as_fields A r (i + 1) ts) (\<lambda>vs. Inr (v # vs))))"

text \<open>One type gives the value of the first field, several give a tuple.\<close>

definition as_row :: "'r result_api \<Rightarrow> ty list \<Rightarrow> 'r row \<Rightarrow> val res" where
  "as_row A ts r =
     (case ts of
        [] \<Rightarrow> Inl IllFormed
      | [t] \<Rightarrow> sbind (row_at A r 0) (as_field A t)
      | _ \<Rightarrow> sbind (as_fields A r 0 ts) (\<lambda>vs. Inr (TupVal vs)))"

text \<open>\<open>row::const_iterator\<close>\<close>

record 'r row_iterator =
  rit_result :: "'r option"
  rit_row :: int
  rit_col :: int

definition row_begin :: "'r row \<Rightarrow> 'r row_iterator" where
  "row_begin r = \<lparr>rit_result = row_result r, rit_row = row_index r, rit_col = 0\<rparr>"

definition row_end :: "'r result_api \<Rightarrow> 'r row \<Rightarrow> 'r row_iterator" where
  "row_end A r = \<lparr>rit_result = row_result r, rit_row = row_index r, rit_col = to_int (row_size A r)\<rparr>"

definition row_it_inc :: "'r row_iterator \<Rightarrow> 'r row_iterator" where
  "row_it_inc it = it\<lparr>rit_col := rit_col it + 1\<rparr>"

definition row_it_dec :: "'r row_iterator \<Rightarrow> 'r row_iterator" where
  "row_it_dec it = it\<lparr>rit_col := rit_col it - 1\<rparr>"

text \<open>The postfix operators: the value of the expression, and the iterator after it.\<close>

definition row_it_post_inc :: "'r row_iterator \<Rightarrow> 'r row_iterator \<times> 'r row_iterator" where
  "row_it_post_inc it = (let tmp = it in (tmp, row_it_inc it))"

definition row_it_post_dec :: "'r row_iterator \<Rightarrow> 'r row_iterator \<times> 'r row_iterator" where
  "row_it_post_dec it = (let tmp = it in (tmp, row_it_dec it))"

definition row_it_eq :: "'r row_iterator \<Rightarrow> 'r row_iterator \<Rightarrow> bool" where
  "row_it_eq it rhs \<longleftrightarrow> rit_result it = rit_result rhs \<and> rit_row it = rit_row rhs \<and> rit_col it = rit_col rhs"

definition row_it_deref :: "'r row_iterator \<Rightarrow> 'r field" where
  "row_it_deref it = \<lparr>field_result = rit_result it, field_row = rit_row it, field_col = rit_col it\<rparr>"

subsection \<open>result\<close>

type_synonym 'r result = "'r option"

definition result_bool :: "'r result \<Rightarrow> bool" where
  "result_bool res \<longleftrightarrow> res \<noteq> None"

text \<open>\<open>release\<close>: the pointer it gives, and the result that is left.\<close>

definition result_release :: "'r result \<Rightarrow> 'r option \<times> 'r result" where
  "result_release res = (res, None)"

definition result_size :: "'r result_api \<Rightarrow> 'r result \<Rightarrow> nat" where
  "result_size A res = to_size_t (PQntuples A res)"

definition result_empty :: "'r result_api \<Rightarrow> 'r result \<Rightarrow> bool" where
  "result_empty A res \<longleftrightarrow> result_size A res = 0"

definition result_nth :: "'r result \<Rightarrow> int \<Rightarrow> 'r row" where
  "result_nth res index = \<lparr>row_result = res, row_index = index\<rparr>"

definition result_at :: "'r result_api \<Rightarrow> 'r result \<Rightarrow> int \<Rightarrow> 'r row res" where
  "result_at A res index =
     (if to_size_t index < result_size A res then Inr (result_nth res index) else Inl (Throw OutOfRange))"

definition as_result :: "'r result_api \<Rightarrow> ty list \<Rightarrow> 'r result \<Rightarrow> val res" where
  "as_result A ts res = sbind (result_at A res 0) (as_row A ts)"

text \<open>\<open>result::const_iterator\<close>\<close>

record 'r result_iterator =
  it_result :: "'r option"
  it_row :: int

definition result_begin :: "'r result \<Rightarrow> 'r result_iterator" where
  "result_begin res = \<lparr>it_result = res, it_row = 0\<rparr>"

definition result_end :: "'r result_api \<Rightarrow> 'r result \<Rightarrow> 'r result_iterator" where
  "result_end A res = \<lparr>it_result = res, it_row = to_int (result_size A res)\<rparr>"

definition result_it_inc :: "'r result_iterator \<Rightarrow> 'r result_iterator" where
  "result_it_inc it = it\<lparr>it_row := it_row it + 1\<rparr>"

definition result_it_dec :: "'r result_iterator \<Rightarrow> 'r result_iterator" where
  "result_it_dec it = it\<lparr>it_row := it_row it - 1\<rparr>"

definition result_it_post_inc :: "'r result_iterator \<Rightarrow> 'r result_iterator \<times> 'r result_iterator" where
  "result_it_post_inc it = (let tmp = it in (tmp, result_it_inc it))"

definition result_it_post_dec :: "'r result_iterator \<Rightarrow> 'r result_iterator \<times> 'r result_iterator" where
  "result_it_post_dec it = (let tmp = it in (tmp, result_it_dec it))"

definition result_it_eq :: "'r result_iterator \<Rightarrow> 'r result_iterator \<Rightarrow> bool" where
  "result_it_eq it rhs \<longleftrightarrow> it_result it = it_result rhs \<and> it_row it = it_row rhs"

definition result_it_deref :: "'r result_iterator \<Rightarrow> 'r row" where
  "result_it_deref it = \<lparr>row_result = it_result it, row_index = it_row it\<rparr>"

text \<open>The comparisons of iterators compare all their members.\<close>

lemma it_eq_iff [simp]:
  "row_it_eq it rhs \<longleftrightarrow> it = rhs"
  "result_it_eq it' rhs' \<longleftrightarrow> it' = rhs'"
  by (auto simp: row_it_eq_def result_it_eq_def)

lemma it_dec_inc [simp]:
  "row_it_dec (row_it_inc it) = it" "row_it_inc (row_it_dec it) = it"
  "result_it_dec (result_it_inc it') = it'" "result_it_inc (result_it_dec it') = it'"
  by (simp_all add: row_it_dec_def row_it_inc_def result_it_dec_def result_it_inc_def)

text \<open>
  The range-based \<open>for\<close> over a pair of iterators, collecting what it dereferences; None when it
  never meets the end.
\<close>

partial_function (option) range_for :: "('i \<Rightarrow> 'i) \<Rightarrow> ('i \<Rightarrow> 'e) \<Rightarrow> 'i \<Rightarrow> 'i \<Rightarrow> 'e list option" where
  "range_for inc deref it stop =
     (if it = stop then Some []
      else do { xs \<leftarrow> range_for inc deref (inc it) stop; Some (deref it # xs) })"

text \<open>What a pair of iterators promises to the loop: the end is met first after \<open>n\<close> increments.\<close>

locale iterator_range =
  fixes inc :: "'i \<Rightarrow> 'i" and deref :: "'i \<Rightarrow> 'e" and first :: 'i and stop :: 'i and n :: nat
    and valid :: bool
  assumes reaches: "valid \<Longrightarrow> (inc ^^ n) first = stop"
    and not_before: "valid \<Longrightarrow> k < n \<Longrightarrow> (inc ^^ k) first \<noteq> stop"
begin

lemma range_for_from:
  assumes valid
  shows "k \<le> n \<Longrightarrow>
    range_for inc deref ((inc ^^ k) first) stop = Some (map (\<lambda>i. deref ((inc ^^ i) first)) [k..<n])"
proof (induction "n - k" arbitrary: k)
  case 0
  then have "k = n" by simp
  then show ?case by (simp add: range_for.simps reaches [OF assms])
next
  case (Suc m)
  then have "k < n" and "m = n - Suc k" by auto
  with Suc.hyps(1) [of "Suc k"] have
    "range_for inc deref ((inc ^^ Suc k) first) stop = Some (map (\<lambda>i. deref ((inc ^^ i) first)) [Suc k..<n])"
    by simp
  with \<open>k < n\<close> not_before [OF assms \<open>k < n\<close>] show ?case
    by (subst range_for.simps) (simp add: upt_conv_Cons)
qed

lemma range_for_visits:
  "valid \<Longrightarrow> range_for inc deref first stop = Some (map (\<lambda>i. deref ((inc ^^ i) first)) [0..<n])"
  using range_for_from [of 0] by simp

end

lemma row_it_inc_pow: "(row_it_inc ^^ k) it = it\<lparr>rit_col := rit_col it + int k\<rparr>"
  by (induction k) (simp_all add: row_it_inc_def)

lemma result_it_inc_pow: "(result_it_inc ^^ k) it = it\<lparr>it_row := it_row it + int k\<rparr>"
  by (induction k) (simp_all add: result_it_inc_def)

interpretation row_range: iterator_range row_it_inc row_it_deref "row_begin r" "row_end A r" "row_size A r"
  "row_size A r < 2 ^ 31" for A r
  by unfold_locales (auto simp: row_it_inc_pow row_begin_def row_end_def to_int_small)

interpretation result_range: iterator_range result_it_inc result_it_deref "result_begin res" "result_end A res"
  "result_size A res" "result_size A res < 2 ^ 31" for A res
  by unfold_locales (auto simp: result_it_inc_pow result_begin_def result_end_def to_int_small)

declare field_oid_def [view_simps] and field_data_def [view_simps] and field_size_def [view_simps]
  and row_size_def [view_simps] and row_nth_def [view_simps] and row_at_def [view_simps]
  and result_size_def [view_simps] and result_nth_def [view_simps] and result_at_def [view_simps]

subsection \<open>Access by index\<close>

text \<open>libpq documents the counts as numbers of tuples and of fields, held in an \<open>int\<close>.\<close>

definition counts_ok :: "'r result_api \<Rightarrow> bool" where
  "counts_ok A \<longleftrightarrow> (\<forall>r. 0 \<le> PQntuples A r \<and> PQntuples A r < 2 ^ 31 \<and>
     0 \<le> PQnfields A r \<and> PQnfields A r < 2 ^ 31)"

definition is_int32 :: "int \<Rightarrow> bool" where
  "is_int32 i \<longleftrightarrow> - (2 ^ 31) \<le> i \<and> i < 2 ^ 31"

lemma to_size_t_nonneg: "0 \<le> i \<Longrightarrow> i < 2 ^ 31 \<Longrightarrow> to_size_t i = nat i"
  by (simp add: to_size_t_def)

lemma to_size_t_negative: "- (2 ^ 31) \<le> i \<Longrightarrow> i < 0 \<Longrightarrow> 2 ^ 63 \<le> to_size_t i"
proof -
  assume i: "- (2 ^ 31) \<le> i" "i < 0"
  then have "i mod 2 ^ 64 = 2 ^ 64 + i" by (intro int_mod_pos_eq [where q = "-1"]) simp_all
  with i show "2 ^ 63 \<le> to_size_t i" by (simp add: to_size_t_def le_nat_iff)
qed

lemma to_size_t_less_iff:
  assumes "is_int32 i" and "0 \<le> n" and "n < 2 ^ 31"
  shows "to_size_t i < to_size_t n \<longleftrightarrow> 0 \<le> i \<and> i < n"
proof (cases "0 \<le> i")
  case True
  with assms show ?thesis by (auto simp: is_int32_def to_size_t_nonneg)
next
  case False
  with assms have "2 ^ 63 \<le> to_size_t i" and "to_size_t n < 2 ^ 31"
    using to_size_t_negative [of i] by (auto simp: is_int32_def to_size_t_nonneg nat_less_iff)
  with False show ?thesis by simp
qed

lemma result_at_eq:
  "counts_ok A \<Longrightarrow> is_int32 i \<Longrightarrow>
   result_at A res i = (if 0 \<le> i \<and> i < PQntuples A res then Inr (result_nth res i) else Inl (Throw OutOfRange))"
  by (simp add: result_at_def result_size_def counts_ok_def to_size_t_less_iff)

lemma row_at_eq:
  "counts_ok A \<Longrightarrow> is_int32 i \<Longrightarrow>
   row_at A r i = (if 0 \<le> i \<and> i < PQnfields A (row_result r) then Inr (row_nth r i) else Inl (Throw OutOfRange))"
  by (simp add: row_at_def row_size_def counts_ok_def to_size_t_less_iff)

lemma result_size_eq: "counts_ok A \<Longrightarrow> result_size A res = nat (PQntuples A res)"
  by (simp add: result_size_def counts_ok_def to_size_t_nonneg)

lemma row_size_eq: "counts_ok A \<Longrightarrow> row_size A r = nat (PQnfields A (row_result r))"
  by (simp add: row_size_def counts_ok_def to_size_t_nonneg)

lemma as_fields_Inr_iff:
  "as_fields A r i ts = Inr vs \<longleftrightarrow>
     length vs = length ts \<and>
     (\<forall>k < length ts. \<exists>f. row_at A r (i + int k) = Inr f \<and> as_field A (ts ! k) f = Inr (vs ! k))"
proof (induction ts arbitrary: i vs)
  case (Cons t ts)
  then show ?case by (cases vs) (auto simp: sbind_Inr_iff All_less_Suc2 add.assoc)
qed auto

subsection \<open>A concrete result\<close>

text \<open>
  A table with named and typed columns, with the functions of libpq as they are documented for a
  received result: a value is followed by a zero octet, and NULL reads as the empty string.
\<close>

record table =
  columns :: "(string \<times> oid) list"
  cells :: "byte list option list list"

definition cell :: "table option \<Rightarrow> int \<Rightarrow> int \<Rightarrow> byte list option" where
  "cell r i j =
     (case r of None \<Rightarrow> None
      | Some t \<Rightarrow>
          if 0 \<le> i \<and> nat i < length (cells t) \<and> 0 \<le> j \<and> nat j < length (cells t ! nat i)
          then cells t ! nat i ! nat j else None)"

definition table_api :: "table result_api" where
  "table_api =
     \<lparr>PQntuples = (\<lambda>r. case r of None \<Rightarrow> 0 | Some t \<Rightarrow> min (int (length (cells t))) (2 ^ 31 - 1)),
      PQnfields = (\<lambda>r. case r of None \<Rightarrow> 0 | Some t \<Rightarrow> min (int (length (columns t))) (2 ^ 31 - 1)),
      PQftype = (\<lambda>r j. case r of None \<Rightarrow> 0
         | Some t \<Rightarrow> if 0 \<le> j \<and> nat j < length (columns t) then snd (columns t ! nat j) else 0),
      PQfname = (\<lambda>r j. case r of None \<Rightarrow> []
         | Some t \<Rightarrow> if 0 \<le> j \<and> nat j < length (columns t) then fst (columns t ! nat j) else []),
      PQfnumber = (\<lambda>r n. case r of None \<Rightarrow> -1
         | Some t \<Rightarrow>
             (case find (\<lambda>j. fst (columns t ! j) = n) [0..<length (columns t)] of
                None \<Rightarrow> -1 | Some j \<Rightarrow> int j)),
      PQgetvalue = (\<lambda>r i j. case cell r i j of None \<Rightarrow> [0] | Some bs \<Rightarrow> bs @ [0]),
      PQgetlength = (\<lambda>r i j. case cell r i j of None \<Rightarrow> 0 | Some bs \<Rightarrow> int (length bs)),
      PQgetisnull = (\<lambda>r i j. case cell r i j of None \<Rightarrow> 1 | Some bs \<Rightarrow> 0),
      PQresultStatus = (\<lambda>r. if r = None then PGRES_FATAL_ERROR else PGRES_TUPLES_OK),
      PQresultSqlstate = (\<lambda>r. None),
      PQresultErrorMessage = (\<lambda>r. [])\<rparr>"

lemma table_counts_ok: "counts_ok table_api"
  by (auto simp: counts_ok_def table_api_def split: option.split)

definition actors :: table where
  "actors = \<lparr>columns = [(''name'', 25), (''age'', 23)],
     cells = [[Some [74, 97, 110], Some [0, 0, 0, 32]], [Some [66, 111], None]]\<rparr>"

lemma actors_simps:
  "PQntuples table_api (Some actors) = 2" "PQnfields table_api (Some actors) = 2"
  "PQftype table_api (Some actors) 0 = 25" "PQftype table_api (Some actors) 1 = 23"
  "PQgetvalue table_api (Some actors) 0 1 = [0, 0, 0, 32, 0]" "PQgetlength table_api (Some actors) 0 1 = 4"
  "PQgetvalue table_api (Some actors) 1 1 = [0]" "PQgetlength table_api (Some actors) 1 1 = 0"
  by (simp_all add: table_api_def actors_def cell_def)

subsection \<open>Properties\<close>

text \<open>
  \<open>result::at\<close> gives the row exactly for the indices from 0 to the number of rows and throws
  otherwise: the conversion to \<open>size_t\<close> makes the single comparison refuse negative indices too.
\<close>

theorem result_at_checked:
  assumes "counts_ok A" and "is_int32 i"
  shows "result_at A res i =
    (if 0 \<le> i \<and> i < PQntuples A res then Inr \<lparr>row_result = res, row_index = i\<rparr> else Inl (Throw OutOfRange))"
  using result_at_eq [OF assms] by (simp add: result_nth_def)

theorem result_at_checked_witness:
  "result_at table_api (Some actors) 1 = Inr \<lparr>row_result = Some actors, row_index = 1\<rparr> \<and>
   result_at table_api (Some actors) 2 = Inl (Throw OutOfRange) \<and>
   result_at table_api (Some actors) (-1) = Inl (Throw OutOfRange)"
  using result_at_checked [OF table_counts_ok, of 1 "Some actors"]
    result_at_checked [OF table_counts_ok, of 2 "Some actors"]
    result_at_checked [OF table_counts_ok, of "-1" "Some actors"]
  by (simp add: is_int32_def actors_simps)

text \<open>
  Iterating over a result ends, and visits exactly the rows that \<open>at\<close> gives, in order.
\<close>

theorem result_iteration:
  assumes "counts_ok A"
  shows "\<exists>rows. range_for result_it_inc result_it_deref (result_begin res) (result_end A res) = Some rows \<and>
    int (length rows) = PQntuples A res \<and>
    (\<forall>k < length rows. result_at A res (int k) = Inr (rows ! k))"
proof -
  let ?n = "result_size A res"
  let ?rows = "map (\<lambda>i. result_it_deref ((result_it_inc ^^ i) (result_begin res))) [0..<?n]"
  have n: "int ?n = PQntuples A res" "?n < 2 ^ 31"
    using assms by (auto simp: result_size_eq counts_ok_def nat_less_iff)
  have "result_at A res (int k) = Inr (?rows ! k)" if "k < ?n" for k
    using that n assms
    by (simp add: result_at_eq is_int32_def result_it_inc_pow result_begin_def result_it_deref_def result_nth_def)
  then show ?thesis using result_range.range_for_visits [where res = res and A = A] n by auto
qed

theorem result_iteration_witness:
  "\<exists>rows. range_for result_it_inc result_it_deref (result_begin (Some actors)) (result_end table_api (Some actors)) =
     Some rows \<and> length rows = 2"
  using result_iteration [OF table_counts_ok, of "Some actors"] by (auto simp: actors_simps)

text \<open>Iterating over a row ends, and visits exactly the fields that \<open>at\<close> gives, in order.\<close>

theorem row_iteration:
  assumes "counts_ok A"
  shows "\<exists>fields. range_for row_it_inc row_it_deref (row_begin r) (row_end A r) = Some fields \<and>
    int (length fields) = PQnfields A (row_result r) \<and>
    (\<forall>k < length fields. row_at A r (int k) = Inr (fields ! k))"
proof -
  let ?n = "row_size A r"
  let ?fs = "map (\<lambda>i. row_it_deref ((row_it_inc ^^ i) (row_begin r))) [0..<?n]"
  have n: "int ?n = PQnfields A (row_result r)" "?n < 2 ^ 31"
    using assms by (auto simp: row_size_eq counts_ok_def nat_less_iff)
  have "row_at A r (int k) = Inr (?fs ! k)" if "k < ?n" for k
    using that n assms
    by (simp add: row_at_eq is_int32_def row_it_inc_pow row_begin_def row_it_deref_def row_nth_def)
  then show ?thesis using row_range.range_for_visits [where r = r and A = A] n by auto
qed

theorem row_iteration_witness:
  "\<exists>fields. range_for row_it_inc row_it_deref (row_begin \<lparr>row_result = Some actors, row_index = 0\<rparr>)
     (row_end table_api \<lparr>row_result = Some actors, row_index = 0\<rparr>) = Some fields \<and> length fields = 2"
  using row_iteration [OF table_counts_ok, of "\<lparr>row_result = Some actors, row_index = 0\<rparr>"]
  by (auto simp: actors_simps)

text \<open>
  C38: converting a row to several types succeeds exactly when every type converts the field at its
  position, and gives the tuple of these values; asking for more types than the row has fields fails.
\<close>

theorem as_row_exact:
  assumes "2 \<le> length ts"
  shows "(as_row A ts r = Inr v \<longleftrightarrow>
      (\<exists>vs. v = TupVal vs \<and> length vs = length ts \<and>
        (\<forall>k < length ts. \<exists>f. row_at A r (int k) = Inr f \<and> as_field A (ts ! k) f = Inr (vs ! k)))) \<and>
    (counts_ok A \<and> length ts < 2 ^ 31 \<and> PQnfields A (row_result r) < int (length ts) \<longrightarrow>
      (\<exists>e. as_row A ts r = Inl e))"
proof -
  obtain t u us where ts: "ts = t # u # us" using assms by (cases ts; cases "tl ts") auto
  then have run: "as_row A ts r = sbind (as_fields A r 0 ts) (\<lambda>vs. Inr (TupVal vs))"
    by (simp add: as_row_def del: as_fields.simps)
  have exact: "as_row A ts r = Inr v \<longleftrightarrow>
      (\<exists>vs. v = TupVal vs \<and> length vs = length ts \<and>
        (\<forall>k < length ts. \<exists>f. row_at A r (int k) = Inr f \<and> as_field A (ts ! k) f = Inr (vs ! k)))" for v
    by (auto simp: run sbind_Inr_iff as_fields_Inr_iff)
  moreover have "\<exists>e. as_row A ts r = Inl e"
    if few: "counts_ok A" "length ts < 2 ^ 31" "PQnfields A (row_result r) < int (length ts)"
  proof (cases "as_row A ts r")
    case (Inr v)
    let ?k = "length ts - 1"
    have "?k < length ts" using assms by simp
    moreover from Inr exact [of v] obtain vs where
      "\<forall>k < length ts. \<exists>f. row_at A r (int k) = Inr f \<and> as_field A (ts ! k) f = Inr (vs ! k)" by blast
    ultimately obtain f where "row_at A r (int ?k) = Inr f" by blast
    moreover have "is_int32 (int ?k)" using few(2) by (simp add: is_int32_def)
    ultimately show ?thesis using few assms by (simp add: row_at_eq split: if_splits)
  qed simp
  ultimately show ?thesis by blast
qed

theorem as_row_exact_witness:
  "\<exists>e. as_row table_api [Scalar String, Scalar Int32, Scalar Int32] \<lparr>row_result = Some actors, row_index = 0\<rparr> = Inl e"
  using as_row_exact [of "[Scalar String, Scalar Int32, Scalar Int32]" table_api
      "\<lparr>row_result = Some actors, row_index = 0\<rparr>"] table_counts_ok
  by (simp add: actors_simps)

text \<open>
  C39: the conversion of a field does not look at NULL. With the empty string that libpq gives for
  NULL, an integer is read from outside the value, a truth value is read as false and a text as the
  empty text.
\<close>

theorem as_field_null:
  assumes "field_data A f = [0]" and "field_size A f = 0"
  shows "(field_oid A f = 23 \<longrightarrow> as_field A (Scalar Int32) f = Inl (Undefined ReadOutOfBounds)) \<and>
    (field_oid A f = 16 \<longrightarrow> as_field A (Scalar Bool) f = Inr (SVal (VBool False))) \<and>
    (field_oid A f = 25 \<longrightarrow> as_field A (Scalar String) f = Inr (SVal (VString [])))"
  using assms load_int_byte [of 0 "[]" 0]
  by (simp add: as_field_def oids_of_builtin_def span_chars_def)
    (simp add: load_int_def)

theorem as_field_null_witness:
  "as_field table_api (Scalar Int32) \<lparr>field_result = Some actors, field_row = 1, field_col = 1\<rparr> =
     Inl (Undefined ReadOutOfBounds)"
  using as_field_null [of table_api "\<lparr>field_result = Some actors, field_row = 1, field_col = 1\<rparr>"]
  by (simp add: view_simps actors_simps to_size_t_def)

text \<open>A field that carries the octets and the type of a serialized value converts back to that value.\<close>

lemma as_field_reads:
  assumes "wf_val v" and "decodable (ty_of v)" and "encode omp v = Inr bs" and "length bs < 2 ^ 31"
    and "oid_of omp (ty_of v) = Inr (field_oid A f)"
    and "field_data A f = bs @ tail" and "field_size A f = length bs"
  shows "as_field A (ty_of v) f = Inr (norm v)"
proof -
  obtain e where "static_oid (ty_of v) = Inr e" "e = 0 \<or> e = field_oid A f"
    using static_oid_accepts [OF assms(5)] by blast
  with roundtrip [OF assms(1-4)] assms(6,7) show ?thesis by (auto simp: as_field_def)
qed

text \<open>
  The type of a field is not checked against a user-defined type: whatever its object identifier,
  two user-defined types with the same members accept the same fields.
\<close>

theorem as_field_user_defined_unchecked:
  "as_field A (UserDefined n i ts) f = Inr (UdtVal n i vs) \<longleftrightarrow>
   as_field A (UserDefined m j ts) f = Inr (UdtVal m j vs)"
  by (auto simp: as_field_def sbind_Inr_iff)

end
