(* ===== verification/ExtractUdts.thy ===== *)
theory ExtractUdts
  imports PgTypes
begin

text \<open>
  Collecting the user-defined types of a parameter whose object identifiers are not known yet
  (include/psql/detail/extract_new_udts.hpp, udt_pair.hpp).
\<close>

record udt_pair =
  udt_name :: string
  type_index :: nat

fun extract_new_udts :: "oid_map \<Rightarrow> ty \<Rightarrow> udt_pair list \<Rightarrow> udt_pair list"
  and extract_members :: "oid_map \<Rightarrow> ty list \<Rightarrow> udt_pair list \<Rightarrow> udt_pair list" where
  "extract_new_udts omp (Scalar s) new_udts = new_udts"
| "extract_new_udts omp (Vector t) new_udts = extract_new_udts omp t new_udts"
| "extract_new_udts omp (StdArray n t) new_udts = extract_new_udts omp t new_udts"
| "extract_new_udts omp (Tuple ts) new_udts = extract_members omp ts new_udts"
| "extract_new_udts omp (UserDefined name index ts) new_udts =
     extract_members omp ts
       (if omp index = None then new_udts @ [\<lparr>udt_name = name, type_index = index\<rparr>] else new_udts)"
| "extract_members omp [] new_udts = new_udts"
| "extract_members omp (t # ts) new_udts = extract_members omp ts (extract_new_udts omp t new_udts)"

definition indices :: "udt_pair list \<Rightarrow> nat set" where
  "indices us = type_index ` set us"

lemma indices_simps [simp]:
  "indices [] = {}"
  "indices (us @ vs) = indices us \<union> indices vs"
  "indices [u] = {type_index u}"
  by (auto simp: indices_def)

lemma extract_indices:
  "indices (extract_new_udts omp t us) = indices us \<union> (udts t - dom omp)"
  "indices (extract_members omp ts us) = indices us \<union> ((\<Union>t \<in> set ts. udts t) - dom omp)"
  by (induction omp t us and omp ts us rule: extract_new_udts_extract_members.induct) auto

lemma extract_appends:
  "\<exists>new. extract_new_udts omp t us = us @ new"
  "\<exists>new. extract_members omp ts us = us @ new"
  by (induction omp t us and omp ts us rule: extract_new_udts_extract_members.induct) (auto split: if_splits)

lemma extract_members_acc:
  "(\<And>t us. t \<in> set ts \<Longrightarrow> extract_new_udts omp t us = us @ extract_new_udts omp t []) \<Longrightarrow>
   extract_members omp ts us = us @ extract_members omp ts []"
proof (induction ts arbitrary: us)
  case (Cons t ts)
  have t: "extract_new_udts omp t us = us @ extract_new_udts omp t []"
    by (rule Cons.prems) simp
  have ts: "extract_members omp ts vs = vs @ extract_members omp ts []" for vs
    by (rule Cons.IH) (rule Cons.prems, simp)
  show ?case using ts [of "extract_new_udts omp t us"] ts [of "extract_new_udts omp t []"] t by simp
qed simp

lemma extract_new_udts_acc: "extract_new_udts omp t us = us @ extract_new_udts omp t []"
proof (induction t arbitrary: us)
  case (UserDefined name index ts)
  have "extract_members omp ts vs = vs @ extract_members omp ts []" for vs
    by (rule extract_members_acc) (rule UserDefined.IH)
  from this [of "us @ [_]"] this [of us] this [of "[_]"] show ?case by simp
next
  case (Vector t)
  show ?case unfolding extract_new_udts.simps by (rule Vector.IH)
next
  case (StdArray n t)
  show ?case unfolding extract_new_udts.simps by (rule StdArray.IH)
next
  case (Tuple ts)
  show ?case unfolding extract_new_udts.simps by (rule extract_members_acc) (rule Tuple.IH)
qed simp

lemma extract_members_new:
  "\<exists>new. extract_members omp ts us = us @ new \<and> indices new = (\<Union>t \<in> set ts. udts t) - dom omp"
  using extract_members_acc [OF extract_new_udts_acc, of omp ts] extract_indices(2) [of omp ts "[]"] by (metis indices_simps(1) sup_bot_left)

lemma extract_members_appends: "set us \<subseteq> set (extract_members omp ts us)"
  using extract_appends(2) [of omp ts us] by auto

text \<open>What a map knows is left out of what is collected without a map.\<close>

definition unknown :: "oid_map \<Rightarrow> udt_pair \<Rightarrow> bool" where
  "unknown omp u \<longleftrightarrow> omp (type_index u) = None"

lemma extract_members_filter:
  "(\<And>t us. t \<in> set ts \<Longrightarrow>
      extract_new_udts omp t (filter (unknown omp) us) = filter (unknown omp) (extract_new_udts Map.empty t us)) \<Longrightarrow>
   extract_members omp ts (filter (unknown omp) us) = filter (unknown omp) (extract_members Map.empty ts us)"
  by (induction ts arbitrary: us) simp_all

lemma extract_new_udts_filter:
  "extract_new_udts omp t (filter (unknown omp) us) = filter (unknown omp) (extract_new_udts Map.empty t us)"
proof (induction t arbitrary: us)
  case (UserDefined name index ts)
  let ?new = "us @ [\<lparr>udt_name = name, type_index = index\<rparr>]"
  have "extract_members omp ts (filter (unknown omp) ?new) = filter (unknown omp) (extract_members Map.empty ts ?new)"
    by (rule extract_members_filter) (rule UserDefined.IH)
  moreover have "unknown omp \<lparr>udt_name = name, type_index = index\<rparr> \<longleftrightarrow> omp index = None"
    by (simp add: unknown_def)
  moreover have "extract_members omp ts (filter (unknown omp) us) = filter (unknown omp) (extract_members Map.empty ts us)"
    by (rule extract_members_filter) (rule UserDefined.IH)
  ultimately show ?case
    by (cases "omp index") (simp_all only: extract_new_udts.simps filter_append filter.simps if_True if_False append_Nil2
        option.distinct refl)
next
  case (Tuple ts)
  show ?case unfolding extract_new_udts.simps by (rule extract_members_filter) (rule Tuple.IH)
next
  case (Vector t)
  show ?case unfolding extract_new_udts.simps by (rule Vector.IH)
next
  case (StdArray n t)
  show ?case unfolding extract_new_udts.simps by (rule StdArray.IH)
qed simp

lemma extract_members_unknown: "extract_members omp ts [] = filter (unknown omp) (extract_members Map.empty ts [])"
  using extract_members_filter [OF extract_new_udts_filter, where ts = ts and omp = omp and us = "[]"]
  by (simp only: filter.simps)

text \<open>
  C30: the extraction is exact: beside what was there, it collects exactly the user-defined types
  that occur in the type of the parameter, at any depth, and are not registered, and it only appends.
\<close>

theorem extract_new_udts_exact:
  "indices (extract_new_udts omp t us) = indices us \<union> (udts t - dom omp) \<and>
   (\<exists>new. extract_new_udts omp t us = us @ new)"
  by (simp add: extract_indices(1) extract_appends(1))

end
