(* ===== verification/Connection.thy ===== *)
theory Connection
  imports ResultView ExtractUdts Base36
begin

text \<open>
  The asynchronous operations of a connection (include/psql/connection.hpp). Every operation of the
  code is a composed operation whose handler is re-entered when what it waits for completes; the
  model runs the handler in direct style: a suspension point is a call of the environment that gives
  back the completion. The environment, libpq with the connection to the server and the waits of
  Asio, is a parameter: functions over an abstract world that holds the \<open>PGconn\<close>, the network and
  everything that runs while an operation is suspended. None is an operation that never completes.
\<close>

subsection \<open>The environment\<close>

datatype conn_status = CONNECTION_OK | CONNECTION_BAD | CONNECTION_IN_PROGRESS

datatype poll_status =
  PGRES_POLLING_FAILED | PGRES_POLLING_READING | PGRES_POLLING_WRITING | PGRES_POLLING_OK | PGRES_POLLING_ACTIVE

record notify =
  be_pid :: int
  relname :: string
  extra :: string

text \<open>
  The parameters of a query as libpq receives them: types, what it finds behind the pointers (None
  for a pointer that dangles), lengths and formats.
\<close>

record query_params =
  qp_types :: "oid list"
  qp_octets :: "byte list option list"
  qp_lengths :: "32 word list"
  qp_formats :: "int list"

record ('w, 'r) env =
  results :: "'r result_api"
  PQconnectStart :: "string \<Rightarrow> 'w \<Rightarrow> 'w"
  PQstatus :: "'w \<Rightarrow> conn_status"
  PQsetnonblocking :: "int \<Rightarrow> 'w \<Rightarrow> int \<times> 'w"
  PQsetNoticeProcessor :: "'w \<Rightarrow> 'w"
  PQsocket :: "'w \<Rightarrow> int"
  PQconnectPoll :: "'w \<Rightarrow> poll_status \<times> 'w"
  PQenterPipelineMode :: "'w \<Rightarrow> int \<times> 'w"
  PQexitPipelineMode :: "'w \<Rightarrow> int \<times> 'w"
  PQpipelineSync :: "'w \<Rightarrow> int \<times> 'w"
  PQsendQueryParams :: "string \<Rightarrow> query_params \<Rightarrow> 'w \<Rightarrow> int \<times> 'w"
  PQsendPrepare :: "string \<Rightarrow> string \<Rightarrow> 'w \<Rightarrow> int \<times> 'w"
  PQsendQueryPrepared :: "string \<Rightarrow> query_params \<Rightarrow> 'w \<Rightarrow> int \<times> 'w"
  PQsendDescribePrepared :: "string \<Rightarrow> 'w \<Rightarrow> int \<times> 'w"
  PQsendDescribePortal :: "string \<Rightarrow> 'w \<Rightarrow> int \<times> 'w"
  PQflush :: "'w \<Rightarrow> int \<times> 'w"
  PQconsumeInput :: "'w \<Rightarrow> int \<times> 'w"
  PQisBusy :: "'w \<Rightarrow> int \<times> 'w"
  PQgetResult :: "'w \<Rightarrow> 'r option \<times> 'w"
  PQnotifies :: "'w \<Rightarrow> notify option \<times> 'w"
  socket_assign :: "int \<Rightarrow> 'w \<Rightarrow> error_code \<times> 'w"
  wait_read :: "int \<Rightarrow> 'w \<Rightarrow> error_code \<times> 'w"
  wait_write :: "int \<Rightarrow> 'w \<Rightarrow> error_code \<times> 'w"
  wait_either :: "int \<Rightarrow> 'w \<Rightarrow> (bool \<times> error_code \<times> error_code) \<times> 'w"
  wait_notification :: "int \<Rightarrow> 'w \<Rightarrow> (error_code \<times> bool) \<times> 'w"
  operation_aborted :: error_code
  post :: "'w \<Rightarrow> 'w"
  emit_terminal :: "'w \<Rightarrow> 'w"

text \<open>
  \<open>wait_either\<close> is the parallel group of a write wait and a read wait: whether the read wait
  completed first, and the error codes of both. \<open>wait_notification\<close> is the read wait bound to the
  cancellation slot of notifications: its error code, and whether the operation itself was
  cancelled. \<open>emit_terminal\<close> emits the signal that ends such a wait.
\<close>

subsection \<open>The connection\<close>

record 'w conn =
  pgconn :: 'w
  socket :: int
  conn_oids :: oid_map
  new_udts :: "udt_pair list"
  buffer :: buf

type_synonym ('a, 'w) io = "('a \<times> 'w conn) option"

abbreviation err :: "error \<Rightarrow> error_code" where
  "err \<equiv> make_error_code"

definition result_status_to_error_code :: "('w, 'r) env \<Rightarrow> 'r result \<Rightarrow> error_code" where
  "result_status_to_error_code E res =
     (case PQresultStatus (results E) res of
        PGRES_SINGLE_TUPLE \<Rightarrow> no_error
      | PGRES_TUPLES_OK \<Rightarrow> no_error
      | PGRES_COMMAND_OK \<Rightarrow> no_error
      | PGRES_BAD_RESPONSE \<Rightarrow> err result_status_bad_response
      | PGRES_EMPTY_QUERY \<Rightarrow> err result_status_empty_query
      | PGRES_FATAL_ERROR \<Rightarrow>
          (case PQresultSqlstate (results E) res of
             Some e \<Rightarrow> sqlstate_error_code e
           | None \<Rightarrow> err result_status_fatal_error)
      | PGRES_PIPELINE_ABORTED \<Rightarrow> err result_status_pipeline_aborted
      | _ \<Rightarrow> err result_status_unexpected)"

subsection \<open>Connecting\<close>

partial_function (option) connect_poll :: "('w, 'r) env \<Rightarrow> 'w conn \<Rightarrow> (error_code, 'w) io" where
  "connect_poll E s =
     (case PQconnectPoll E (pgconn s) of (ret, w) \<Rightarrow>
        if ret = PGRES_POLLING_READING then
          (case wait_read E (socket s) w of (ec, w') \<Rightarrow>
             if failed ec then Some (ec, s\<lparr>pgconn := w'\<rparr>) else connect_poll E (s\<lparr>pgconn := w'\<rparr>))
        else if ret = PGRES_POLLING_WRITING then
          (case wait_write E (socket s) w of (ec, w') \<Rightarrow>
             if failed ec then Some (ec, s\<lparr>pgconn := w'\<rparr>) else connect_poll E (s\<lparr>pgconn := w'\<rparr>))
        else if ret = PGRES_POLLING_FAILED then Some (err connection_failed, s\<lparr>pgconn := post E w\<rparr>)
        else Some (no_error, s\<lparr>pgconn := w\<rparr>))"

definition async_connect :: "('w, 'r) env \<Rightarrow> string \<Rightarrow> 'w conn \<Rightarrow> (error_code res, 'w) io" where
  "async_connect E conninfo s =
     (let w = PQconnectStart E conninfo (pgconn s) in
      if PQstatus E w = CONNECTION_BAD
      then Some (Inr (err pq_connect_start_failed), s\<lparr>pgconn := post E w\<rparr>)
      else
        (case PQsetnonblocking E 1 w of (ret, w1) \<Rightarrow>
         if ret \<noteq> 0
         then Some (Inr (err pq_set_non_blocking_failed), s\<lparr>pgconn := post E w1\<rparr>)
         else
           (let w2 = PQsetNoticeProcessor E w1; fd = PQsocket E w2 in
            case socket_assign E fd w2 of (ec, w3) \<Rightarrow>
              if failed ec then Some (Inl (Throw (SystemError ec)), s\<lparr>pgconn := w3\<rparr>)
              else do {
                (ec, s') \<leftarrow> connect_poll E (s\<lparr>pgconn := w3, socket := fd\<rparr>);
                Some (Inr ec, s')
              })))"

subsection \<open>Sending and receiving\<close>

text \<open>
  The handler of \<open>async_flush\<close>: \<open>read_first\<close> is the order in which the two waits completed; the
  first call has the default arguments.
\<close>

partial_function (option) flush_handler ::
  "('w, 'r) env \<Rightarrow> bool \<Rightarrow> error_code \<Rightarrow> error_code \<Rightarrow> 'w conn \<Rightarrow> (error_code, 'w) io" where
  "flush_handler E read_first ec1 ec2 s =
     (if read_first then
        if failed ec2 then Some (ec2, s)
        else
          (case PQconsumeInput E (pgconn s) of (ret, w) \<Rightarrow>
             if ret = 0 then Some (err pq_consume_input_failed, s\<lparr>pgconn := w\<rparr>)
             else
               (case wait_either E (socket s) w of ((r, e1, e2), w') \<Rightarrow>
                  flush_handler E r e1 e2 (s\<lparr>pgconn := w'\<rparr>)))
      else
        if failed ec1 then Some (ec1, s)
        else
          (case PQflush E (pgconn s) of (ret, w) \<Rightarrow>
             if ret = -1 then Some (err pq_flush_failed, s\<lparr>pgconn := w\<rparr>)
             else if ret = 0 then Some (no_error, s\<lparr>pgconn := w\<rparr>)
             else
               (case wait_either E (socket s) w of ((r, e1, e2), w') \<Rightarrow>
                  flush_handler E r e1 e2 (s\<lparr>pgconn := w'\<rparr>))))"

definition async_flush :: "('w, 'r) env \<Rightarrow> 'w conn \<Rightarrow> (error_code, 'w) io" where
  "async_flush E s = flush_handler E False no_error no_error s"

partial_function (option) receive_loop ::
  "('w, 'r) env \<Rightarrow> bool \<Rightarrow> 'w conn \<Rightarrow> (error_code \<times> 'r result, 'w) io" where
  "receive_loop E needs_rescheduling s =
     (case PQisBusy E (pgconn s) of (busy, w) \<Rightarrow>
        if busy \<noteq> 0 then
          (case wait_read E (socket s) w of (ec, w1) \<Rightarrow>
             if failed ec then Some ((ec, None), s\<lparr>pgconn := w1\<rparr>)
             else
               (case PQconsumeInput E w1 of (ret, w2) \<Rightarrow>
                  if ret = 0 then Some ((err pq_consume_input_failed, None), s\<lparr>pgconn := w2\<rparr>)
                  else receive_loop E False (s\<lparr>pgconn := w2\<rparr>)))
        else
          (case PQgetResult E (if needs_rescheduling then post E w else w) of (res, w1) \<Rightarrow>
             Some ((no_error, res), s\<lparr>pgconn := w1\<rparr>)))"

definition async_receive_result :: "('w, 'r) env \<Rightarrow> 'w conn \<Rightarrow> (error_code \<times> 'r result, 'w) io" where
  "async_receive_result E s = receive_loop E True s"

definition async_generic_single_result_query ::
  "('w, 'r) env \<Rightarrow> 'w conn \<Rightarrow> (error_code \<times> 'r result, 'w) io" where
  "async_generic_single_result_query E s = do {
     (ec, s) \<leftarrow> async_flush E s;
     if failed ec then Some ((ec, None), s) else do {
     ((ec, stored_result), s) \<leftarrow> async_receive_result E s;
     if failed ec then Some ((ec, None), s) else do {
     ((ec, result), s) \<leftarrow> async_receive_result E s;
     if failed ec then Some ((ec, None), s)
     else if result \<noteq> None then Some ((err unexpected_non_null_result, None), s)
     else Some ((result_status_to_error_code E stored_result, stored_result),
                s\<lparr>pgconn := emit_terminal E (pgconn s)\<rparr>) }}}"

text \<open>
  The arrays of a parameter list as libpq reads them: the octets behind each pointer, as many as the
  length says, in the buffer as it is when the call is made.
\<close>

definition sent_params :: "buf \<Rightarrow> send_args \<Rightarrow> query_params" where
  "sent_params b a =
     \<lparr>qp_types = param_types a,
      qp_octets = map2 (\<lambda>p l. read_at b p (unat l)) (param_values a) (param_lengths a),
      qp_lengths = param_lengths a,
      qp_formats = param_formats a\<rparr>"

subsection \<open>Object identifiers of user-defined types\<close>

text \<open>The text is the concatenation of the adjacent string literals.\<close>

definition query_oids_text :: string where
  "query_oids_text =
     ''SELECT'' @
     ''  COALESCE(to_regtype(type_name)::oid, - 1),'' @
     ''  COALESCE(to_regtype(type_name || '[]')::oid, - 1)'' @
     ''FROM'' @
     ''  UNNEST($1) As type_name''"

text \<open>\<open>std::map::emplace\<close> keeps the value of a key that is there.\<close>

definition emplace :: "nat \<Rightarrow> oid_pair \<Rightarrow> oid_map \<Rightarrow> oid_map" where
  "emplace i p omp = (if omp i = None then omp(i \<mapsto> p) else omp)"

fun register_rows ::
  "'r result_api \<Rightarrow> 'r result \<Rightarrow> udt_pair list \<Rightarrow> nat list \<Rightarrow> oid_map \<Rightarrow> error_code res \<times> oid_map" where
  "register_rows A res us [] omp = (Inr no_error, omp)"
| "register_rows A res us (i # is) omp =
     (case sbind (result_at A res (int i)) (as_row A [Scalar UInt32, Scalar UInt32]) of
        Inl e \<Rightarrow> (Inl e, omp)
      | Inr (TupVal [SVal (VUInt32 type_oid), SVal (VUInt32 array_oid)]) \<Rightarrow>
          if type_oid = 0xFFFFFFFF \<or> array_oid = 0xFFFFFFFF
          then (Inr (err user_defined_type_does_not_exist), omp)
          else if i < length us
          then register_rows A res us is
                 (emplace (type_index (us ! i)) \<lparr>single = type_oid, array = array_oid\<rparr> omp)
          else (Inl (Throw OutOfRange), omp)
      | Inr _ \<Rightarrow> (Inl IllFormed, omp))"

text \<open>
  An exception that leaves a handler is the failure of the operation: it leaves the initiating
  function when it is thrown before the first suspension, and otherwise the function that runs the
  handlers, and the operation does not complete.
\<close>

definition name_value :: "string \<Rightarrow> val" where
  "name_value name = SVal (VStringView (map of_char name))"

definition async_query_oids :: "('w, 'r) env \<Rightarrow> 'w conn \<Rightarrow> (error_code res, 'w) io" where
  "async_query_oids E s =
     (let new_udt_names = VecVal (Scalar StringView) (map (name_value \<circ> udt_name) (new_udts s))
      in case serialize_params (conn_oids s) (buffer s) [new_udt_names] of
           (Inl e, b) \<Rightarrow> Some (Inl e, s\<lparr>buffer := b\<rparr>)
         | (Inr a, b) \<Rightarrow>
             (case PQsendQueryParams E query_oids_text (sent_params b a) (pgconn s) of (ret, w) \<Rightarrow>
                if ret = 0
                then Some (Inr (err pq_send_query_params_failed), s\<lparr>buffer := b, pgconn := w\<rparr>)
                else do {
                  ((ec, res), s) \<leftarrow> async_generic_single_result_query E (s\<lparr>buffer := b, pgconn := w\<rparr>);
                  if failed ec then Some (Inr ec, s)
                  else
                    (let ec = result_status_to_error_code E res in
                     if failed ec then Some (Inr ec, s)
                     else
                       (case register_rows (results E) res (new_udts s) [0..<result_size (results E) res]
                               (conn_oids s) of
                          (r, omp) \<Rightarrow> Some (r, s\<lparr>conn_oids := omp\<rparr>)))
                }))"

text \<open>The beginning that the operations with parameters share.\<close>

definition lookup_new_udts :: "('w, 'r) env \<Rightarrow> ty list \<Rightarrow> 'w conn \<Rightarrow> (error_code res, 'w) io" where
  "lookup_new_udts E ts s =
     (let s' = s\<lparr>new_udts := extract_members (conn_oids s) ts (new_udts s)\<rparr>
      in if new_udts s' \<noteq> [] then async_query_oids E s' else Some (Inr no_error, s'))"

text \<open>The end that the operations with one result share, and the beginning that sends parameters.\<close>

definition sent_query ::
  "('w, 'r) env \<Rightarrow> error \<Rightarrow> int \<times> 'w \<Rightarrow> 'w conn \<Rightarrow> ((error_code \<times> 'r result) res, 'w) io" where
  "sent_query E e sent s =
     (case sent of (ret, w) \<Rightarrow>
        if ret = 0 then Some (Inr (err e, None), s\<lparr>pgconn := w\<rparr>)
        else do {
          (x, s) \<leftarrow> async_generic_single_result_query E (s\<lparr>pgconn := w\<rparr>);
          Some (Inr x, s)
        })"

definition query_with_params ::
  "('w, 'r) env \<Rightarrow> val list \<Rightarrow> error \<Rightarrow> (query_params \<Rightarrow> 'w \<Rightarrow> int \<times> 'w) \<Rightarrow> 'w conn \<Rightarrow>
   ((error_code \<times> 'r result) res, 'w) io" where
  "query_with_params E vs e send s = do {
     (r, s) \<leftarrow> lookup_new_udts E (map ty_of vs) s;
     case r of
       Inl x \<Rightarrow> Some (Inl x, s)
     | Inr ec \<Rightarrow>
         if failed ec then Some (Inr (ec, None), s)
         else
           (case serialize_params (conn_oids s) (buffer s) vs of
              (Inl x, b) \<Rightarrow> Some (Inl x, s\<lparr>buffer := b\<rparr>)
            | (Inr a, b) \<Rightarrow> sent_query E e (send (sent_params b a) (pgconn s)) (s\<lparr>buffer := b\<rparr>)) }"

subsection \<open>Queries\<close>

definition async_query ::
  "('w, 'r) env \<Rightarrow> string \<Rightarrow> val list \<Rightarrow> 'w conn \<Rightarrow> ((error_code \<times> 'r result) res, 'w) io" where
  "async_query E query vs s =
     query_with_params E vs pq_send_query_params_failed (PQsendQueryParams E query) s"

definition async_prepare ::
  "('w, 'r) env \<Rightarrow> string \<Rightarrow> string \<Rightarrow> 'w conn \<Rightarrow> ((error_code \<times> 'r result) res, 'w) io" where
  "async_prepare E stmt_name query s =
     sent_query E pq_send_prepare_failed (PQsendPrepare E stmt_name query (pgconn s)) s"

text \<open>\<open>PQsendQueryPrepared\<close> takes no types.\<close>

definition async_query_prepared ::
  "('w, 'r) env \<Rightarrow> string \<Rightarrow> val list \<Rightarrow> 'w conn \<Rightarrow> ((error_code \<times> 'r result) res, 'w) io" where
  "async_query_prepared E stmt_name vs s =
     query_with_params E vs pq_send_query_prepared_failed
       (\<lambda>p. PQsendQueryPrepared E stmt_name (p\<lparr>qp_types := []\<rparr>)) s"

definition async_describe_prepared ::
  "('w, 'r) env \<Rightarrow> string \<Rightarrow> 'w conn \<Rightarrow> ((error_code \<times> 'r result) res, 'w) io" where
  "async_describe_prepared E stmt_name s =
     sent_query E pq_send_describe_prepared_failed (PQsendDescribePrepared E stmt_name (pgconn s)) s"

definition async_describe_portal ::
  "('w, 'r) env \<Rightarrow> string \<Rightarrow> 'w conn \<Rightarrow> ((error_code \<times> 'r result) res, 'w) io" where
  "async_describe_portal E portal_name s =
     sent_query E pq_send_describe_portal_failed (PQsendDescribePortal E portal_name (pgconn s)) s"

end
