(* ===== verification/Progress.thy ===== *)
theory Progress
  imports Connection
begin

text \<open>
  What the operations of a connection need from their environment and what they give in return. The
  environment makes progress when every turn of a loop, the call of libpq that follows the wait included,
  brings the end of the loop closer; then the waiting loops end. The contract of an operation (locale
  \<open>conn_operation\<close>) is that it completes in such an environment and changes nothing of the connection
  beside what libpq holds.
\<close>

subsection \<open>Environments that make progress\<close>

text \<open>
  The hypotheses are about the worlds that satisfy a predicate \<open>P\<close>, which no step leaves: those with a
  server that answers and a network that delivers. The rank stands for what is left to be sent and to be
  read. Waiting alone does not lower it: libpq documents that the busy state does not end unless
  \<open>PQconsumeInput\<close> is called when there is input, and that \<open>PQflush\<close> has to be called again when the
  socket can be written, and \<open>PQconsumeInput\<close> when it can be read. So it falls over a whole turn of the
  loop: from a wait, or the report that there is something to wait for, to the return of that call.
\<close>

definition stays :: "('w \<Rightarrow> bool) \<Rightarrow> ('w \<Rightarrow> 'w) \<Rightarrow> bool" where
  "stays P f \<longleftrightarrow> (\<forall>w. P w \<longrightarrow> P (f w))"

definition steps_stay :: "('w, 'r) env \<Rightarrow> ('w \<Rightarrow> bool) \<Rightarrow> bool" where
  "steps_stay E P \<longleftrightarrow>
     stays P (snd \<circ> PQflush E) \<and> stays P (snd \<circ> PQconsumeInput E) \<and>
     stays P (snd \<circ> PQisBusy E) \<and> stays P (snd \<circ> PQgetResult E) \<and>
     stays P (post E) \<and> stays P (emit_terminal E) \<and>
     (\<forall>fd. stays P (snd \<circ> wait_read E fd)) \<and> (\<forall>fd. stays P (snd \<circ> wait_either E fd))"

text \<open>
  While data is to be sent: a wait that ends because the socket can be written, then a call of \<open>PQflush\<close>
  that has still not sent everything; or a wait that ends because it can be read, then \<open>PQconsumeInput\<close>.
\<close>

definition flush_progress :: "('w, 'r) env \<Rightarrow> ('w \<Rightarrow> bool) \<Rightarrow> ('w \<Rightarrow> nat) \<Rightarrow> bool" where
  "flush_progress E P rank \<longleftrightarrow>
     (\<forall>fd w e1 e2 w1 ret w2. P w \<and> wait_either E fd w = ((False, e1, e2), w1) \<and> \<not> failed e1 \<and>
        PQflush E w1 = (ret, w2) \<and> ret \<noteq> 0 \<and> ret \<noteq> -1 \<longrightarrow> rank w2 < rank w) \<and>
     (\<forall>fd w e1 e2 w1 ret w2. P w \<and> wait_either E fd w = ((True, e1, e2), w1) \<and> \<not> failed e2 \<and>
        PQconsumeInput E w1 = (ret, w2) \<and> ret \<noteq> 0 \<longrightarrow> rank w2 < rank w)"

text \<open>While libpq is busy: a wait for input, then \<open>PQconsumeInput\<close>.\<close>

definition receive_progress :: "('w, 'r) env \<Rightarrow> ('w \<Rightarrow> bool) \<Rightarrow> ('w \<Rightarrow> nat) \<Rightarrow> bool" where
  "receive_progress E P rank \<longleftrightarrow>
     (\<forall>fd w busy w1 ec w2 ret w3. P w \<and> PQisBusy E w = (busy, w1) \<and> busy \<noteq> 0 \<and>
        wait_read E fd w1 = (ec, w2) \<and> \<not> failed ec \<and> PQconsumeInput E w2 = (ret, w3) \<and> ret \<noteq> 0 \<longrightarrow>
        rank w3 < rank w)"

definition progressing :: "('w, 'r) env \<Rightarrow> ('w \<Rightarrow> bool) \<Rightarrow> ('w \<Rightarrow> nat) \<Rightarrow> bool" where
  "progressing E P rank \<longleftrightarrow> steps_stay E P \<and> flush_progress E P rank \<and> receive_progress E P rank"

text \<open>
  While connecting: what \<open>PQconnectPoll\<close> asks to wait for, the wait, then \<open>PQconnectPoll\<close> again.
\<close>

definition poll_wait :: "('w, 'r) env \<Rightarrow> poll_status \<Rightarrow> int \<Rightarrow> 'w \<Rightarrow> error_code \<times> 'w" where
  "poll_wait E ret = (if ret = PGRES_POLLING_READING then wait_read E else wait_write E)"

abbreviation waiting :: "poll_status \<Rightarrow> bool" where
  "waiting ret \<equiv> ret = PGRES_POLLING_READING \<or> ret = PGRES_POLLING_WRITING"

definition connect_progress :: "('w, 'r) env \<Rightarrow> ('w \<Rightarrow> bool) \<Rightarrow> ('w \<Rightarrow> nat) \<Rightarrow> bool" where
  "connect_progress E P rank \<longleftrightarrow>
     (\<forall>c. stays P (PQconnectStart E c)) \<and> stays P (snd \<circ> PQsetnonblocking E 1) \<and>
     stays P (PQsetNoticeProcessor E) \<and> (\<forall>fd. stays P (snd \<circ> socket_assign E fd)) \<and>
     stays P (snd \<circ> PQconnectPoll E) \<and> stays P (post E) \<and>
     (\<forall>fd. stays P (snd \<circ> wait_read E fd)) \<and> (\<forall>fd. stays P (snd \<circ> wait_write E fd)) \<and>
     (\<forall>fd w ret w1 ec w2 ret' w3. P w \<and> PQconnectPoll E w = (ret, w1) \<and> waiting ret \<and>
        poll_wait E ret fd w1 = (ec, w2) \<and> \<not> failed ec \<and>
        PQconnectPoll E w2 = (ret', w3) \<and> waiting ret' \<longrightarrow> rank w3 < rank w1)"

text \<open>The calls that send a command, and those that enter and leave pipeline mode.\<close>

definition sends_stay :: "('w, 'r) env \<Rightarrow> ('w \<Rightarrow> bool) \<Rightarrow> bool" where
  "sends_stay E P \<longleftrightarrow>
     (\<forall>query ps. stays P (snd \<circ> PQsendQueryParams E query ps)) \<and>
     (\<forall>stmt_name query. stays P (snd \<circ> PQsendPrepare E stmt_name query)) \<and>
     (\<forall>stmt_name ps. stays P (snd \<circ> PQsendQueryPrepared E stmt_name ps)) \<and>
     (\<forall>stmt_name. stays P (snd \<circ> PQsendDescribePrepared E stmt_name)) \<and>
     (\<forall>portal_name. stays P (snd \<circ> PQsendDescribePortal E portal_name))"

definition modes_stay :: "('w, 'r) env \<Rightarrow> ('w \<Rightarrow> bool) \<Rightarrow> bool" where
  "modes_stay E P \<longleftrightarrow>
     stays P (snd \<circ> PQenterPipelineMode E) \<and> stays P (snd \<circ> PQexitPipelineMode E) \<and>
     stays P (snd \<circ> PQpipelineSync E)"

lemma stays_run: "stays P (snd \<circ> f) \<Longrightarrow> P w \<Longrightarrow> f w = (i, w') \<Longrightarrow> P w'"
  unfolding stays_def by (metis comp_apply snd_conv)

lemma staysD: "stays P f \<Longrightarrow> P w \<Longrightarrow> P (f w)"
  by (simp add: stays_def)

lemma steps_stayD:
  assumes "steps_stay E P" and "P w"
  shows "PQflush E w = (i, w') \<Longrightarrow> P w'"
    and "PQconsumeInput E w = (i, w') \<Longrightarrow> P w'"
    and "PQisBusy E w = (i, w') \<Longrightarrow> P w'"
    and "PQgetResult E w = (r, w') \<Longrightarrow> P w'"
    and "P (post E w)"
    and "P (emit_terminal E w)"
    and "wait_read E fd w = (ec, w') \<Longrightarrow> P w'"
    and "wait_either E fd w = (x, w') \<Longrightarrow> P w'"
  using assms by (auto simp: steps_stay_def intro: stays_run staysD)

lemma progressing_stays: "progressing E P rank \<Longrightarrow> steps_stay E P"
  by (simp add: progressing_def)

lemma progressing_flush:
  assumes "progressing E P rank" and "P w" and "wait_either E fd w = ((r, e1, e2), w1)"
  shows "\<not> r \<Longrightarrow> \<not> failed e1 \<Longrightarrow> PQflush E w1 = (ret, w2) \<Longrightarrow> ret \<noteq> 0 \<Longrightarrow> ret \<noteq> -1 \<Longrightarrow> rank w2 < rank w"
    and "r \<Longrightarrow> \<not> failed e2 \<Longrightarrow> PQconsumeInput E w1 = (ret, w2) \<Longrightarrow> ret \<noteq> 0 \<Longrightarrow> rank w2 < rank w"
proof -
  note p = assms(1) [unfolded progressing_def flush_progress_def]
  show "\<not> r \<Longrightarrow> \<not> failed e1 \<Longrightarrow> PQflush E w1 = (ret, w2) \<Longrightarrow> ret \<noteq> 0 \<Longrightarrow> ret \<noteq> -1 \<Longrightarrow> rank w2 < rank w"
    using p [THEN conjunct2, THEN conjunct1, THEN conjunct1, rule_format, of w fd e1 e2 w1 ret w2] assms(2,3) by simp
  show "r \<Longrightarrow> \<not> failed e2 \<Longrightarrow> PQconsumeInput E w1 = (ret, w2) \<Longrightarrow> ret \<noteq> 0 \<Longrightarrow> rank w2 < rank w"
    using p [THEN conjunct2, THEN conjunct1, THEN conjunct2, rule_format, of w fd e1 e2 w1 ret w2] assms(2,3) by simp
qed

lemma progressing_receive:
  "progressing E P rank \<Longrightarrow> P w \<Longrightarrow> PQisBusy E w = (busy, w1) \<Longrightarrow> busy \<noteq> 0 \<Longrightarrow> wait_read E fd w1 = (ec, w2) \<Longrightarrow>
   \<not> failed ec \<Longrightarrow> PQconsumeInput E w2 = (ret, w3) \<Longrightarrow> ret \<noteq> 0 \<Longrightarrow> rank w3 < rank w"
  unfolding progressing_def receive_progress_def by blast

subsection \<open>The contract of an operation\<close>

text \<open>An operation ends when it gives a result, with the same connection but for what libpq holds.\<close>

definition ends :: "('w \<Rightarrow> bool) \<Rightarrow> 'w conn \<Rightarrow> ('a, 'w) io \<Rightarrow> bool" where
  "ends P s r \<longleftrightarrow> (\<exists>x w. r = Some (x, s\<lparr>pgconn := w\<rparr>) \<and> P w)"

lemma ends_now: "P w \<Longrightarrow> ends P s (Some (x, s\<lparr>pgconn := w\<rparr>))"
  by (auto simp: ends_def)

lemma ends_here: "P (pgconn s) \<Longrightarrow> ends P s (Some (x, s))"
  using ends_now [of P "pgconn s" s x] by simp

lemma ends_update [simp]: "ends P (s\<lparr>pgconn := w\<rparr>) r \<longleftrightarrow> ends P s r"
  by (simp add: ends_def)

lemma ends_bind:
  assumes "ends P s m"
    and "\<And>x w. P w \<Longrightarrow> m = Some (x, s\<lparr>pgconn := w\<rparr>) \<Longrightarrow> ends P s (f (x, s\<lparr>pgconn := w\<rparr>))"
  shows "ends P s (m \<bind> f)"
proof -
  obtain x w where "m = Some (x, s\<lparr>pgconn := w\<rparr>)" "P w"
    using assms(1) by (auto simp: ends_def)
  with assms(2) [of w x] show ?thesis by simp
qed

text \<open>Operations that change more of the connection: that they complete, in a world of \<open>P\<close>.\<close>

definition completes :: "('w \<Rightarrow> bool) \<Rightarrow> ('a, 'w) io \<Rightarrow> bool" where
  "completes P r \<longleftrightarrow> (\<exists>x s. r = Some (x, s) \<and> P (pgconn s))"

lemma completes_now [simp]: "completes P (Some (x, s)) \<longleftrightarrow> P (pgconn s)"
  by (simp add: completes_def)

lemma completes_not_None: "completes P r \<Longrightarrow> r \<noteq> None"
  by (auto simp: completes_def)

lemma ends_completes: "ends P s r \<Longrightarrow> completes P r"
  by (auto simp: ends_def completes_def)

lemma completes_bind:
  assumes "completes P m" and "\<And>x s. P (pgconn s) \<Longrightarrow> m = Some (x, s) \<Longrightarrow> completes P (f (x, s))"
  shows "completes P (m \<bind> f)"
  using assms by (auto simp: completes_def)

definition only_pgconn :: "'w conn \<Rightarrow> 'w conn \<Rightarrow> bool" where
  "only_pgconn s s' \<longleftrightarrow> s' = s\<lparr>pgconn := pgconn s'\<rparr>"

lemma only_pgconn_update [simp]: "only_pgconn s (s\<lparr>pgconn := w\<rparr>)" "only_pgconn s s"
  by (simp_all add: only_pgconn_def)

lemma only_pgconn_from [simp]: "only_pgconn (s\<lparr>pgconn := w\<rparr>) s' \<longleftrightarrow> only_pgconn s s'"
  by (simp add: only_pgconn_def)


lemma only_pgconn_trans: "only_pgconn s t \<Longrightarrow> only_pgconn t u \<Longrightarrow> only_pgconn s u"
  unfolding only_pgconn_def by (metis conn.update_convs(1) conn.surjective)

lemma only_pgconn_fields:
  assumes "only_pgconn s s'"
  shows "conn_oids s' = conn_oids s" "new_udts s' = new_udts s" "socket s' = socket s" "buffer s' = buffer s"
  using assms by (metis only_pgconn_def conn.surjective conn.update_convs(1) conn.select_convs)+

locale conn_operation =
  fixes op :: "('w, 'r) env \<Rightarrow> 'w conn \<Rightarrow> ('a, 'w) io"
  assumes op_ends: "progressing E P rank \<Longrightarrow> P (pgconn s) \<Longrightarrow> ends P s (op E s)"
    and op_keeps: "op E s = Some y \<Longrightarrow> only_pgconn s (snd y)"
begin

text \<open>Sequencing: what follows starts from the same connection, in a world of \<open>P\<close>.\<close>

lemma then_ends:
  assumes "progressing E P rank" and "P (pgconn s)"
    and "\<And>x w. P w \<Longrightarrow> op E s = Some (x, s\<lparr>pgconn := w\<rparr>) \<Longrightarrow> ends P s (f (x, s\<lparr>pgconn := w\<rparr>))"
  shows "ends P s (op E s \<bind> f)"
  using op_ends [OF assms(1,2)] assms(3) by (rule ends_bind)

lemma then_keeps:
  assumes "op E s \<bind> f = Some y"
    and "\<And>x w. f (x, s\<lparr>pgconn := w\<rparr>) = Some y \<Longrightarrow> only_pgconn (s\<lparr>pgconn := w\<rparr>) (snd y)"
  shows "only_pgconn s (snd y)"
proof -
  obtain x t where 1: "op E s = Some (x, t)" and 2: "f (x, t) = Some y"
    using assms(1) by (auto simp: bind_eq_Some_conv)
  have "t = s\<lparr>pgconn := pgconn t\<rparr>" using op_keeps [OF 1] by (simp add: only_pgconn_def)
  then obtain w where w: "t = s\<lparr>pgconn := w\<rparr>" ..
  from assms(2) [OF 2 [unfolded w]] show ?thesis by simp
qed

end

subsection \<open>Sending and receiving keep the contract\<close>

text \<open>The handler after a wait that began in the world \<open>w\<close>.\<close>

lemma flush_turn_ends:
  assumes p: "progressing E P rank"
  shows "P w \<Longrightarrow> wait_either E (socket s) w = ((r, e1, e2), w1) \<Longrightarrow>
    ends P s (flush_handler E r e1 e2 (s\<lparr>pgconn := w1\<rparr>))"
proof (induction "rank w" arbitrary: w w1 r e1 e2 rule: less_induct)
  case less
  note stay = steps_stayD [OF progressing_stays [OF p]]
  have w1: "P w1" using stay(8) [OF less.prems] .
  obtain ret w2 where c: "(if r then PQconsumeInput E else PQflush E) w1 = (ret, w2)" by fastforce
  obtain r' f1 f2 w3 where x: "wait_either E (socket s) w2 = ((r', f1, f2), w3)" by (metis surj_pair)
  have w2: "P w2" using c stay(1,2) [OF w1] by (auto split: if_splits)
  have again: "ends P s (flush_handler E r' f1 f2 (s\<lparr>pgconn := w3\<rparr>))" if "rank w2 < rank w"
    using less.hyps [OF that w2 x] .
  note fall = progressing_flush [OF p less.prems]
  show ?case
  proof (cases r)
    case True
    with c x again w1 w2 fall(2) show ?thesis
      by (subst flush_handler.simps) (auto intro: ends_now)
  next
    case False
    with c x again w1 w2 fall(1) show ?thesis
      by (subst flush_handler.simps) (auto intro: ends_now)
  qed
qed

lemma async_flush_ends:
  assumes p: "progressing E P rank" and s: "P (pgconn s)"
  shows "ends P s (async_flush E s)"
proof -
  obtain ret w where c: "PQflush E (pgconn s) = (ret, w)" by fastforce
  obtain r e1 e2 w1 where x: "wait_either E (socket s) w = ((r, e1, e2), w1)" by (metis surj_pair)
  have w: "P w" using steps_stayD(1) [OF progressing_stays [OF p] s c] .
  with c x flush_turn_ends [OF p w x] show ?thesis
    by (simp add: async_flush_def flush_handler.simps [of E False] ends_now)
qed

lemma receive_loop_ends:
  assumes p: "progressing E P rank"
  shows "P (pgconn s) \<Longrightarrow> ends P s (receive_loop E n s)"
proof (induction "rank (pgconn s)" arbitrary: n s rule: less_induct)
  case less
  obtain busy w where b: "PQisBusy E (pgconn s) = (busy, w)" by fastforce
  obtain ec w1 where x: "wait_read E (socket s) w = (ec, w1)" by fastforce
  obtain ret w2 where c: "PQconsumeInput E w1 = (ret, w2)" by fastforce
  obtain res w3 where g: "PQgetResult E (if n then post E w else w) = (res, w3)" by fastforce
  note stay = steps_stayD [OF progressing_stays [OF p]]
  have P: "P w" "P w1" "P w2" "P w3"
    using stay(3) [OF less.prems b] stay(7) [OF _ x] stay(2) [OF _ c] stay(4) [OF _ g] stay(5) by auto
  show ?case
  proof (cases "busy \<noteq> 0 \<and> \<not> failed ec \<and> ret \<noteq> 0")
    case True
    then have "rank w2 < rank (pgconn s)" using progressing_receive [OF p less.prems b _ x _ c] by simp
    then have "ends P s (receive_loop E False (s\<lparr>pgconn := w2\<rparr>))"
      using less.hyps [of "s\<lparr>pgconn := w2\<rparr>" False] P(3) by simp
    with True b x c show ?thesis by (subst receive_loop.simps) simp
  next
    case False
    with b x c g P show ?thesis
      by (subst receive_loop.simps) (auto intro!: ends_now split: if_splits)
  qed
qed

lemma flush_handler_keeps: "flush_handler E r e1 e2 s = Some y \<Longrightarrow> only_pgconn s (snd y)"
  by (erule flush_handler.raw_induct [where P = "\<lambda>E r e1 e2 s y. only_pgconn s (snd y)", rotated])
    (fastforce split: prod.splits if_splits)

lemma receive_loop_keeps: "receive_loop E n s = Some y \<Longrightarrow> only_pgconn s (snd y)"
  by (erule receive_loop.raw_induct [where P = "\<lambda>E n s y. only_pgconn s (snd y)", rotated])
    (fastforce split: prod.splits if_splits)

lemma connect_poll_keeps: "connect_poll E s = Some y \<Longrightarrow> only_pgconn s (snd y)"
  by (erule connect_poll.raw_induct [where P = "\<lambda>E s y. only_pgconn s (snd y)", rotated])
    (fastforce split: prod.splits if_splits)

interpretation flush: conn_operation async_flush
  by unfold_locales (erule (1) async_flush_ends, simp add: async_flush_def flush_handler_keeps)

interpretation receive: conn_operation async_receive_result
  by unfold_locales
    (auto simp: async_receive_result_def intro: receive_loop_ends dest: receive_loop_keeps)

lemma generic_ends:
  assumes p: "progressing E P rank" and "P (pgconn s)"
  shows "ends P s (async_generic_single_result_query E s)"
proof -
  note terminal = steps_stayD(6) [OF progressing_stays [OF p]]
  have receive: "ends P s (async_receive_result E t \<bind> f)"
    if "\<And>x w. P w \<Longrightarrow> ends P s (f (x, s\<lparr>pgconn := w\<rparr>))" "P w" "t = s\<lparr>pgconn := w\<rparr>"
    for w t and f :: "_ \<Rightarrow> ('c, 'a) io"
    using receive.then_ends [OF p, of t f] that by simp
  have last: "ends P s (async_receive_result E t \<bind> (\<lambda>((ec, result), s). if failed ec then Some ((ec, None), s)
      else if result \<noteq> None then Some ((err unexpected_non_null_result, None), s)
      else Some ((result_status_to_error_code E r, r), s\<lparr>pgconn := emit_terminal E (pgconn s)\<rparr>)))"
    if "P w" "t = s\<lparr>pgconn := w\<rparr>" for w t r
    by (rule receive [OF _ that]) (auto simp: ends_now terminal)
  have first: "ends P s (async_receive_result E t \<bind> (\<lambda>((ec, r), s). if failed ec then Some ((ec, None), s) else
      async_receive_result E s \<bind> (\<lambda>((ec, result), s). if failed ec then Some ((ec, None), s)
      else if result \<noteq> None then Some ((err unexpected_non_null_result, None), s)
      else Some ((result_status_to_error_code E r, r), s\<lparr>pgconn := emit_terminal E (pgconn s)\<rparr>))))"
    if "P w" "t = s\<lparr>pgconn := w\<rparr>" for w t
    by (rule receive [OF _ that]) (auto simp: ends_now last)
  show ?thesis
    unfolding async_generic_single_result_query_def
    by (rule flush.then_ends [OF assms]) (auto simp: ends_now first)
qed

lemma generic_keeps: "async_generic_single_result_query E s = Some y \<Longrightarrow> only_pgconn s (snd y)"
  unfolding async_generic_single_result_query_def
  by (erule flush.then_keeps)
    (auto split: if_splits elim!: receive.then_keeps [THEN only_pgconn_from [THEN iffD1]])

interpretation generic: conn_operation async_generic_single_result_query
  by unfold_locales (auto intro: generic_ends dest: generic_keeps)

end
