(* ===== verification/Delivery.thy ===== *)
theory Delivery
  imports Progress
begin

text \<open>
  What the operations of a connection do when the connection works: the environment delivers a
  sequence of results, and each operation takes those that belong to it.
\<close>

subsection \<open>Environments that deliver results\<close>

text \<open>
  \<open>q w\<close> is the sequence of what the next calls of \<open>PQgetResult\<close> give. In the worlds of \<open>P\<close> no call of
  libpq and no wait fails; of the two waits of a parallel group the one that completed first counts.
  Only \<open>PQgetResult\<close> takes a result, and it is bound to give the next one only when \<open>PQisBusy\<close> has just
  said that it is there.
\<close>

definition preserves :: "('w \<Rightarrow> bool) \<Rightarrow> ('w \<Rightarrow> 'q) \<Rightarrow> ('w \<Rightarrow> 'w) \<Rightarrow> bool" where
  "preserves P q f \<longleftrightarrow> (\<forall>w. P w \<longrightarrow> q (f w) = q w)"

definition result_ready :: "('w, 'r) env \<Rightarrow> ('w \<Rightarrow> 'r result list) \<Rightarrow> 'w \<Rightarrow> bool" where
  "result_ready E q w \<longleftrightarrow>
     (q w \<noteq> [] \<longrightarrow> fst (PQgetResult E w) = hd (q w) \<and> q (snd (PQgetResult E w)) = tl (q w))"

definition delivers :: "('w, 'r) env \<Rightarrow> ('w \<Rightarrow> bool) \<Rightarrow> ('w \<Rightarrow> 'r result list) \<Rightarrow> bool" where
  "delivers E P q \<longleftrightarrow>
     preserves P q (snd \<circ> PQflush E) \<and> preserves P q (snd \<circ> PQconsumeInput E) \<and>
     preserves P q (snd \<circ> PQisBusy E) \<and> preserves P q (post E) \<and> preserves P q (emit_terminal E) \<and>
     (\<forall>fd. preserves P q (snd \<circ> wait_read E fd)) \<and> (\<forall>fd. preserves P q (snd \<circ> wait_either E fd)) \<and>
     (\<forall>w. P w \<longrightarrow> fst (PQflush E w) \<noteq> -1 \<and> fst (PQconsumeInput E w) \<noteq> 0) \<and>
     (\<forall>fd w. P w \<longrightarrow> \<not> failed (fst (wait_read E fd w))) \<and>
     (\<forall>fd w. P w \<longrightarrow> (case fst (wait_either E fd w) of (r, e1, e2) \<Rightarrow> \<not> failed (if r then e2 else e1))) \<and>
     (\<forall>w. P w \<and> fst (PQisBusy E w) = 0 \<longrightarrow>
        result_ready E q (snd (PQisBusy E w)) \<and> result_ready E q (post E (snd (PQisBusy E w))))"

lemma preserves_run: "preserves P q (snd \<circ> f) \<Longrightarrow> P w \<Longrightarrow> f w = (i, w') \<Longrightarrow> q w' = q w"
  unfolding preserves_def by (metis comp_apply snd_conv)

lemma delivers_preserves:
  assumes "delivers E P q" and "P w"
  shows "PQflush E w = (i, w') \<Longrightarrow> q w' = q w"
    and "PQconsumeInput E w = (i, w') \<Longrightarrow> q w' = q w"
    and "PQisBusy E w = (i, w') \<Longrightarrow> q w' = q w"
    and "q (post E w) = q w"
    and "q (emit_terminal E w) = q w"
    and "wait_read E fd w = (ec, w') \<Longrightarrow> q w' = q w"
    and "wait_either E fd w = (x, w') \<Longrightarrow> q w' = q w"
  using assms by (auto simp: delivers_def intro: preserves_run) (simp_all add: preserves_def)

lemma delivers_works:
  assumes "delivers E P q" and "P w"
  shows "PQflush E w = (i, w') \<Longrightarrow> i \<noteq> -1"
    and "PQconsumeInput E w = (i, w') \<Longrightarrow> i \<noteq> 0"
    and "wait_read E fd w = (ec, w') \<Longrightarrow> \<not> failed ec"
    and "wait_either E fd w = ((r, e1, e2), w') \<Longrightarrow> \<not> failed (if r then e2 else e1)"
  using assms unfolding delivers_def by (metis (mono_tags, lifting) fst_conv case_prod_conv)+

lemma delivers_result:
  assumes d: "delivers E P q" and w: "P w" "P w1"
    and b: "PQisBusy E w = (0, w1)" and g: "PQgetResult E (if n then post E w1 else w1) = (res, w2)"
    and q: "q w = r # rs"
  shows "res = r \<and> q w2 = rs"
proof -
  let ?w = "if n then post E w1 else w1"
  have "result_ready E q ?w" using d w(1) b by (auto simp: delivers_def)
  moreover have "q ?w = r # rs" using delivers_preserves(3) [OF d w(1) b] delivers_preserves(4) [OF d w(2)] q by simp
  ultimately show ?thesis using g by (simp add: result_ready_def)
qed

definition working :: "('w, 'r) env \<Rightarrow> ('w \<Rightarrow> bool) \<Rightarrow> ('w \<Rightarrow> nat) \<Rightarrow> ('w \<Rightarrow> 'r result list) \<Rightarrow> bool" where
  "working E P rank q \<longleftrightarrow> progressing E P rank \<and> delivers E P q"

text \<open>Whether an environment works does not depend on how it takes queries.\<close>

lemma working_sends [simp]: "working (E\<lparr>PQsendQueryParams := f\<rparr>) P rank q \<longleftrightarrow> working E P rank q"
proof -
  have "steps_stay (E\<lparr>PQsendQueryParams := f\<rparr>) P \<longleftrightarrow> steps_stay E P" by (simp add: steps_stay_def)
  moreover have "flush_progress (E\<lparr>PQsendQueryParams := f\<rparr>) P rank \<longleftrightarrow> flush_progress E P rank"
    by (simp add: flush_progress_def)
  moreover have "receive_progress (E\<lparr>PQsendQueryParams := f\<rparr>) P rank \<longleftrightarrow> receive_progress E P rank"
    by (simp add: receive_progress_def)
  moreover have "delivers (E\<lparr>PQsendQueryParams := f\<rparr>) P q \<longleftrightarrow> delivers E P q"
    by (simp add: delivers_def result_ready_def)
  ultimately show ?thesis by (simp add: working_def progressing_def)
qed

lemma flush_handler_delivers:
  assumes "flush_handler E r e1 e2 s = Some y" and "delivers E P q" and "steps_stay E P" and "P (pgconn s)"
    and "\<not> failed (if r then e2 else e1)"
  shows "fst y = no_error \<and> q (pgconn (snd y)) = q (pgconn s)"
proof -
  let ?P = "\<lambda>E r e1 e2 s y. delivers E P q \<longrightarrow> steps_stay E P \<longrightarrow> P (pgconn s) \<longrightarrow> \<not> failed (if r then e2 else e1) \<longrightarrow>
    fst y = no_error \<and> q (pgconn (snd y)) = q (pgconn s)"
  have "?P E r e1 e2 s y"
  proof (rule flush_handler.raw_induct [where P = ?P, OF _ assms(1)], intro impI, goal_cases)
    case (1 f E r e1 e2 s y)
    have next_wait: "fst y = no_error \<and> q (pgconn (snd y)) = q w"
      if "P w" "wait_either E (socket s) w = ((r', f1, f2), w')" "f E r' f1 f2 (s\<lparr>pgconn := w'\<rparr>) = Some y"
      for w w' r' f1 f2
      using 1(1) [OF that(3)] 1(3,4) delivers_works(4) [OF 1(3) that(1,2)] delivers_preserves(7) [OF 1(3) that(1,2)]
        steps_stayD(8) [OF 1(4) that(1,2)]
      by simp
    show ?case
      using 1(2,6) next_wait delivers_preserves(1,2) [OF 1(3,5)] delivers_works(1,2) [OF 1(3,5)] steps_stayD(1,2) [OF 1(4,5)]
      by (auto split: prod.splits if_splits)
  qed
  with assms(2-5) show ?thesis by blast
qed

lemma receive_loop_delivers:
  assumes "receive_loop E n s = Some y" and "delivers E P q" and "steps_stay E P" and "P (pgconn s)"
    and "q (pgconn s) = r # rs"
  shows "fst y = (no_error, r) \<and> q (pgconn (snd y)) = rs"
proof -
  let ?P = "\<lambda>E n s y. delivers E P q \<longrightarrow> steps_stay E P \<longrightarrow> P (pgconn s) \<longrightarrow> q (pgconn s) = r # rs \<longrightarrow>
    fst y = (no_error, r) \<and> q (pgconn (snd y)) = rs"
  have "?P E n s y"
  proof (rule receive_loop.raw_induct [where P = ?P, OF _ assms(1)], intro impI, goal_cases)
    case (1 f E n s y)
    obtain busy w where b: "PQisBusy E (pgconn s) = (busy, w)" by fastforce
    obtain ec w1 where x: "wait_read E (socket s) w = (ec, w1)" by fastforce
    obtain ret w2 where c: "PQconsumeInput E w1 = (ret, w2)" by fastforce
    obtain res w3 where g: "PQgetResult E (if n then post E w else w) = (res, w3)" by fastforce
    note stay = steps_stayD [OF 1(4)]
    note P = stay(3) [OF 1(5) b]
    note P1 = stay(7) [OF P x]
    note P2 = stay(2) [OF P1 c]
    note q = delivers_preserves(3) [OF 1(3,5) b] delivers_preserves(6) [OF 1(3) P x] delivers_preserves(2) [OF 1(3) P1 c]
    have "busy = 0 \<Longrightarrow> res = r \<and> q w3 = rs" using delivers_result [OF 1(3,5) P _ g 1(6)] b by simp
    with 1(1) [of E False "s\<lparr>pgconn := w2\<rparr>" y] 1(2-4,6) q b x c g P2
      delivers_works(3) [OF 1(3) P x] delivers_works(2) [OF 1(3) P1]
    show ?case by (auto split: if_splits)
  qed
  with assms(2-5) show ?thesis by blast
qed

lemma workingD:
  assumes "working E P rank q"
  shows "progressing E P rank" and "delivers E P q" and "steps_stay E P"
  using assms by (auto simp: working_def progressing_def)

lemma flush_done:
  assumes w: "working E P rank q" and s: "P (pgconn s)"
  shows "\<exists>w. async_flush E s = Some (no_error, s\<lparr>pgconn := w\<rparr>) \<and> q w = q (pgconn s) \<and> P w"
proof -
  obtain x w where "async_flush E s = Some (x, s\<lparr>pgconn := w\<rparr>)" "P w"
    using flush.op_ends [OF workingD(1) [OF w] s] by (auto simp: ends_def)
  with flush_handler_delivers [of E False no_error no_error s, OF _ workingD(2,3) [OF w] s] show ?thesis
    by (fastforce simp: async_flush_def)
qed

lemma receive_done:
  assumes w: "working E P rank q" and s: "P (pgconn s)" and q: "q (pgconn s) = r # rs"
  shows "\<exists>w. async_receive_result E s = Some ((no_error, r), s\<lparr>pgconn := w\<rparr>) \<and> q w = rs \<and> P w"
proof -
  obtain x w where "async_receive_result E s = Some (x, s\<lparr>pgconn := w\<rparr>)" "P w"
    using receive.op_ends [OF workingD(1) [OF w] s] by (auto simp: ends_def)
  with receive_loop_delivers [of E True s, OF _ workingD(2,3) [OF w] s q] show ?thesis
    by (fastforce simp: async_receive_result_def)
qed

lemma generic_done:
  assumes w: "working E P rank q" and s: "P (pgconn s)" and q: "q (pgconn s) = r # null # rs"
  shows "\<exists>w. async_generic_single_result_query E s =
      Some (if null = None then (result_status_to_error_code E r, r) else (err unexpected_non_null_result, None),
            s\<lparr>pgconn := w\<rparr>) \<and> q w = rs \<and> P w"
proof -
  obtain w1 where 1: "async_flush E s = Some (no_error, s\<lparr>pgconn := w1\<rparr>)" "q w1 = r # null # rs" "P w1"
    using flush_done [OF w s] q by auto
  obtain w2 where 2: "async_receive_result E (s\<lparr>pgconn := w1\<rparr>) = Some ((no_error, r), s\<lparr>pgconn := w2\<rparr>)"
    "q w2 = null # rs" "P w2"
    using receive_done [OF w, of "s\<lparr>pgconn := w1\<rparr>"] 1(2,3) by auto
  obtain w3 where 3: "async_receive_result E (s\<lparr>pgconn := w2\<rparr>) = Some ((no_error, null), s\<lparr>pgconn := w3\<rparr>)"
    "q w3 = rs" "P w3"
    using receive_done [OF w, of "s\<lparr>pgconn := w2\<rparr>"] 2(2,3) by auto
  have "q (emit_terminal E w3) = rs" "P (emit_terminal E w3)"
    using 3(2,3) delivers_preserves(5) [OF workingD(2) [OF w] 3(3)] steps_stayD(6) [OF workingD(3) [OF w] 3(3)] by auto
  with 1 2 3 show ?thesis by (auto simp: async_generic_single_result_query_def)
qed

lemma sent_query_done:
  assumes "working E P rank q" and "i \<noteq> 0" and "P w" and "q w = [r, None]"
  shows "\<exists>w'. sent_query E e (i, w) s =
      Some (Inr (result_status_to_error_code E r, r), s\<lparr>pgconn := w'\<rparr>) \<and> q w' = [] \<and> P w'"
  using generic_done [OF assms(1), of "s\<lparr>pgconn := w\<rparr>" r None "[]"] assms(2-4)
  by (auto simp: sent_query_def)

lemma sent_query_Inr: "sent_query E e sent s = Some (x, s') \<Longrightarrow> \<exists>y. x = Inr y"
  by (auto simp: sent_query_def bind_eq_Some_conv split: if_splits prod.splits)

lemma sent_query_keeps: "sent_query E e sent s = Some (x, s') \<Longrightarrow> only_pgconn s s'"
  by (auto simp: sent_query_def bind_eq_Some_conv split: if_splits prod.splits dest: generic.op_keeps)

lemma sent_query_completes:
  assumes "progressing E P rank" and "P (snd sent)"
  shows "completes P (sent_query E e sent s)"
proof -
  obtain i w where "sent = (i, w)" by fastforce
  moreover from this assms(2) have "completes P (async_generic_single_result_query E (s\<lparr>pgconn := w\<rparr>))"
    by (intro ends_completes [OF generic.op_ends, OF assms(1)]) simp
  ultimately show ?thesis using assms(2) by (auto simp: sent_query_def intro: completes_bind)
qed

end
