(* ===== verification/Script.thy ===== *)
theory Script
  imports Delivery
begin

text \<open>
  A concrete environment, at which the properties of the connection are applied: a server that plays
  back prepared answers over a network with a fixed number of octets to send and events to wait for.
\<close>

subsection \<open>Replies\<close>

record reply =
  status :: exec_status
  state_text :: "string option"
  rows :: table

definition reply_api :: "reply result_api" where
  "reply_api =
     \<lparr>PQntuples = (\<lambda>r. PQntuples table_api (map_option rows r)),
      PQnfields = (\<lambda>r. PQnfields table_api (map_option rows r)),
      PQftype = (\<lambda>r. PQftype table_api (map_option rows r)),
      PQfname = (\<lambda>r. PQfname table_api (map_option rows r)),
      PQfnumber = (\<lambda>r. PQfnumber table_api (map_option rows r)),
      PQgetvalue = (\<lambda>r. PQgetvalue table_api (map_option rows r)),
      PQgetlength = (\<lambda>r. PQgetlength table_api (map_option rows r)),
      PQgetisnull = (\<lambda>r. PQgetisnull table_api (map_option rows r)),
      PQresultStatus = (\<lambda>r. case r of None \<Rightarrow> PGRES_FATAL_ERROR | Some x \<Rightarrow> status x),
      PQresultSqlstate = (\<lambda>r. case r of None \<Rightarrow> None | Some x \<Rightarrow> state_text x),
      PQresultErrorMessage = (\<lambda>r. [])\<rparr>"

definition completed :: reply where
  "completed = \<lparr>status = PGRES_COMMAND_OK, state_text = None, rows = \<lparr>columns = [], cells = []\<rparr>\<rparr>"

lemma reply_counts_ok: "counts_ok reply_api"
  using table_counts_ok by (simp add: counts_ok_def reply_api_def)

subsection \<open>The server\<close>

text \<open>
  Each accepted command moves one entry of \<open>answers\<close> to the pending results, with the null that ends
  them; with no entry left the command is refused. Each command has a part to send, which a call of
  \<open>PQflush\<close> sends, and a part of its answer to read, which a call of \<open>PQconsumeInput\<close> reads; a wait changes
  nothing. Pipeline mode is entered and left only when nothing is pending. \<open>executed\<close> counts the commands
  of servers whose answers depend on the earlier ones.
\<close>

record server =
  pending :: "reply option list"
  answers :: "reply option list"
  unsent :: nat
  events :: nat
  pipelining :: bool
  executed :: nat
  polls :: "poll_status list"
  notices :: "notify option list"
  wakeups :: "(error_code \<times> bool) list"

definition idle_server :: server where
  "idle_server = \<lparr>pending = [], answers = [], unsent = 0, events = 0, pipelining = False, executed = 0,
     polls = [], notices = [], wakeups = []\<rparr>"

definition accept_command :: "server \<Rightarrow> int \<times> server" where
  "accept_command w =
     (case answers w of
        [] \<Rightarrow> (0, w)
      | a # as \<Rightarrow> (1, w\<lparr>pending := pending w @ [a, None], answers := as, unsent := unsent w + 1, events := events w + 1\<rparr>))"

definition sync_reply :: reply where
  "sync_reply = \<lparr>status = PGRES_PIPELINE_SYNC, state_text = None, rows = \<lparr>columns = [], cells = []\<rparr>\<rparr>"

definition aborted :: error_code where
  "aborted = \<lparr>ec_value = 125, ec_category = SystemCategory\<rparr>"

definition next_of :: "'a \<Rightarrow> 'a list \<Rightarrow> 'a" where
  "next_of x xs = (case xs of [] \<Rightarrow> x | y # ys \<Rightarrow> y)"

definition script :: "(server, reply) env" where
  "script =
     \<lparr>results = reply_api,
      PQconnectStart = (\<lambda>c w. w),
      PQstatus = (\<lambda>w. CONNECTION_IN_PROGRESS),
      PQsetnonblocking = (\<lambda>i w. (0, w)),
      PQsetNoticeProcessor = (\<lambda>w. w),
      PQsocket = (\<lambda>w. 3),
      PQconnectPoll = (\<lambda>w. (next_of PGRES_POLLING_OK (polls w), w\<lparr>polls := tl (polls w)\<rparr>)),
      PQenterPipelineMode = (\<lambda>w. if pending w = [] then (1, w\<lparr>pipelining := True\<rparr>) else (0, w)),
      PQexitPipelineMode = (\<lambda>w. if pending w = [] then (1, w\<lparr>pipelining := False\<rparr>) else (0, w)),
      PQpipelineSync = (\<lambda>w. (1, w\<lparr>pending := pending w @ [Some sync_reply]\<rparr>)),
      PQsendQueryParams = (\<lambda>query ps. accept_command),
      PQsendPrepare = (\<lambda>stmt_name query. accept_command),
      PQsendQueryPrepared = (\<lambda>stmt_name ps. accept_command),
      PQsendDescribePrepared = (\<lambda>stmt_name. accept_command),
      PQsendDescribePortal = (\<lambda>portal_name. accept_command),
      PQflush = (\<lambda>w. (if unsent w = 0 then 0 else 1, w\<lparr>unsent := unsent w - 1\<rparr>)),
      PQconsumeInput = (\<lambda>w. (1, w\<lparr>events := events w - 1\<rparr>)),
      PQisBusy = (\<lambda>w. (if events w = 0 then 0 else 1, w)),
      PQgetResult = (\<lambda>w. (next_of None (pending w), w\<lparr>pending := tl (pending w)\<rparr>)),
      PQnotifies = (\<lambda>w. (next_of None (notices w), w\<lparr>notices := tl (notices w)\<rparr>)),
      socket_assign = (\<lambda>fd w. (no_error, w)),
      wait_read = (\<lambda>fd w. (no_error, w)),
      wait_write = (\<lambda>fd w. (no_error, w)),
      wait_either = (\<lambda>fd w. ((0 < events w, no_error, no_error), w)),
      wait_notification = (\<lambda>fd w. (next_of (aborted, True) (wakeups w), w\<lparr>wakeups := tl (wakeups w)\<rparr>)),
      operation_aborted = aborted,
      post = (\<lambda>w. w),
      emit_terminal = (\<lambda>w. w)\<rparr>"

definition work_left :: "server \<Rightarrow> nat" where
  "work_left w = unsent w + events w + length (polls w)"

declare script_def [script_simps] and reply_api_def [script_simps] and idle_server_def [script_simps]
  and accept_command_def [script_simps] and next_of_def [script_simps]

text \<open>It works in every set of worlds that the mode and the executed commands tell.\<close>

lemma script_progressing: "progressing script (\<lambda>w. K (pipelining w) (executed w)) work_left"
  by (auto simp: progressing_def steps_stay_def stays_def flush_progress_def receive_progress_def script_simps
      work_left_def split: if_splits)

lemma script_connect_progress: "connect_progress script (\<lambda>w. K (pipelining w) (executed w)) work_left"
  by (auto simp: connect_progress_def stays_def poll_wait_def script_simps work_left_def split: list.splits if_splits)

lemma script_delivers: "delivers script (\<lambda>w. K (pipelining w) (executed w)) pending"
  by (auto simp: delivers_def preserves_def result_ready_def script_simps split: list.split)

lemma script_working: "working script (\<lambda>w. K (pipelining w) (executed w)) work_left pending"
  by (simp add: working_def script_progressing script_delivers)

lemma script_stays: "sends_stay script (\<lambda>w. K (pipelining w) (executed w))"
  by (auto simp: sends_stay_def stays_def script_simps split: list.split)

lemma script_modes_stay: "modes_stay script (\<lambda>w. K (executed w))"
  by (auto simp: modes_stay_def stays_def script_simps sync_reply_def)

definition fresh :: "server \<Rightarrow> server conn" where
  "fresh w = \<lparr>pgconn = w, socket = 3, conn_oids = Map.empty, new_udts = [],
     buffer = \<lparr>chars = [], capacity = 15, allocation = 0\<rparr>\<rparr>"

declare fresh_def [script_simps]

end
