(* ===== verification/Queries.thy ===== *)
theory Queries
  imports Script
begin

text \<open>
  What the queries of a connection do: the parameters that libpq gets, the registration of
  user-defined types, the result and the error code they complete with.
\<close>

subsection \<open>Parameters on their way to libpq\<close>

definition params_for :: "oid list \<Rightarrow> byte list list \<Rightarrow> query_params" where
  "params_for ts es =
     \<lparr>qp_types = ts, qp_octets = map Some es, qp_lengths = map (\<lambda>e. of_nat (length e)) es,
      qp_formats = map (\<lambda>e. 1) es\<rparr>"

text \<open>Libpq finds the encodings behind the pointers it gets, when each is shorter than 2 GiB.\<close>

lemma serialize_params_sends:
  assumes "\<forall>v \<in> set vs. sendable omp v" and "\<forall>v \<in> set vs. size_of v < 2 ^ 31"
  shows "\<exists>a b' es ts. serialize_params omp b vs = (Inr a, b') \<and>
    list_all2 (\<lambda>v e. encode omp v = Inr e) vs es \<and> oids_of omp (map ty_of vs) = Inr ts \<and>
    sent_params b' a = params_for ts es"
proof -
  from serialize_params_run [OF assms(1), of b] obtain es ts b' where
    run: "list_all2 (\<lambda>v e. encode omp v = Inr e) vs es" "oids_of omp (map ty_of vs) = Inr ts"
      "chars b' = concat es"
      "serialize_params omp b vs =
        (Inr \<lparr>param_types = ts,
              param_values = map (\<lambda>i. (allocation b', length (concat (take i es)))) [0..<length vs],
              param_lengths = map (\<lambda>v. of_nat (size_of v)) vs,
              param_formats = map (\<lambda>v. 1) vs\<rparr>, b')" (is "_ = (Inr ?a, b')") by blast
  have len: "length vs = length es" using run(1) by (rule list_all2_lengthD)
  have "unat (word_of_nat (size_of (vs ! i)) :: 32 word) = length (es ! i)" if "i < length vs" for i
    using bspec [OF assms(2) nth_mem [OF that]] encodings_nth(2) [OF run(1) that]
    by (simp add: unsigned_of_nat take_bit_nat_eq_self_iff)
  then have octets: "qp_octets (sent_params b' ?a) = map Some es"
    using read_at_value [OF run(3)] len by (intro nth_equalityI) (simp_all add: sent_params_def)
  have lengths: "qp_lengths (sent_params b' ?a) = map (\<lambda>e. of_nat (length e)) es"
    using encodings_nth(2) [OF run(1)] len by (intro nth_equalityI) (simp_all add: sent_params_def)
  have "sent_params b' ?a = params_for ts es"
    using octets lengths len by (simp add: sent_params_def params_for_def map_replicate_const)
  with run show ?thesis by blast
qed

definition known_params :: "'w conn \<Rightarrow> val list \<Rightarrow> bool" where
  "known_params s vs \<longleftrightarrow> (\<forall>v \<in> set vs. sendable (conn_oids s) v \<and> size_of v < 2 ^ 31)"

definition wire_params :: "oid_map \<Rightarrow> val list \<Rightarrow> query_params" where
  "wire_params omp vs =
     params_for (projr (oids_of omp (map ty_of vs))) (map (\<lambda>v. projr (encode omp v)) vs)"

lemma encodings_projr: "list_all2 (\<lambda>v e. encode omp v = Inr e) vs es \<Longrightarrow> map (\<lambda>v. projr (encode omp v)) vs = es"
  by (induction rule: list_all2_induct) simp_all

lemma serialize_params_wire:
  assumes "known_params s vs"
  shows "\<exists>a b'. serialize_params (conn_oids s) b vs = (Inr a, b') \<and> sent_params b' a = wire_params (conn_oids s) vs"
proof -
  from assms obtain a b' es ts where "serialize_params (conn_oids s) b vs = (Inr a, b')"
    "list_all2 (\<lambda>v e. encode (conn_oids s) v = Inr e) vs es" "oids_of (conn_oids s) (map ty_of vs) = Inr ts"
    "sent_params b' a = params_for ts es"
    using serialize_params_sends [of vs "conn_oids s" b] by (auto simp: known_params_def)
  then show ?thesis by (auto simp: wire_params_def encodings_projr)
qed

lemma lookup_new_udts_nothing:
  assumes "new_udts s = []" and "\<forall>t \<in> set ts. udts t \<subseteq> dom (conn_oids s)"
  shows "lookup_new_udts E ts s = Some (Inr no_error, s)"
proof -
  have "indices (extract_members (conn_oids s) ts (new_udts s)) = {}"
    using assms by (auto simp: extract_indices(2))
  then have "extract_members (conn_oids s) ts (new_udts s) = []" by (simp add: indices_def)
  with assms(1) show ?thesis by (simp add: lookup_new_udts_def)
qed

subsection \<open>Registration\<close>

definition row_gives :: "'r result_api \<Rightarrow> 'r result \<Rightarrow> nat \<Rightarrow> oid_pair \<Rightarrow> bool" where
  "row_gives A res i p \<longleftrightarrow>
     sbind (result_at A res (int i)) (as_row A [Scalar UInt32, Scalar UInt32]) =
       Inr (TupVal [SVal (VUInt32 (single p)), SVal (VUInt32 (array p))])"

definition found :: "oid_pair \<Rightarrow> bool" where
  "found p \<longleftrightarrow> single p \<noteq> 0xFFFFFFFF \<and> array p \<noteq> 0xFFFFFFFF"

lemma register_row:
  assumes "row_gives A res i p"
  shows "register_rows A res us (i # is) omp =
    (if \<not> found p then (Inr (err user_defined_type_does_not_exist), omp)
     else if i < length us then register_rows A res us is (emplace (type_index (us ! i)) p omp)
     else (Inl (Throw OutOfRange), omp))"
  using assms by (cases p) (simp add: row_gives_def found_def)

lemma emplace_dom [simp]: "dom (emplace i p omp) = insert i (dom omp)"
  by (auto simp: emplace_def)

lemma emplace_le: "omp \<subseteq>\<^sub>m emplace i p omp"
  by (auto simp: emplace_def map_le_def)

lemma register_rows_found:
  assumes "\<forall>i \<in> set is. i < length us \<and> row_gives A res i (p i) \<and> found (p i)"
  shows "\<exists>omp'. register_rows A res us (is @ js) omp = register_rows A res us js omp' \<and> omp \<subseteq>\<^sub>m omp' \<and>
    dom omp' = dom omp \<union> (\<lambda>i. type_index (us ! i)) ` set is"
  using assms
proof (induction "is" arbitrary: omp)
  case (Cons i "is")
  let ?omp = "emplace (type_index (us ! i)) (p i) omp"
  have i: "i < length us" "row_gives A res i (p i)" "found (p i)"
    and rest: "\<forall>i \<in> set is. i < length us \<and> row_gives A res i (p i) \<and> found (p i)"
    using Cons.prems by auto
  from Cons.IH [OF rest, of ?omp] obtain omp' where omp':
    "register_rows A res us (is @ js) ?omp = register_rows A res us js omp'" "?omp \<subseteq>\<^sub>m omp'"
    "dom omp' = dom ?omp \<union> (\<lambda>i. type_index (us ! i)) ` set is" by blast
  have "register_rows A res us ((i # is) @ js) omp = register_rows A res us js omp'"
    using register_row [OF i(2)] i(1,3) omp'(1) by simp
  moreover have "omp \<subseteq>\<^sub>m omp'" using emplace_le omp'(2) by (rule map_le_trans)
  ultimately show ?case using omp'(3) by (intro exI [of _ omp']) simp
qed auto

lemma register_all_found:
  assumes "\<forall>i < length us. row_gives A res i (p i) \<and> found (p i)"
  shows "\<exists>omp'. register_rows A res us [0..<length us] omp = (Inr no_error, omp') \<and> omp \<subseteq>\<^sub>m omp' \<and>
    dom omp' = dom omp \<union> indices us"
proof -
  have "(\<lambda>i. type_index (us ! i)) ` set [0..<length us] = indices us"
    by (force simp: indices_def in_set_conv_nth image_iff)
  with register_rows_found [of "[0..<length us]" us A res p "[]" omp] assms show ?thesis by auto
qed

lemma register_missing:
  assumes "\<forall>i < k. row_gives A res i (p i) \<and> found (p i)" and "row_gives A res k (p k)" and "\<not> found (p k)"
    and "k < n" and "k < length us"
  shows "\<exists>omp'. register_rows A res us [0..<n] omp = (Inr (err user_defined_type_does_not_exist), omp')"
proof -
  have split: "[0..<n] = [0..<k] @ k # [Suc k..<n]"
    using upt_add_eq_append [of 0 k "n - k"] assms(4) by (simp add: upt_conv_Cons)
  show ?thesis
    using register_rows_found [of "[0..<k]" us A res p "k # [Suc k..<n]" omp] assms
    by (auto simp: split register_row simp del: register_rows.simps)
qed

subsection \<open>Looking up object identifiers\<close>

definition names_of :: "udt_pair list \<Rightarrow> val" where
  "names_of us = VecVal (Scalar StringView) (map (name_value \<circ> udt_name) us)"

text \<open>The lookup of the names is accepted and answered with one result; the names fit into 2 GiB.\<close>

definition lookup_answered ::
  "('w, 'r) env \<Rightarrow> ('w \<Rightarrow> bool) \<Rightarrow> ('w \<Rightarrow> 'r result list) \<Rightarrow> udt_pair list \<Rightarrow> 'w conn \<Rightarrow> 'r result \<Rightarrow> bool" where
  "lookup_answered E P q us s res \<longleftrightarrow>
     size_of (names_of us) < 2 ^ 31 \<and>
     (case PQsendQueryParams E query_oids_text (wire_params (conn_oids s) [names_of us]) (pgconn s) of
        (ret, w) \<Rightarrow> ret \<noteq> 0 \<and> P w \<and> q w = [res, None]) \<and>
     \<not> failed (result_status_to_error_code E res)"

lemma lookup_answered_list [simp]:
  "lookup_answered E P q us (s\<lparr>new_udts := us'\<rparr>) res = lookup_answered E P q us s res"
  by (simp add: lookup_answered_def)

lemma names_sendable: "sendable omp (names_of us)"
  by (auto simp: sendable_def name_value_def names_of_def)

lemma names_serialize:
  "\<exists>a b'. serialize_params omp b [names_of us] = (Inr a, b')"
  using serialize_params_run [of "[names_of us]" omp b] names_sendable by auto

lemma query_oids_done:
  assumes w: "working E P rank q" and a: "lookup_answered E P q (new_udts s) s res"
    and r: "register_rows (results E) res (new_udts s) [0..<result_size (results E) res] (conn_oids s) = (r, omp)"
  shows "\<exists>w b. async_query_oids E s = Some (r, s\<lparr>pgconn := w, buffer := b, conn_oids := omp\<rparr>) \<and> q w = [] \<and> P w"
proof -
  have "known_params s [names_of (new_udts s)]"
    using a names_sendable by (simp add: known_params_def lookup_answered_def)
  then obtain x b where ser: "serialize_params (conn_oids s) (buffer s) [names_of (new_udts s)] = (Inr x, b)"
    and wire: "sent_params b x = wire_params (conn_oids s) [names_of (new_udts s)]"
    using serialize_params_wire by blast
  obtain i w1 where send: "PQsendQueryParams E query_oids_text (sent_params b x) (pgconn s) = (i, w1)"
    "i \<noteq> 0" "q w1 = [res, None]" "P w1"
    using a by (auto simp: lookup_answered_def wire split: prod.splits)
  obtain w2 where gen: "async_generic_single_result_query E (s\<lparr>buffer := b, pgconn := w1\<rparr>) =
      Some ((result_status_to_error_code E res, res), s\<lparr>buffer := b, pgconn := w2\<rparr>)" "q w2 = []" "P w2"
    using generic_done [OF w, of "s\<lparr>buffer := b, pgconn := w1\<rparr>"] send(3,4) by auto
  moreover have "s\<lparr>buffer := b, pgconn := w2, conn_oids := omp\<rparr> = s\<lparr>pgconn := w2, buffer := b, conn_oids := omp\<rparr>"
    by simp
  ultimately show ?thesis using ser send r a
    by (intro exI [of _ w2] exI [of _ b]) (simp add: async_query_oids_def Let_def lookup_answered_def names_of_def)
qed

lemma lookup_not_needed:
  assumes "extract_members (conn_oids s) ts (new_udts s) = []"
  shows "lookup_new_udts E ts s = Some (Inr no_error, s\<lparr>new_udts := []\<rparr>)" and "\<forall>t \<in> set ts. udts t \<subseteq> dom (conn_oids s)"
proof -
  show "lookup_new_udts E ts s = Some (Inr no_error, s\<lparr>new_udts := []\<rparr>)"
    using assms by (simp add: lookup_new_udts_def)
  have "indices (new_udts s) \<union> ((\<Union>t \<in> set ts. udts t) - dom (conn_oids s)) = {}"
    using assms extract_indices(2) [of "conn_oids s" ts "new_udts s"] by simp
  then show "\<forall>t \<in> set ts. udts t \<subseteq> dom (conn_oids s)" by auto
qed

lemma lookup_registered:
  assumes w: "working E P rank q"
    and us: "us = extract_members (conn_oids s) ts (new_udts s)" "us \<noteq> []"
    and a: "lookup_answered E P q us s res"
    and n: "result_size (results E) res = length us"
    and rows: "\<forall>i < length us. row_gives (results E) res i (p i) \<and> found (p i)"
  shows "\<exists>w b omp. lookup_new_udts E ts s =
      Some (Inr no_error, s\<lparr>new_udts := us, pgconn := w, buffer := b, conn_oids := omp\<rparr>) \<and>
    conn_oids s \<subseteq>\<^sub>m omp \<and> (\<forall>t \<in> set ts. udts t \<subseteq> dom omp) \<and> q w = [] \<and> P w"
proof -
  have all: "(\<Union>t \<in> set ts. udts t) \<subseteq> dom (conn_oids s) \<union> indices us"
    unfolding us extract_indices(2) by blast
  let ?s = "s\<lparr>new_udts := us\<rparr>"
  obtain omp where omp: "register_rows (results E) res us [0..<length us] (conn_oids s) = (Inr no_error, omp)"
    "conn_oids s \<subseteq>\<^sub>m omp" "dom omp = dom (conn_oids s) \<union> indices us"
    using register_all_found [OF rows] by blast
  obtain w' b where "async_query_oids E ?s = Some (Inr no_error, ?s\<lparr>pgconn := w', buffer := b, conn_oids := omp\<rparr>)"
    "q w' = []" "P w'"
    using query_oids_done [OF w, of ?s res] a n omp(1) by auto
  with us have "lookup_new_udts E ts s =
      Some (Inr no_error, ?s\<lparr>pgconn := w', buffer := b, conn_oids := omp\<rparr>)"
    by (simp add: lookup_new_udts_def)
  with omp all \<open>q w' = []\<close> \<open>P w'\<close> show ?thesis by (intro exI [of _ w'] exI [of _ b] exI [of _ omp]) auto
qed

lemma wire_params_encodings:
  assumes "list_all2 (\<lambda>v e. encode omp v = Inr e) vs es" and "oids_of omp (map ty_of vs) = Inr ts"
  shows "wire_params omp vs = params_for ts es"
  by (simp add: wire_params_def encodings_projr [OF assms(1)] assms(2))

lemma query_with_params_known:
  assumes "lookup_new_udts E (map ty_of vs) s = Some (Inr no_error, s1)" and "known_params s1 vs"
  shows "\<exists>b. query_with_params E vs e send s =
    sent_query E e (send (wire_params (conn_oids s1) vs) (pgconn s1)) (s1\<lparr>buffer := b\<rparr>)"
proof -
  obtain a b where "serialize_params (conn_oids s1) (buffer s1) vs = (Inr a, b)"
    "sent_params b a = wire_params (conn_oids s1) vs"
    using serialize_params_wire [OF assms(2)] by blast
  with assms(1) show ?thesis by (intro exI [of _ b]) (simp add: query_with_params_def)
qed

lemma known_params_lookup:
  "new_udts s = [] \<Longrightarrow> known_params s vs \<Longrightarrow> lookup_new_udts E (map ty_of vs) s = Some (Inr no_error, s)"
  by (intro lookup_new_udts_nothing) (auto simp: known_params_def sendable_def)

lemma lookup_missing:
  assumes w: "working E P rank q"
    and us: "us = extract_members (conn_oids s) ts (new_udts s)"
    and a: "lookup_answered E P q us s res"
    and n: "k < result_size (results E) res" "k < length us"
    and rows: "\<forall>i < k. row_gives (results E) res i (p i) \<and> found (p i)"
    and row: "row_gives (results E) res k (p k)" "\<not> found (p k)"
  shows "\<exists>s'. lookup_new_udts E ts s = Some (Inr (err user_defined_type_does_not_exist), s') \<and>
    new_udts s' = us \<and> q (pgconn s') = [] \<and> P (pgconn s')"
proof -
  let ?s = "s\<lparr>new_udts := us\<rparr>"
  obtain omp where "register_rows (results E) res us [0..<result_size (results E) res] (conn_oids s) =
      (Inr (err user_defined_type_does_not_exist), omp)"
    using register_missing [OF rows row n, of "conn_oids s"] by auto
  with query_oids_done [OF w, of ?s res] a obtain w' b where
    "async_query_oids E ?s = Some (Inr (err user_defined_type_does_not_exist),
       ?s\<lparr>pgconn := w', buffer := b, conn_oids := omp\<rparr>)" "q w' = []" "P w'" by fastforce
  moreover from n(2) have "us \<noteq> []" by auto
  ultimately show ?thesis by (simp add: lookup_new_udts_def us [symmetric])
qed

lemma register_rows_le: "omp \<subseteq>\<^sub>m snd (register_rows A res us is omp)"
proof (induction "is" arbitrary: omp)
  case (Cons i "is")
  have "omp \<subseteq>\<^sub>m snd (register_rows A res us is (emplace j p omp))" for j p
    using emplace_le Cons.IH by (rule map_le_trans)
  then show ?case
    by (auto split: sum.split val.split list.split scalar_val.split)
qed simp

lemma query_oids_keeps:
  assumes "async_query_oids E s = Some (r, s')"
  shows "new_udts s' = new_udts s" and "conn_oids s \<subseteq>\<^sub>m conn_oids s'" and "socket s' = socket s"
proof -
  let ?names = "VecVal (Scalar StringView) (map (name_value \<circ> udt_name) (new_udts s))"
  obtain x b where ser: "serialize_params (conn_oids s) (buffer s) [?names] = (x, b)" by fastforce
  have "new_udts s' = new_udts s \<and> conn_oids s \<subseteq>\<^sub>m conn_oids s' \<and> socket s' = socket s"
  proof (cases x)
    case (Inl e)
    with assms ser show ?thesis by (auto simp: async_query_oids_def)
  next
    case (Inr a)
    obtain i w where send: "PQsendQueryParams E query_oids_text (sent_params b a) (pgconn s) = (i, w)"
      by fastforce
    show ?thesis
    proof (cases "i = 0")
      case True
      with assms ser Inr send show ?thesis by (auto simp: async_query_oids_def)
    next
      case False
      with assms ser Inr send obtain ec res s1 where
        gen: "async_generic_single_result_query E (s\<lparr>buffer := b, pgconn := w\<rparr>) = Some ((ec, res), s1)"
        by (auto simp: async_query_oids_def bind_eq_Some_conv)
      let ?r = "register_rows (results E) res (new_udts s1) [0..<result_size (results E) res] (conn_oids s1)"
      from gen have s1: "conn_oids s1 = conn_oids s" "new_udts s1 = new_udts s" "socket s1 = socket s"
        using only_pgconn_fields [OF generic.op_keeps [OF gen, unfolded snd_conv]] by simp_all
      have "s' = s1 \<or> s' = s1\<lparr>conn_oids := snd ?r\<rparr>"
        using assms ser Inr send False gen
        by (simp add: async_query_oids_def Let_def split: if_splits prod.splits)
      with s1 register_rows_le [of "conn_oids s1"] show ?thesis by auto
    qed
  qed
  then show "new_udts s' = new_udts s" "conn_oids s \<subseteq>\<^sub>m conn_oids s'" "socket s' = socket s" by auto
qed

lemma lookup_keeps:
  assumes "lookup_new_udts E ts s = Some (r, s')"
  shows "new_udts s' = extract_members (conn_oids s) ts (new_udts s)" and "conn_oids s \<subseteq>\<^sub>m conn_oids s'"
    and "socket s' = socket s"
  using assms query_oids_keeps [of E "s\<lparr>new_udts := extract_members (conn_oids s) ts (new_udts s)\<rparr>" r s']
  by (auto simp: lookup_new_udts_def Let_def split: if_splits)

lemma query_with_params_keeps:
  assumes "query_with_params E vs e send s = Some (x, s')"
  shows "new_udts s' = extract_members (conn_oids s) (map ty_of vs) (new_udts s)"
    and "conn_oids s \<subseteq>\<^sub>m conn_oids s'" and "socket s' = socket s"
proof -
  obtain r s1 where look: "lookup_new_udts E (map ty_of vs) s = Some (r, s1)"
    using assms by (auto simp: query_with_params_def bind_eq_Some_conv)
  obtain a b where ser: "serialize_params (conn_oids s1) (buffer s1) vs = (a, b)" by fastforce
  have "s' = s1 \<or> s' = s1\<lparr>buffer := b\<rparr> \<or> only_pgconn (s1\<lparr>buffer := b\<rparr>) s'"
    using assms look ser
    by (auto simp: query_with_params_def split: sum.splits if_splits dest: sent_query_keeps)
  with lookup_keeps [OF look] show "new_udts s' = extract_members (conn_oids s) (map ty_of vs) (new_udts s)"
    "conn_oids s \<subseteq>\<^sub>m conn_oids s'" "socket s' = socket s"
    by (auto dest: only_pgconn_fields)
qed

lemma query_with_params_registers:
  assumes w: "working E P rank q"
    and us: "us = extract_members (conn_oids s) (map ty_of vs) (new_udts s)"
    and vs: "\<forall>v \<in> set vs. wf_val v \<and> encodable (ty_of v)"
    and a: "us \<noteq> [] \<Longrightarrow> lookup_answered E P q us s res"
    and n: "us \<noteq> [] \<Longrightarrow> result_size (results E) res = length us"
    and rows: "\<forall>i < length us. row_gives (results E) res i (p i) \<and> found (p i)"
    and s: "P (pgconn s)" and send: "\<And>ps. stays P (snd \<circ> send ps)"
  shows "\<exists>ec r s'. query_with_params E vs e send s = Some (Inr (ec, r), s') \<and>
    (\<forall>v \<in> set vs. sendable (conn_oids s') v)"
proof -
  have "\<exists>w1 b omp. lookup_new_udts E (map ty_of vs) s =
      Some (Inr no_error, s\<lparr>new_udts := us, pgconn := w1, buffer := b, conn_oids := omp\<rparr>) \<and>
    (\<forall>t \<in> set (map ty_of vs). udts t \<subseteq> dom omp) \<and> P w1"
  proof (cases "us = []")
    case True
    with lookup_not_needed [where s = s and ts = "map ty_of vs"] us s show ?thesis
      by (intro exI [of _ "pgconn s"] exI [of _ "buffer s"] exI [of _ "conn_oids s"]) simp
  next
    case False
    from lookup_registered [OF w us False a [OF False] n [OF False] rows] show ?thesis by blast
  qed
  then obtain w1 b omp where
    look: "lookup_new_udts E (map ty_of vs) s =
      Some (Inr no_error, s\<lparr>new_udts := us, pgconn := w1, buffer := b, conn_oids := omp\<rparr>)" (is "_ = Some (_, ?s)")
    and reg: "\<forall>v \<in> set vs. udts (ty_of v) \<subseteq> dom omp" and w1: "P w1" by auto
  from vs reg have send_ok: "\<forall>v \<in> set vs. sendable omp v" by (simp add: sendable_def)
  from serialize_params_run [OF send_ok, of b] obtain a' b' where
    ser: "serialize_params omp b vs = (Inr a', b')" by blast
  have run: "query_with_params E vs e send s =
      sent_query E e (send (sent_params b' a') w1) (?s\<lparr>buffer := b'\<rparr>)"
    using look ser by (simp add: query_with_params_def)
  obtain x s' where x: "sent_query E e (send (sent_params b' a') w1) (?s\<lparr>buffer := b'\<rparr>) = Some (x, s')"
    using sent_query_completes [OF workingD(1) [OF w], of "send (sent_params b' a') w1"] staysD [OF send w1]
    by (fastforce simp: completes_def)
  then obtain y where "x = Inr y" using sent_query_Inr by blast
  moreover have "conn_oids s' = omp"
    using only_pgconn_fields(1) [OF sent_query_keeps [OF x]] by simp
  ultimately show ?thesis using run x send_ok by (cases y) auto
qed

subsection \<open>Prepared answers\<close>

definition oid_rows :: "byte list option list list \<Rightarrow> reply" where
  "oid_rows cs = \<lparr>status = PGRES_TUPLES_OK, state_text = None,
     rows = \<lparr>columns = [(''coalesce'', 26), (''coalesce'', 26)], cells = cs\<rparr>\<rparr>"

definition employee_row :: "byte list option list" where
  "employee_row = [Some [0, 0, 64, 16], Some [0, 0, 64, 15]]"

definition missing_row :: "byte list option list" where
  "missing_row = [Some [255, 255, 255, 255], Some [255, 255, 255, 255]]"

definition employee :: val where
  "employee = UdtVal ''employee'' 7 [SVal (VString [53])]"

lemma oid_row_gives:
  "row_gives reply_api (Some (oid_rows [employee_row])) 0 \<lparr>single = 16400, array = 16399\<rparr>"
  "row_gives reply_api (Some (oid_rows [missing_row])) 0 \<lparr>single = 0xFFFFFFFF, array = 0xFFFFFFFF\<rparr>"
  by (simp_all add: row_gives_def view_simps reply_api_def table_api_def
      oid_rows_def employee_row_def missing_row_def to_size_t_def as_row_def
      as_field_def oids_of_builtin_def cell_def load_int_def
      load_be_def be_dec_def)

lemma oid_rows_size: "result_size reply_api (Some (oid_rows [c])) = 1"
  by (simp add: result_size_def reply_api_def table_api_def oid_rows_def to_size_t_def)

lemma script_lookup_answered:
  "answers (pgconn s) = Some (oid_rows [c]) # as \<Longrightarrow> pending (pgconn s) = [] \<Longrightarrow>
   size_of (names_of us) < 2 ^ 31 \<Longrightarrow> lookup_answered script (\<lambda>_. True) pending us s (Some (oid_rows [c]))"
  by (simp add: lookup_answered_def script_simps result_status_to_error_code_def reply_api_def
      oid_rows_def)

subsection \<open>Properties\<close>

text \<open>
  C26: the error code of a result is success exactly for tuples and completed commands; a fatal error
  with an SQLSTATE, and no other result, has a code of the SQLSTATE category, whose value is the
  five characters read as a number of base 36.
\<close>

theorem result_status_exact:
  assumes "\<And>str. PQresultSqlstate (results E) res = Some str \<Longrightarrow> sqlstate_wf str \<and> str \<noteq> ''00000''"
  shows "(\<not> failed (result_status_to_error_code E res) \<longleftrightarrow>
      PQresultStatus (results E) res \<in> {PGRES_SINGLE_TUPLE, PGRES_TUPLES_OK, PGRES_COMMAND_OK}) \<and>
    (ec_category (result_status_to_error_code E res) = SqlstateCategory \<longleftrightarrow>
      PQresultStatus (results E) res = PGRES_FATAL_ERROR \<and> PQresultSqlstate (results E) res \<noteq> None) \<and>
    (\<forall>str. PQresultStatus (results E) res = PGRES_FATAL_ERROR \<and> PQresultSqlstate (results E) res = Some str \<longrightarrow>
      ec_value (result_status_to_error_code E res) = int (read_digits36 0 str))"
proof (cases "PQresultStatus (results E) res = PGRES_FATAL_ERROR")
  case True
  have "ec_value (sqlstate_error_code str) = int (read_digits36 0 str)" if "sqlstate_wf str" for str
    using that by (simp add: sqlstate_error_code_def make_sqlstate_code_def sqlstate_wf_value)
  with True assms show ?thesis
    by (cases "PQresultSqlstate (results E) res")
      (auto simp: result_status_to_error_code_def sqlstate_failed_iff sqlstate_codes.mk_category)
next
  case False
  then show ?thesis
    by (cases "PQresultStatus (results E) res")
      (simp_all add: result_status_to_error_code_def)
qed

definition unique_violation_reply :: reply where
  "unique_violation_reply =
     \<lparr>status = PGRES_FATAL_ERROR, state_text = Some ''23505'', rows = \<lparr>columns = [], cells = []\<rparr>\<rparr>"

theorem result_status_exact_witness:
  "result_status_to_error_code script (Some unique_violation_reply) =
     \<lparr>ec_value = 3505685, ec_category = SqlstateCategory\<rparr>"
proof -
  let ?ec = "result_status_to_error_code script (Some unique_violation_reply)"
  have api: "PQresultStatus (results script) (Some unique_violation_reply) = PGRES_FATAL_ERROR"
    "PQresultSqlstate (results script) (Some unique_violation_reply) = Some ''23505''"
    by (simp_all add: script_simps unique_violation_reply_def)
  have "ec_value ?ec = int (read_digits36 0 ''23505'') \<and> ec_category ?ec = SqlstateCategory"
    using result_status_exact [of script "Some unique_violation_reply"] api
    by (simp add: sqlstate_wf_def digits36_def)
  then show ?thesis by (cases ?ec) (simp add: digit36_def Let_def)
qed

text \<open>
  C7: on a connection that works, a query with parameters of known types sends libpq the encodings of its
  parameters, whole, with their types; when libpq refuses them, it completes with the error for that, and
  otherwise with the one result and its error code, and every pending result is consumed.
\<close>

theorem query_sends_encodings:
  assumes "working E P rank q" and "new_udts s = []"
    and "\<forall>v \<in> set vs. sendable (conn_oids s) v \<and> size_of v < 2 ^ 31"
    and "list_all2 (\<lambda>v e. encode (conn_oids s) v = Inr e) vs es"
    and "oids_of (conn_oids s) (map ty_of vs) = Inr ts"
    and "PQsendQueryParams E query (params_for ts es) (pgconn s) = (i, w)"
  shows "(i = 0 \<longrightarrow> (\<exists>b. async_query E query vs s =
        Some (Inr (err pq_send_query_params_failed, None), s\<lparr>buffer := b, pgconn := w\<rparr>))) \<and>
    (i \<noteq> 0 \<and> P w \<and> q w = [r, None] \<longrightarrow> (\<exists>b w'. async_query E query vs s =
        Some (Inr (result_status_to_error_code E r, r), s\<lparr>buffer := b, pgconn := w'\<rparr>) \<and> q w' = [] \<and> P w'))"
proof -
  have known: "known_params s vs" using assms(3) by (simp add: known_params_def)
  obtain b where run: "async_query E query vs s = sent_query E pq_send_query_params_failed (i, w) (s\<lparr>buffer := b\<rparr>)"
    using query_with_params_known [OF known_params_lookup [OF assms(2) known] known, of E pq_send_query_params_failed
        "PQsendQueryParams E query"] assms(6)
    by (auto simp: async_query_def wire_params_encodings [OF assms(4,5)])
  show ?thesis
  proof (intro conjI impI)
    assume "i = 0"
    with run show "\<exists>b. async_query E query vs s =
        Some (Inr (err pq_send_query_params_failed, None), s\<lparr>buffer := b, pgconn := w\<rparr>)"
      by (auto simp: sent_query_def)
  next
    assume "i \<noteq> 0 \<and> P w \<and> q w = [r, None]"
    with sent_query_done [OF assms(1), of i w r pq_send_query_params_failed "s\<lparr>buffer := b\<rparr>"] run
    show "\<exists>b w'. async_query E query vs s =
        Some (Inr (result_status_to_error_code E r, r), s\<lparr>buffer := b, pgconn := w'\<rparr>) \<and> q w' = [] \<and> P w'"
      by auto
  qed
qed

theorem query_sends_encodings_witness:
  "\<exists>b w'. async_query script ''SELECT $1'' [SVal (VInt32 32)] (fresh (idle_server\<lparr>answers := [Some completed]\<rparr>)) =
     Some (Inr (no_error, Some completed), fresh idle_server\<lparr>buffer := b, pgconn := w'\<rparr>) \<and> pending w' = []"
proof -
  let ?w = "idle_server\<lparr>answers := [Some completed]\<rparr>"
  have code: "result_status_to_error_code script (Some completed) = no_error"
    by (simp add: result_status_to_error_code_def script_simps completed_def)
  have send: "PQsendQueryParams script ''SELECT $1'' (params_for [23] [[0, 0, 0, 32]]) (pgconn (fresh ?w)) =
      (1, idle_server\<lparr>pending := [Some completed, None], unsent := 1, events := 1\<rparr>)"
    by (simp add: script_simps)
  have "\<exists>b w'. async_query script ''SELECT $1'' [SVal (VInt32 32)] (fresh ?w) =
      Some (Inr (result_status_to_error_code script (Some completed), Some completed), fresh ?w\<lparr>buffer := b, pgconn := w'\<rparr>) \<and> pending w' = []"
    using query_sends_encodings [OF script_working [of "\<lambda>_ _. True"] _ _ _ _ send, of "[SVal (VInt32 32)]" "Some completed"]
    by (simp add: fresh_def sendable_def store_be_def be_enc_unroll oids_of_builtin_def)
  then show ?thesis by (simp add: code fresh_def)
qed



subsection \<open>A type that the server does not know\<close>

text \<open>
  A server with a fixed catalog of types: every lookup of names is answered with a row for each name, which
  has the identifiers of the catalog, or -1 for a name that is not in it.
\<close>

definition answers_lookups ::
  "('w, 'r) env \<Rightarrow> ('w \<Rightarrow> bool) \<Rightarrow> ('w \<Rightarrow> 'r result list) \<Rightarrow> (string \<Rightarrow> oid_pair) \<Rightarrow> bool" where
  "answers_lookups E P q catalog \<longleftrightarrow>
     (\<forall>omp us w. P w \<and> q w = [] \<and> size_of (names_of us) < 2 ^ 31 \<longrightarrow>
        (case PQsendQueryParams E query_oids_text (wire_params omp [names_of us]) w of
           (ret, w') \<Rightarrow> ret \<noteq> 0 \<and> P w' \<and>
             (\<exists>res. q w' = [res, None] \<and> \<not> failed (result_status_to_error_code E res) \<and>
                result_size (results E) res = length us \<and>
                (\<forall>i < length us. row_gives (results E) res i (catalog (udt_name (us ! i)))))))"

text \<open>The operations with a parameter list, and several of them one after the other.\<close>

datatype param_query = Query string (query_args: "val list") | Prepared string (query_args: "val list")

primrec run_param_query :: "('w, 'r) env \<Rightarrow> param_query \<Rightarrow> 'w conn \<Rightarrow> ((error_code \<times> 'r result) res, 'w) io" where
  "run_param_query E (Query query vs) s = async_query E query vs s"
| "run_param_query E (Prepared stmt_name vs) s = async_query_prepared E stmt_name vs s"

primrec run_param_queries ::
  "('w, 'r) env \<Rightarrow> param_query list \<Rightarrow> 'w conn \<Rightarrow> ((error_code \<times> 'r result) res list, 'w) io" where
  "run_param_queries E [] s = Some ([], s)"
| "run_param_queries E (c # cs) s = do {
     (x, s) \<leftarrow> run_param_query E c s;
     (xs, s) \<leftarrow> run_param_queries E cs s;
     Some (x # xs, s) }"

text \<open>All the types that the parameters of a query mention.\<close>

definition mentioned :: "param_query \<Rightarrow> udt_pair list" where
  "mentioned c = extract_members Map.empty (map ty_of (query_args c)) []"

lemma names_size: "size_of (names_of us) = 20 + (\<Sum>u \<leftarrow> us. 4 + length (udt_name u))"
proof -
  have "4 + size_of (name_value name) = 4 + length name" for name by (simp add: name_value_def)
  then show ?thesis
    using foldl_add_sum [of "\<lambda>v. size_of v + 4" 20 "map (name_value \<circ> udt_name) us"]
    by (simp add: names_of_def comp_def add.commute)
qed

lemma sum_list_filter_le: "sum_list (map f (filter Q xs)) \<le> sum_list (map f xs)" for f :: "'a \<Rightarrow> nat"
  by (induction xs) simp_all

lemma extract_mentioned:
  "\<exists>new. extract_members omp (map ty_of (query_args c)) us = us @ new \<and>
     size_of (names_of (us @ new @ rest)) \<le> size_of (names_of (us @ mentioned c @ rest))"
  using extract_members_acc [OF extract_new_udts_acc, of omp "map ty_of (query_args c)" us]
    extract_members_unknown [of omp "map ty_of (query_args c)"]
    sum_list_filter_le [of "\<lambda>u. 4 + length (udt_name u)" "unknown omp" "mentioned c"]
  by (intro exI [of _ "filter (unknown omp) (mentioned c)"]) (simp add: mentioned_def names_size)

lemma unknown_type_fails:
  assumes w: "working E P rank q" and l: "answers_lookups E P q catalog"
    and s: "P (pgconn s)" "q (pgconn s) = []"
    and us: "us = extract_members (conn_oids s) ts (new_udts s)" "size_of (names_of us) < 2 ^ 31"
    and u: "u \<in> set us" "\<not> found (catalog (udt_name u))"
  shows "\<exists>s'. lookup_new_udts E ts s = Some (Inr (err user_defined_type_does_not_exist), s') \<and>
    new_udts s' = us \<and> q (pgconn s') = [] \<and> P (pgconn s')"
proof -
  let ?p = "\<lambda>i. catalog (udt_name (us ! i))"
  obtain ret w1 where send: "PQsendQueryParams E query_oids_text (wire_params (conn_oids s) [names_of us]) (pgconn s) = (ret, w1)"
    by fastforce
  have "ret \<noteq> 0 \<and> P w1 \<and> (\<exists>res. q w1 = [res, None] \<and> \<not> failed (result_status_to_error_code E res) \<and>
      result_size (results E) res = length us \<and> (\<forall>i < length us. row_gives (results E) res i (?p i)))"
    using l [unfolded answers_lookups_def, rule_format, of "pgconn s" us "conn_oids s"] s us(2) send by simp
  then obtain res where res: "lookup_answered E P q us s res" "result_size (results E) res = length us"
    "\<forall>i < length us. row_gives (results E) res i (?p i)"
    using send us(2) by (auto simp: lookup_answered_def)
  let ?bad = "\<lambda>k. k < length us \<and> \<not> found (?p k)"
  have "\<exists>k. ?bad k" using u by (metis in_set_conv_nth)
  then obtain k where "?bad k" "\<forall>i < k. \<not> ?bad i" using exists_least_iff [of ?bad] by blast
  with lookup_missing [OF w us(1) res(1), of k ?p] res(2,3) show ?thesis by auto
qed

lemma unknown_type_fails_query:
  assumes "working E P rank q" and "answers_lookups E P q catalog" and "P (pgconn s)" and "q (pgconn s) = []"
    and "u \<in> set (extract_members (conn_oids s) (map ty_of (query_args c)) (new_udts s))"
    and "\<not> found (catalog (udt_name u))"
    and size: "size_of (names_of (new_udts s @ mentioned c @ rest)) < 2 ^ 31"
  shows "\<exists>s'. run_param_query E c s = Some (Inr (err user_defined_type_does_not_exist, None), s') \<and>
    u \<in> set (new_udts s') \<and> P (pgconn s') \<and> q (pgconn s') = [] \<and>
    size_of (names_of (new_udts s' @ rest)) < 2 ^ 31"
proof -
  let ?us = "extract_members (conn_oids s) (map ty_of (query_args c)) (new_udts s)"
  have size': "size_of (names_of (?us @ rest)) < 2 ^ 31"
    using extract_mentioned [of "conn_oids s" c "new_udts s" rest] size by auto
  then have "size_of (names_of ?us) < 2 ^ 31" by (simp add: names_size)
  with unknown_type_fails [OF assms(1-4) refl _ assms(5,6)] obtain s' where
    "lookup_new_udts E (map ty_of (query_args c)) s = Some (Inr (err user_defined_type_does_not_exist), s')"
    "new_udts s' = ?us" "q (pgconn s') = []" "P (pgconn s')" by auto
  with assms(5) size' show ?thesis
    by (cases c) (simp_all add: async_query_def async_query_prepared_def query_with_params_def)
qed

lemma unknown_type_fails_queries:
  assumes "working E P rank q" and "answers_lookups E P q catalog" and "\<not> found (catalog (udt_name u))"
  shows "P (pgconn s) \<Longrightarrow> q (pgconn s) = [] \<Longrightarrow> u \<in> set (new_udts s) \<Longrightarrow>
    size_of (names_of (new_udts s @ concat (map mentioned cs))) < 2 ^ 31 \<Longrightarrow>
    \<exists>s'. run_param_queries E cs s =
        Some (replicate (length cs) (Inr (err user_defined_type_does_not_exist, None)), s') \<and>
      u \<in> set (new_udts s')"
proof (induction cs arbitrary: s)
  case (Cons c cs)
  have "u \<in> set (extract_members (conn_oids s) (map ty_of (query_args c)) (new_udts s))"
    using extract_members_appends Cons.prems(3) by blast
  with unknown_type_fails_query [OF assms(1,2) Cons.prems(1,2) _ assms(3), of c "concat (map mentioned cs)"] Cons.prems(4)
  obtain s1 where "run_param_query E c s = Some (Inr (err user_defined_type_does_not_exist, None), s1)"
    "u \<in> set (new_udts s1)" "P (pgconn s1)" "q (pgconn s1) = []"
    "size_of (names_of (new_udts s1 @ concat (map mentioned cs))) < 2 ^ 31" by auto
  with Cons.IH [of s1] show ?case by auto
qed simp

text \<open>
  C24: a type that the server does not know makes its query and every later query with a parameter list
  fail, whatever their texts and parameters, prepared or not: it stays on the list of types to look up, so
  each of them looks it up again and completes with the error of the missing type.
\<close>

theorem missing_type_fails_queries:
  assumes "working E P rank q" and "answers_lookups E P q catalog" and "P (pgconn s)" and "q (pgconn s) = []"
    and "u \<in> set (extract_members (conn_oids s) (map ty_of (query_args c)) (new_udts s))"
    and "\<not> found (catalog (udt_name u))"
    and "size_of (names_of (new_udts s @ concat (map mentioned (c # cs)))) < 2 ^ 31"
  shows "\<exists>s'. run_param_queries E (c # cs) s =
      Some (replicate (Suc (length cs)) (Inr (err user_defined_type_does_not_exist, None)), s') \<and>
    u \<in> set (new_udts s')"
proof -
  obtain s1 where s1: "run_param_query E c s = Some (Inr (err user_defined_type_does_not_exist, None), s1)"
    "u \<in> set (new_udts s1)" "P (pgconn s1)" "q (pgconn s1) = []"
    "size_of (names_of (new_udts s1 @ concat (map mentioned cs))) < 2 ^ 31"
    using unknown_type_fails_query [OF assms(1-6), of "concat (map mentioned cs)"] assms(7) by auto
  with unknown_type_fails_queries [OF assms(1,2,6) s1(3,4,2,5)] show ?thesis by auto
qed

text \<open>The server of the script with an empty catalog.\<close>

definition names_sent :: "query_params \<Rightarrow> nat" where
  "names_sent ps =
     (case qp_octets ps of Some bs # _ \<Rightarrow> unat (load_be (take 4 (drop 12 bs)) :: 32 word) | _ \<Rightarrow> 0)"

definition no_types :: "(server, reply) env" where
  "no_types = script\<lparr>PQsendQueryParams := \<lambda>query ps w.
     (1, w\<lparr>pending := pending w @ [Some (oid_rows (replicate (names_sent ps) missing_row)), None],
           unsent := unsent w + 1, events := events w + 1\<rparr>)\<rparr>"

lemma no_types_working: "working no_types (\<lambda>_. True) work_left pending"
  using script_working [of "\<lambda>_ _. True"] by (simp add: no_types_def)

lemma names_sent_names: "size_of (names_of us) < 2 ^ 31 \<Longrightarrow> names_sent (wire_params omp [names_of us]) = length us"
proof -
  assume size: "size_of (names_of us) < 2 ^ 31"
  have "4 * length us \<le> (\<Sum>u \<leftarrow> us. 4 + length (udt_name u))" by (induction us) simp_all
  with size have n: "length us < 2 ^ 31" by (simp add: names_size)
  obtain bs where bs: "encode omp (names_of us) = Inr bs" using sendable_encode [OF names_sendable] ..
  then obtain i es where "bs = int32_octets 1 @ int32_octets 0 @ int32_octets i @ int32_octets (of_nat (length us)) @
      int32_octets 0 @ es"
    by (auto simp: names_of_def rappend_Inr_iff encode_array_header_def sbind_Inr_iff)
  then have "load_be (take 4 (drop 12 bs)) = (of_nat (length us) :: 32 word)"
    using load_int32_octets [of "of_nat (length us)" "[]"] by (simp add: load_int_def)
  with n bs show ?thesis
    by (simp add: names_sent_def wire_params_def params_for_def unat_of_nat take_bit_nat_eq_self)
qed

lemma missing_rows_size: "n < 2 ^ 31 \<Longrightarrow> result_size reply_api (Some (oid_rows (replicate n missing_row))) = n"
  by (simp add: result_size_def reply_api_def table_api_def oid_rows_def to_size_t_of_nat min_def)

lemma missing_rows_give:
  assumes "i < n" and "n < 2 ^ 31"
  shows "row_gives reply_api (Some (oid_rows (replicate n missing_row))) i \<lparr>single = 0xFFFFFFFF, array = 0xFFFFFFFF\<rparr>"
proof -
  have "min (int n) 2147483647 = int n" using assms(2) by simp
  with assms show ?thesis
    by (simp add: row_gives_def view_simps reply_api_def table_api_def
      oid_rows_def missing_row_def to_size_t_of_nat to_size_t_def as_row_def
      as_field_def oids_of_builtin_def cell_def load_int_def
      load_be_def be_dec_def)
qed

lemma no_types_answers:
  "answers_lookups no_types (\<lambda>_. True) pending (\<lambda>name. \<lparr>single = 0xFFFFFFFF, array = 0xFFFFFFFF\<rparr>)"
  unfolding answers_lookups_def
proof (intro allI impI)
  fix omp us and w :: server
  assume "True \<and> pending w = [] \<and> size_of (names_of us) < 2 ^ 31"
  then have w: "pending w = []" and size: "size_of (names_of us) < 2 ^ 31" by auto
  have "4 * length us \<le> (\<Sum>u \<leftarrow> us. 4 + length (udt_name u))" by (induction us) simp_all
  with size have n: "length us < 2 ^ 31" by (simp add: names_size)
  have "results no_types = reply_api" by (simp add: no_types_def script_simps)
  moreover have "\<not> failed (result_status_to_error_code no_types (Some (oid_rows cs)))" for cs
    by (simp add: result_status_to_error_code_def no_types_def script_simps oid_rows_def)
  ultimately show "case PQsendQueryParams no_types query_oids_text (wire_params omp [names_of us]) w of (ret, w') \<Rightarrow>
      ret \<noteq> 0 \<and> True \<and> (\<exists>res. pending w' = [res, None] \<and> \<not> failed (result_status_to_error_code no_types res) \<and>
        result_size (results no_types) res = length us \<and>
        (\<forall>i < length us. row_gives (results no_types) res i \<lparr>single = 0xFFFFFFFF, array = 0xFFFFFFFF\<rparr>))"
    using w n missing_rows_size [OF n] missing_rows_give [OF _ n] names_sent_names [OF size]
    by (simp add: no_types_def)
qed

theorem missing_type_fails_queries_witness:
  "\<exists>s'. run_param_queries no_types [Query ''SELECT $1'' [employee], Prepared ''add_two'' [SVal (VInt32 1)], Query ''SELECT 1'' []]
       (fresh idle_server) =
     Some (replicate 3 (Inr (err user_defined_type_does_not_exist, None)), s') \<and>
   \<lparr>udt_name = ''employee'', type_index = 7\<rparr> \<in> set (new_udts s')"
  using missing_type_fails_queries [OF no_types_working no_types_answers, of "fresh idle_server"
      "\<lparr>udt_name = ''employee'', type_index = 7\<rparr>" "Query ''SELECT $1'' [employee]"
      "[Prepared ''add_two'' [SVal (VInt32 1)], Query ''SELECT 1'' []]"]
  by (simp add: fresh_def idle_server_def employee_def found_def mentioned_def names_size numeral_3_eq_3)

lemma lookup_refused:
  "\<exists>x s'. async_query script ''SELECT $1'' [employee] (fresh idle_server) = Some (x, s') \<and>
     x = Inr (err pq_send_query_params_failed, None)"
proof -
  let ?s = "fresh idle_server\<lparr>new_udts := [\<lparr>udt_name = ''employee'', type_index = 7\<rparr>]\<rparr>"
  let ?names = "VecVal (Scalar StringView) (map (name_value \<circ> udt_name) (new_udts ?s))"
  obtain a b where "serialize_params (conn_oids ?s) (buffer ?s) [?names] = (Inr a, b)"
    using names_serialize unfolding names_of_def by blast
  then show ?thesis
    by (simp add: async_query_def query_with_params_def lookup_new_udts_def async_query_oids_def employee_def
        script_simps)
qed

text \<open>
  C23: what a query leaves of the registry: registered object identifiers are never replaced or dropped,
  and the list of types to look up only grows, by the unregistered types of the parameters; nothing
  ever removes a type from it, not even its registration.
\<close>

theorem query_registry_grows:
  assumes "async_query E query vs s = Some (x, s')"
  shows "conn_oids s \<subseteq>\<^sub>m conn_oids s' \<and>
    (\<exists>new. new_udts s' = new_udts s @ new \<and>
      indices new = (\<Union>v \<in> set vs. udts (ty_of v)) - dom (conn_oids s))"
  using query_with_params_keeps [OF assms [unfolded async_query_def]]
    extract_members_new [of "conn_oids s" "map ty_of vs" "new_udts s"] by simp

theorem query_registry_grows_witness:
  "\<exists>s' new. async_query script ''SELECT $1'' [employee] (fresh idle_server) =
       Some (Inr (err pq_send_query_params_failed, None), s') \<and>
     new_udts s' = [] @ new \<and> indices new = {7}"
proof -
  obtain x s' where run: "async_query script ''SELECT $1'' [employee] (fresh idle_server) = Some (x, s')"
    and x: "x = Inr (err pq_send_query_params_failed, None)"
    using lookup_refused by blast
  from query_registry_grows [OF run] run x show ?thesis
    by (auto simp: fresh_def employee_def)
qed

text \<open>
  C37: on a connection that works, preparing and describing complete with the one result that the server sends and its error code,
  consume every pending result and leave the rest of the connection alone; a command that libpq refuses
  is reported with the error of that command.
\<close>

theorem commands_complete_with_result:
  assumes "working E P rank q"
    and "(op, e, send) \<in>
      {(async_prepare E a b, pq_send_prepare_failed, PQsendPrepare E a b),
       (async_describe_prepared E a, pq_send_describe_prepared_failed, PQsendDescribePrepared E a),
       (async_describe_portal E a, pq_send_describe_portal_failed, PQsendDescribePortal E a)}"
    and "send (pgconn s) = (i, w)"
  shows "(i = 0 \<longrightarrow> op s = Some (Inr (err e, None), s\<lparr>pgconn := w\<rparr>)) \<and>
    (i \<noteq> 0 \<and> P w \<and> q w = [r, None] \<longrightarrow>
      (\<exists>w'. op s = Some (Inr (result_status_to_error_code E r, r), s\<lparr>pgconn := w'\<rparr>) \<and> q w' = [] \<and> P w'))"
proof -
  have "op s = sent_query E e (i, w) s"
    using assms(2,3)
    by (auto simp: async_prepare_def async_describe_prepared_def async_describe_portal_def)
  then show ?thesis
    using sent_query_done [OF assms(1), of i w r e s] by (auto simp: sent_query_def)
qed

theorem commands_complete_with_result_witness:
  "\<exists>w'. async_prepare script ''add_two'' ''SELECT $1 + $2'' (fresh (idle_server\<lparr>answers := [Some completed]\<rparr>)) =
     Some (Inr (no_error, Some completed), fresh w') \<and> pending w' = []"
proof -
  let ?s = "fresh (idle_server\<lparr>answers := [Some completed]\<rparr>)"
  have send: "PQsendPrepare script ''add_two'' ''SELECT $1 + $2'' (pgconn ?s) =
      (1, idle_server\<lparr>pending := [Some completed, None], unsent := 1, events := 1\<rparr>)"
    by (simp add: script_simps)
  have code: "result_status_to_error_code script (Some completed) = no_error"
    by (simp add: result_status_to_error_code_def script_simps completed_def)
  show ?thesis
    using commands_complete_with_result [OF script_working [of "\<lambda>_ _. True"], of
        "async_prepare script ''add_two'' ''SELECT $1 + $2''" pq_send_prepare_failed
        "PQsendPrepare script ''add_two'' ''SELECT $1 + $2''" "''add_two''" "''SELECT $1 + $2''", OF _ send,
        of "Some completed"]
    by (simp add: code) (simp add: fresh_def)
qed

end
