(* ===== verification/Server.thy ===== *)
theory Server
  imports Queries
begin

text \<open>
  Queries to a server with a database: what a query completes with, and the way of a value through
  serialization, the server and back.
\<close>

subsection \<open>A server with a database\<close>

text \<open>
  \<open>exec query ps d\<close> is the result of a command in the state \<open>d\<close> of the database, and the state after it.
  \<open>P d\<close> are the worlds outside of pipeline mode whose database is in the state \<open>d\<close> when the pending command
  is done: with nothing to receive, the next command is accepted, and its result and the null that ends it
  are then to be received. \<open>M d\<close> are the worlds in pipeline mode in which every command so far succeeded:
  commands are accepted one after the other. After one that fails, nothing is assumed.
\<close>

type_synonym ('d, 'r) executor = "string \<Rightarrow> query_params \<Rightarrow> 'd \<Rightarrow> 'r result \<times> 'd"

definition answering ::
  "('w, 'r) env \<Rightarrow> ('d \<Rightarrow> 'w \<Rightarrow> bool) \<Rightarrow> ('w \<Rightarrow> 'r result list) \<Rightarrow> ('d, 'r) executor \<Rightarrow> bool" where
  "answering E P q exec \<longleftrightarrow>
     (\<forall>d query ps w. P d w \<and> q w = [] \<longrightarrow>
        (case PQsendQueryParams E query ps w of (i, w') \<Rightarrow>
           i \<noteq> 0 \<and> q w' = [fst (exec query ps d), None] \<and> P (snd (exec query ps d)) w'))"

definition answering_pipelined ::
  "('w, 'r) env \<Rightarrow> ('d \<Rightarrow> 'w \<Rightarrow> bool) \<Rightarrow> ('w \<Rightarrow> 'r result list) \<Rightarrow> ('d, 'r) executor \<Rightarrow> bool" where
  "answering_pipelined E M q exec \<longleftrightarrow>
     (\<forall>d query ps w. M d w \<longrightarrow>
        (case PQsendQueryParams E query ps w of (i, w') \<Rightarrow>
           i \<noteq> 0 \<and> q w' = q w @ [fst (exec query ps d), None] \<and>
           (\<not> failed (result_status_to_error_code E (fst (exec query ps d))) \<longrightarrow> M (snd (exec query ps d)) w')))"

text \<open>The results of several commands one after the other, and the state after them.\<close>

fun server_run ::
  "('d, 'r) executor \<Rightarrow> oid_map \<Rightarrow> (string \<times> val list) list \<Rightarrow> 'd \<Rightarrow> 'r result list \<times> 'd" where
  "server_run exec omp [] d = ([], d)"
| "server_run exec omp ((query, vs) # xs) d =
     (case exec query (wire_params omp vs) d of (r, d1) \<Rightarrow>
      case server_run exec omp xs d1 of (rs, d2) \<Rightarrow> (r # rs, d2))"

lemma query_answered_lookup:
  assumes w: "\<And>d. working E (P d) rank q" and a: "answering E P q exec"
    and look: "lookup_new_udts E (map ty_of vs) s = Some (Inr no_error, s1)" and known: "known_params s1 vs"
    and s1: "P d (pgconn s1)" "q (pgconn s1) = []"
    and run: "exec query (wire_params (conn_oids s1) vs) d = (r, d')"
  shows "\<exists>b w. async_query E query vs s =
    Some (Inr (result_status_to_error_code E r, r), s1\<lparr>buffer := b, pgconn := w\<rparr>) \<and> q w = [] \<and> P d' w"
proof -
  obtain i w where send: "PQsendQueryParams E query (wire_params (conn_oids s1) vs) (pgconn s1) = (i, w)" by fastforce
  with a [unfolded answering_def, rule_format, of d "pgconn s1" query "wire_params (conn_oids s1) vs"] s1 run
  have sent: "i \<noteq> 0" "P d' w" "q w = [r, None]" by simp_all
  obtain b where "async_query E query vs s = sent_query E pq_send_query_params_failed (i, w) (s1\<lparr>buffer := b\<rparr>)"
    using query_with_params_known [OF look known, of pq_send_query_params_failed "PQsendQueryParams E query"]
      send by (auto simp: async_query_def)
  with sent_query_done [OF w sent, of pq_send_query_params_failed "s1\<lparr>buffer := b\<rparr>"]
  show ?thesis by auto
qed

lemma query_answered:
  assumes "\<And>d. working E (P d) rank q" and "answering E P q exec" and "new_udts s = []" and "known_params s vs"
    and "P d (pgconn s)" and "q (pgconn s) = []" and "exec query (wire_params (conn_oids s) vs) d = (r, d')"
  shows "\<exists>b w. async_query E query vs s =
    Some (Inr (result_status_to_error_code E r, r), s\<lparr>buffer := b, pgconn := w\<rparr>) \<and> q w = [] \<and> P d' w"
  by (rule query_answered_lookup [OF assms(1,2) known_params_lookup [OF assms(3,4)] assms(4-7)])

subsection \<open>A value sent to the server and back\<close>

text \<open>
  The result of a query that selects its one parameter: a single row with one field, which has the
  octets and the type that were sent.
\<close>

definition echoed :: "'r result_api \<Rightarrow> query_params \<Rightarrow> 'r result \<Rightarrow> bool" where
  "echoed A ps res \<longleftrightarrow>
     PQresultStatus A res = PGRES_TUPLES_OK \<and> PQntuples A res = 1 \<and> PQnfields A res = 1 \<and>
     (\<exists>t bs tail. qp_types ps = [t] \<and> qp_octets ps = [Some bs] \<and> PQftype A res 0 = t \<and>
        PQgetvalue A res 0 0 = bs @ tail \<and> PQgetlength A res 0 0 = int (length bs))"

definition echoes :: "'r result_api \<Rightarrow> (query_params \<Rightarrow> 'r result) \<Rightarrow> bool" where
  "echoes A f \<longleftrightarrow> (\<forall>t bs. length bs < 2 ^ 31 \<longrightarrow> echoed A (params_for [t] [bs]) (f (params_for [t] [bs])))"

lemma echoed_as_result:
  assumes v: "sendable omp v" "decodable (ty_of v)" "size_of v < 2 ^ 31"
    and e: "echoed A (wire_params omp [v]) res"
  shows "as_result A [ty_of v] res = Inr (norm v)"
proof -
  obtain bs where bs: "encode omp v = Inr bs" using sendable_encode [OF v(1)] ..
  then have len: "length bs = size_of v" using encodings_nth(2) [of omp "[v]" "[bs]" 0] by simp
  obtain t where t: "oid_of omp (ty_of v) = Inr t"
    using serialize_params_sends [of "[v]" omp] v by (auto simp: sbind_Inr_iff)
  let ?f = "\<lparr>field_result = res, field_row = 0, field_col = 0\<rparr>"
  from e t bs obtain tail where f: "field_oid A ?f = t" "field_data A ?f = bs @ tail" "field_size A ?f = length bs"
    using len v(3)
    by (auto simp: echoed_def wire_params_def params_for_def view_simps to_size_t_nonneg)
  have "as_field A (ty_of v) ?f = Inr (norm v)"
    by (rule as_field_reads [of v omp bs]) (use v t bs len f in \<open>auto simp: sendable_def\<close>)
  moreover have "result_at A res 0 = Inr \<lparr>row_result = res, row_index = 0\<rparr>"
    "row_at A \<lparr>row_result = res, row_index = 0\<rparr> 0 = Inr ?f"
    using e by (simp_all add: echoed_def view_simps to_size_t_nonneg)
  ultimately show ?thesis by (auto simp: as_result_def as_row_def)
qed

text \<open>
  In the state \<open>d\<close> the server knows the types of a list: it answers the lookup of their names with a row for
  each, with the identifiers \<open>p\<close>. \<open>after_lookup\<close> is the state after the lookup, if one is made.
\<close>

definition knows_types ::
  "('w, 'r) env \<Rightarrow> ('d, 'r) executor \<Rightarrow> 'd \<Rightarrow> oid_map \<Rightarrow> udt_pair list \<Rightarrow> (nat \<Rightarrow> oid_pair) \<Rightarrow> bool" where
  "knows_types E exec d omp us p \<longleftrightarrow>
     (let res = fst (exec query_oids_text (wire_params omp [names_of us]) d) in
      size_of (names_of us) < 2 ^ 31 \<and> \<not> failed (result_status_to_error_code E res) \<and>
      result_size (results E) res = length us \<and>
      (\<forall>i < length us. row_gives (results E) res i (p i) \<and> found (p i)))"

definition after_lookup :: "('d, 'r) executor \<Rightarrow> 'd \<Rightarrow> oid_map \<Rightarrow> udt_pair list \<Rightarrow> 'd" where
  "after_lookup exec d omp us =
     (if us = [] then d else snd (exec query_oids_text (wire_params omp [names_of us]) d))"

lemma answering_lookup:
  assumes w: "\<And>d. working E (P d) rank q" and a: "answering E P q exec"
    and s: "P d (pgconn s)" "q (pgconn s) = []"
    and us: "us = extract_members (conn_oids s) ts (new_udts s)"
    and k: "us \<noteq> [] \<Longrightarrow> knows_types E exec d (conn_oids s) us p"
  shows "\<exists>s1. lookup_new_udts E ts s = Some (Inr no_error, s1) \<and> q (pgconn s1) = [] \<and>
    P (after_lookup exec d (conn_oids s) us) (pgconn s1) \<and> (\<forall>t \<in> set ts. udts t \<subseteq> dom (conn_oids s1))"
proof (cases "us = []")
  case True
  with lookup_not_needed [where s = s and ts = ts] us s show ?thesis
    by (intro exI [of _ "s\<lparr>new_udts := []\<rparr>"]) (simp add: after_lookup_def)
next
  case False
  let ?run = "exec query_oids_text (wire_params (conn_oids s) [names_of us]) d"
  obtain i w' where send: "PQsendQueryParams E query_oids_text (wire_params (conn_oids s) [names_of us]) (pgconn s) = (i, w')"
    by fastforce
  with a [unfolded answering_def, rule_format, of d "pgconn s" query_oids_text "wire_params (conn_oids s) [names_of us]"] s
  have sent: "i \<noteq> 0" "P (snd ?run) w'" "q w' = [fst ?run, None]" by simp_all
  have "lookup_answered E (P (snd ?run)) q us s (fst ?run)"
    using k [OF False] send sent by (simp add: lookup_answered_def knows_types_def Let_def)
  from lookup_registered [OF w us False this] k [OF False] show ?thesis
    using False by (fastforce simp: knows_types_def Let_def after_lookup_def)
qed

lemma echo_run:
  assumes w: "\<And>d. working E (P d) rank q" and a: "answering E P q exec"
    and s: "P d (pgconn s)" "q (pgconn s) = []"
    and us: "us = extract_members (conn_oids s) [ty_of v] (new_udts s)"
    and k: "us \<noteq> [] \<Longrightarrow> knows_types E exec d (conn_oids s) us p"
    and v: "wf_val v" "encodable (ty_of v)" "decodable (ty_of v)" "size_of v < 2 ^ 31"
    and echo: "echoes (results E) (\<lambda>ps. fst (exec query ps (after_lookup exec d (conn_oids s) us)))"
  shows "\<exists>res s'. async_query E query [v] s = Some (Inr (no_error, res), s') \<and>
    as_result (results E) [ty_of v] res = Inr (norm v)"
proof -
  let ?d = "after_lookup exec d (conn_oids s) us"
  obtain s1 where look: "lookup_new_udts E (map ty_of [v]) s = Some (Inr no_error, s1)" "q (pgconn s1) = []"
    "P ?d (pgconn s1)" "udts (ty_of v) \<subseteq> dom (conn_oids s1)"
    using answering_lookup [OF w a s us k] by auto
  then have ok: "sendable (conn_oids s1) v" "known_params s1 [v]"
    using v by (simp_all add: sendable_def known_params_def)
  let ?ps = "wire_params (conn_oids s1) [v]"
  obtain bs where bs: "encode (conn_oids s1) v = Inr bs" using sendable_encode [OF ok(1)] ..
  then have len: "length bs = size_of v" using encodings_nth(2) [of "conn_oids s1" "[v]" "[bs]" 0] by simp
  obtain t where "oids_of (conn_oids s1) (map ty_of [v]) = Inr [t]"
    using serialize_params_sends [of "[v]" "conn_oids s1"] ok(1) v(4) by (auto simp: sbind_Inr_iff)
  with bs have wire: "?ps = params_for [t] [bs]" by (intro wire_params_encodings) simp_all
  obtain r d' where run: "exec query ?ps ?d = (r, d')" by fastforce
  with echo [unfolded echoes_def, rule_format, of bs t] len v(4) have e: "echoed (results E) ?ps r"
    by (simp add: wire)
  obtain s' where "async_query E query [v] s = Some (Inr (result_status_to_error_code E r, r), s')"
    using query_answered_lookup [OF w a look(1) ok(2) look(3,2) run] by blast
  moreover have "result_status_to_error_code E r = no_error"
    using e by (simp add: echoed_def result_status_to_error_code_def)
  ultimately show ?thesis using echoed_as_result [OF ok(1) v(3,4) e] by auto
qed

text \<open>
  C1: a value of a type that can be sent and read survives the whole way: on a connection that works, the
  query registers the user-defined types in it that the connection does not know, sends its encoding, the
  server answers with the same octets and type, and \<open>as\<close> gives the value back.
\<close>

theorem query_echo:
  assumes "\<And>d. working E (P d) rank q" and "answering E P q exec"
    and "P d (pgconn s)" and "q (pgconn s) = []"
    and "us = extract_members (conn_oids s) [ty_of v] (new_udts s)"
    and "us \<noteq> [] \<Longrightarrow> knows_types E exec d (conn_oids s) us p"
    and "wf_val v" and "encodable (ty_of v)" and "decodable (ty_of v)" and "size_of v < 2 ^ 31"
    and "echoes (results E) (\<lambda>ps. fst (exec query ps (after_lookup exec d (conn_oids s) us)))"
  shows "\<exists>res s'. async_query E query [v] s = Some (Inr (no_error, res), s') \<and>
    as_result (results E) [ty_of v] res = Inr (norm v)"
  by (rule echo_run [OF assms])

text \<open>
  A server that selects the parameters, and that knows the types \<open>employee\<close> and \<open>company\<close> of the example
  (user_defined.cpp) once four commands were executed, over the network of the script.
\<close>

definition echo_reply :: "query_params \<Rightarrow> reply" where
  "echo_reply ps =
     \<lparr>status = PGRES_TUPLES_OK, state_text = None,
      rows = \<lparr>columns = map (Pair ''?column?'') (qp_types ps), cells = [qp_octets ps]\<rparr>\<rparr>"

definition answering_script :: "(nat \<Rightarrow> string \<Rightarrow> query_params \<Rightarrow> reply) \<Rightarrow> (server, reply) env" where
  "answering_script f = script\<lparr>PQsendQueryParams := \<lambda>query ps w.
     (1, w\<lparr>pending := pending w @ [Some (f (executed w) query ps), None], unsent := unsent w + 1,
           events := events w + 1, executed := executed w + 1\<rparr>)\<rparr>"

definition script_exec :: "(nat \<Rightarrow> string \<Rightarrow> query_params \<Rightarrow> reply) \<Rightarrow> (nat, reply) executor" where
  "script_exec f query ps d = (Some (f d query ps), d + 1)"

definition one_by_one :: "nat \<Rightarrow> server \<Rightarrow> bool" where
  "one_by_one d w \<longleftrightarrow> \<not> pipelining w \<and> executed w = d"

definition in_pipeline :: "nat \<Rightarrow> server \<Rightarrow> bool" where
  "in_pipeline d w \<longleftrightarrow> pipelining w \<and> executed w = d"

lemma answering_script_working:
  "working (answering_script f) (one_by_one d) work_left pending"
  "working (answering_script f) (in_pipeline d) work_left pending"
  using script_working [of "\<lambda>m e. \<not> m \<and> e = d"] script_working [of "\<lambda>m e. m \<and> e = d"]
  by (simp_all add: answering_script_def one_by_one_def [abs_def] in_pipeline_def [abs_def])

lemma answering_script_answering:
  "answering (answering_script f) one_by_one pending (script_exec f)"
  "answering_pipelined (answering_script f) in_pipeline pending (script_exec f)"
  by (simp_all add: answering_def answering_pipelined_def answering_script_def script_exec_def one_by_one_def in_pipeline_def)

lemma results_answering_script [simp]: "results script = reply_api" "results (answering_script f) = reply_api"
  by (simp_all add: answering_script_def script_def)

lemma answering_script_status [simp]:
  "result_status_to_error_code (answering_script f) r = result_status_to_error_code script r"
  by (simp only: result_status_to_error_code_def results_answering_script)

lemma script_status_tuples [simp]:
  "status x = PGRES_TUPLES_OK \<Longrightarrow> result_status_to_error_code script (Some x) = no_error"
  by (simp add: result_status_to_error_code_def reply_api_def)

subsection \<open>The types of the example\<close>

text \<open>
  The structures \<open>Employee\<close> and \<open>Company\<close> of the example (example/user_defined.cpp), with the
  specialisations of \<open>user_defined\<close> for them: the name and the members, in order.
\<close>

definition Employee :: ty where
  "Employee = UserDefined ''employee'' 0 [Scalar String, Scalar String]"

definition Company :: ty where
  "Company = UserDefined ''company'' 1 [Scalar Int64, Vector Employee]"

definition mk_employee :: "string \<Rightarrow> string \<Rightarrow> val" where
  "mk_employee name phone =
     UdtVal ''employee'' 0 [SVal (VString (map of_char name)), SVal (VString (map of_char phone))]"

definition mk_company :: "64 word \<Rightarrow> val list \<Rightarrow> val" where
  "mk_company i employees = UdtVal ''company'' 1 [SVal (VInt64 i), VecVal Employee employees]"

definition the_company :: val where
  "the_company = mk_company 104
     [mk_employee ''Jane Eyre'' ''555-123-4567'', mk_employee ''Tom Hanks'' ''555-987-6543'']"

lemma company_types [simp]:
  "ty_of (mk_employee name phone) = Employee" "ty_of (mk_company i es) = Company" "ty_of the_company = Company"
  "wf_val the_company" "size_of the_company < 2147483648" "encodable Company" "decodable Company"
  "norm the_company = the_company"
  by (simp_all add: mk_employee_def mk_company_def the_company_def Employee_def Company_def)

lemma company_new_types:
  "extract_members Map.empty [Company] [] =
     [\<lparr>udt_name = ''company'', type_index = 1\<rparr>, \<lparr>udt_name = ''employee'', type_index = 0\<rparr>]"
  by (simp add: Company_def Employee_def)

text \<open>A server that selects the parameters, and knows the two types.\<close>

definition company_row :: "byte list option list" where
  "company_row = [Some [0, 0, 64, 18], Some [0, 0, 64, 17]]"

definition echo_answer :: "nat \<Rightarrow> string \<Rightarrow> query_params \<Rightarrow> reply" where
  "echo_answer d query ps =
     (if query = query_oids_text
      then oid_rows (if d < 4 then [missing_row, missing_row] else [company_row, employee_row])
      else echo_reply ps)"

lemma echo_reply_echoes: "query \<noteq> query_oids_text \<Longrightarrow> echoes reply_api (\<lambda>ps. fst (script_exec echo_answer query ps d))"
  by (auto simp: echoes_def echo_answer_def script_exec_def echoed_def reply_api_def echo_reply_def params_for_def table_api_def cell_def)

definition example_oids :: "nat \<Rightarrow> oid_pair" where
  "example_oids i = (if i = 0 then \<lparr>single = 16402, array = 16401\<rparr> else \<lparr>single = 16400, array = 16399\<rparr>)"

lemma example_rows:
  "row_gives reply_api (Some (oid_rows [company_row, employee_row])) 0 (example_oids 0)"
  "row_gives reply_api (Some (oid_rows [company_row, employee_row])) 1 (example_oids 1)"
  by (simp_all add: row_gives_def view_simps reply_api_def table_api_def example_oids_def company_row_def
      oid_rows_def employee_row_def to_size_t_def as_row_def
      as_field_def oids_of_builtin_def cell_def load_int_def
      load_be_def be_dec_def)

lemma echo_knows_company:
  "knows_types (answering_script echo_answer) (script_exec echo_answer) 4 Map.empty
     [\<lparr>udt_name = ''company'', type_index = 1\<rparr>, \<lparr>udt_name = ''employee'', type_index = 0\<rparr>] example_oids"
proof -
  have "result_size reply_api (Some (oid_rows [company_row, employee_row])) = 2"
    by (simp add: result_size_def reply_api_def table_api_def oid_rows_def to_size_t_def)
  moreover have "found (example_oids i)" for i by (simp add: found_def example_oids_def)
  moreover have "row_gives reply_api (Some (oid_rows [company_row, employee_row])) i (example_oids i)" if "i < 2" for i
    using that example_rows by (cases i) auto
  moreover have "\<not> failed (result_status_to_error_code script (Some (oid_rows [company_row, employee_row])))"
    by (simp add: oid_rows_def)
  ultimately show ?thesis
    by (simp add: knows_types_def Let_def echo_answer_def script_exec_def names_of_def name_value_def)
qed

theorem query_echo_witness:
  "\<exists>res s'. async_query (answering_script echo_answer) ''SELECT $1;'' [the_company] (fresh (idle_server\<lparr>executed := 4\<rparr>)) =
      Some (Inr (no_error, res), s') \<and>
    as_result reply_api [Company] res = Inr the_company"
proof -
  let ?us = "[\<lparr>udt_name = ''company'', type_index = 1\<rparr>, \<lparr>udt_name = ''employee'', type_index = 0\<rparr>]"
  let ?s = "fresh (idle_server\<lparr>executed := 4\<rparr>)"
  have start: "one_by_one 4 (pgconn ?s)" "pending (pgconn ?s) = []"
    by (simp_all add: fresh_def idle_server_def one_by_one_def)
  have us: "?us = extract_members (conn_oids ?s) [ty_of the_company] (new_udts ?s)"
    using company_new_types by (simp add: fresh_def)
  have knows: "knows_types (answering_script echo_answer) (script_exec echo_answer) 4 (conn_oids ?s) ?us example_oids"
    using echo_knows_company by (simp add: fresh_def)
  have "''SELECT $1;'' \<noteq> query_oids_text" by (simp add: query_oids_text_def)
  note echo = echo_reply_echoes [OF this, of "after_lookup (script_exec echo_answer) 4 (conn_oids ?s) ?us"]
  show ?thesis
    using query_echo [OF answering_script_working(1) answering_script_answering(1) start us knows, of "''SELECT $1;''"] echo
    by simp
qed

end
