(* ===== verification/Pipeline.thy ===== *)
theory Pipeline
  imports Connection
begin

text \<open>
  Pipelines (include/psql/pipeline.hpp, \<open>async_exec_pipeline\<close> of connection.hpp). The operation that
  the caller passes is a program that pushes queries, sees the index or the exception of each push,
  and returns or throws.
\<close>

subsection \<open>The class pipeline\<close>

record 'w pipeline =
  pl_pgconn :: 'w
  pl_oids :: oid_map
  pl_buffer :: buf
  pl_index :: nat

definition push_with ::
  "error \<Rightarrow> (query_params \<Rightarrow> 'w \<Rightarrow> int \<times> 'w) \<Rightarrow> val list \<Rightarrow> 'w pipeline \<Rightarrow> nat res \<times> 'w pipeline" where
  "push_with e send vs p =
     (case serialize_params (pl_oids p) (pl_buffer p) vs of
        (Inl x, b) \<Rightarrow> (Inl x, p\<lparr>pl_buffer := b\<rparr>)
      | (Inr a, b) \<Rightarrow>
          (case send (sent_params b a) (pl_pgconn p) of (ret, w) \<Rightarrow>
             if ret = 0
             then (Inl (Throw (SystemError (err e))), p\<lparr>pl_buffer := b, pl_pgconn := w\<rparr>)
             else (Inr (pl_index p), p\<lparr>pl_buffer := b, pl_pgconn := w, pl_index := pl_index p + 1\<rparr>)))"

definition push_query ::
  "('w, 'r) env \<Rightarrow> string \<Rightarrow> val list \<Rightarrow> 'w pipeline \<Rightarrow> nat res \<times> 'w pipeline" where
  "push_query E query = push_with pq_send_query_params_failed (PQsendQueryParams E query)"

definition push_query_prepared ::
  "('w, 'r) env \<Rightarrow> string \<Rightarrow> val list \<Rightarrow> 'w pipeline \<Rightarrow> nat res \<times> 'w pipeline" where
  "push_query_prepared E stmt_name =
     push_with pq_send_query_prepared_failed (\<lambda>p. PQsendQueryPrepared E stmt_name (p\<lparr>qp_types := []\<rparr>))"

definition pipeline_size :: "'w pipeline \<Rightarrow> nat" where
  "pipeline_size p = pl_index p"

subsection \<open>The operation of the caller\<close>

datatype pipeline_op =
    Return
  | Raise cpp_exception
  | PushQuery string "val list" "cpp_exception + nat \<Rightarrow> pipeline_op"
  | PushPrepared string "val list" "cpp_exception + nat \<Rightarrow> pipeline_op"

text \<open>An exception of a push goes to the operation, which may catch it; other failures do not.\<close>

primrec run_pipeline_op ::
  "('w, 'r) env \<Rightarrow> pipeline_op \<Rightarrow> 'w pipeline \<Rightarrow> failure option \<times> 'w pipeline" where
  "run_pipeline_op E Return p = (None, p)"
| "run_pipeline_op E (Raise x) p = (Some (Throw x), p)"
| "run_pipeline_op E (PushQuery query vs k) p =
     (case push_query E query vs p of
        (Inr i, p') \<Rightarrow> run_pipeline_op E (k (Inr i)) p'
      | (Inl (Throw x), p') \<Rightarrow> run_pipeline_op E (k (Inl x)) p'
      | (Inl f, p') \<Rightarrow> (Some f, p'))"
| "run_pipeline_op E (PushPrepared stmt_name vs k) p =
     (case push_query_prepared E stmt_name vs p of
        (Inr i, p') \<Rightarrow> run_pipeline_op E (k (Inr i)) p'
      | (Inl (Throw x), p') \<Rightarrow> run_pipeline_op E (k (Inl x)) p'
      | (Inl f, p') \<Rightarrow> (Some f, p'))"

subsection \<open>Executing a pipeline\<close>

text \<open>The \<open>try\<close> block: what left it, whether the operation threw, and the pipeline at its end.\<close>

definition pipeline_block ::
  "('w, 'r) env \<Rightarrow> pipeline_op \<Rightarrow> 'w pipeline \<Rightarrow> bool res \<times> 'w pipeline" where
  "pipeline_block E operation p =
     (case run_pipeline_op E operation p of
        (None, p') \<Rightarrow> (Inr False, p')
      | (Some (Throw x), p') \<Rightarrow>
          (case push_query E ''ROLLBACK;'' [] p' of
             (Inl f, p'') \<Rightarrow> (Inl f, p'')
           | (Inr i, p'') \<Rightarrow> (Inr True, p''))
      | (Some f, p') \<Rightarrow> (Inl f, p'))"

text \<open>The loop over the results: each is followed by a null result.\<close>

fun receive_results ::
  "('w, 'r) env \<Rightarrow> nat \<Rightarrow> 'w conn \<Rightarrow> (error_code + 'r result list, 'w) io" where
  "receive_results E 0 s = Some (Inr [], s)"
| "receive_results E (Suc n) s = do {
     ((ec, res), s) \<leftarrow> async_receive_result E s;
     if failed ec then Some (Inl ec, s) else do {
     ((ec, null), s) \<leftarrow> async_receive_result E s;
     if failed ec then Some (Inl ec, s)
     else if null \<noteq> None then Some (Inl (err unexpected_non_null_result), s)
     else do {
       (rs, s) \<leftarrow> receive_results E n s;
       Some (sbind rs (\<lambda>rs. Inr (res # rs)), s)
     }}}"

fun first_failure :: "('w, 'r) env \<Rightarrow> 'r result list \<Rightarrow> error_code" where
  "first_failure E [] = no_error"
| "first_failure E (res # rs) =
     (let ec = result_status_to_error_code E res in if failed ec then ec else first_failure E rs)"

text \<open>From the end of the loop to the completion.\<close>

definition finish_pipeline ::
  "('w, 'r) env \<Rightarrow> bool \<Rightarrow> 'r result list \<Rightarrow> 'w conn \<Rightarrow> (error_code \<times> 'r result list, 'w) io" where
  "finish_pipeline E is_thrown rs s = do {
     ((ec, res), s) \<leftarrow> async_receive_result E s;
     if failed ec then Some ((ec, []), s)
     else if PQresultStatus (results E) res \<noteq> PGRES_PIPELINE_SYNC
     then Some ((err result_status_unexpected, []), s)
     else
       (case PQexitPipelineMode E (pgconn s) of (ret, w) \<Rightarrow>
          if ret = 0 then Some ((err pq_exit_pipeline_mode_failed, []), s\<lparr>pgconn := w\<rparr>)
          else
            (let s' = s\<lparr>pgconn := emit_terminal E w\<rparr> in
             if is_thrown then Some ((err exception_in_pipeline_operation, []), s')
             else Some ((first_failure E rs, rs), s'))) }"

definition async_exec_pipeline ::
  "('w, 'r) env \<Rightarrow> pipeline_op \<Rightarrow> 'w conn \<Rightarrow> ((error_code \<times> 'r result list) res, 'w) io" where
  "async_exec_pipeline E operation s =
     (case PQenterPipelineMode E (pgconn s) of (ret, w) \<Rightarrow>
        if ret = 0 then Some (Inr (err pq_enter_pipeline_mode_failed, []), s\<lparr>pgconn := w\<rparr>)
        else
          (case pipeline_block E operation
                  \<lparr>pl_pgconn = w, pl_oids = conn_oids s, pl_buffer = buffer s, pl_index = 0\<rparr> of
             (block, p) \<Rightarrow>
               (let s = s\<lparr>pgconn := pl_pgconn p, buffer := pl_buffer p\<rparr> in
                case block of
                  Inl f \<Rightarrow> Some (Inl f, s)
                | Inr is_thrown \<Rightarrow>
                    (case PQpipelineSync E (pgconn s) of (ret, w) \<Rightarrow>
                       if ret = 0 then Some (Inr (err pq_pipeline_sync_failed, []), s\<lparr>pgconn := w\<rparr>)
                       else do {
                         (ec, s) \<leftarrow> async_flush E (s\<lparr>pgconn := w\<rparr>);
                         if failed ec then Some (Inr (ec, []), s) else do {
                         (rs, s) \<leftarrow> receive_results E (pipeline_size p) s;
                         case rs of
                           Inl ec \<Rightarrow> Some (Inr (ec, []), s)
                         | Inr rs \<Rightarrow> do {
                             (x, s) \<leftarrow> finish_pipeline E is_thrown rs s;
                             Some (Inr x, s) }}}))))"

end
