(* ===== verification/Notification.thy ===== *)
theory Notification
  imports Script
begin

text \<open>
  Notifications (include/psql/notification.hpp, \<open>async_receive_notifcation\<close> of connection.hpp).
\<close>

type_synonym notification = "notify option"

definition notification_bool :: "notification \<Rightarrow> bool" where
  "notification_bool n \<longleftrightarrow> n \<noteq> None"

definition pid :: "notification \<Rightarrow> int" where
  "pid n = (case n of Some p \<Rightarrow> be_pid p | None \<Rightarrow> -1)"

definition channel :: "notification \<Rightarrow> string" where
  "channel n = (case n of Some p \<Rightarrow> relname p | None \<Rightarrow> [])"

definition payload :: "notification \<Rightarrow> string" where
  "payload n = (case n of Some p \<Rightarrow> extra p | None \<Rightarrow> [])"

text \<open>
  The handler. A wait that ended with \<open>operation_aborted\<close> while the operation itself was not
  cancelled was ended by another operation, which may have received notifications: the handler goes
  on. The flag \<open>needs_rescheduling\<close> keeps its initial value true.
\<close>

partial_function (option) receive_notification_loop ::
  "('w, 'r) env \<Rightarrow> 'w conn \<Rightarrow> (error_code \<times> notification, 'w) io" where
  "receive_notification_loop E s =
     (case PQnotifies E (pgconn s) of (stored_notification, w) \<Rightarrow>
        if notification_bool stored_notification
        then Some ((no_error, stored_notification), s\<lparr>pgconn := post E w\<rparr>)
        else
          (case wait_notification E (socket s) w of ((ec, cancelled), w1) \<Rightarrow>
             if failed ec \<and> \<not> (ec = operation_aborted E \<and> \<not> cancelled)
             then Some ((ec, None), s\<lparr>pgconn := w1\<rparr>)
             else
               (case PQconsumeInput E w1 of (ret, w2) \<Rightarrow>
                  if ret = 0 then Some ((err pq_consume_input_failed, None), s\<lparr>pgconn := w2\<rparr>)
                  else receive_notification_loop E (s\<lparr>pgconn := w2\<rparr>))))"

definition async_receive_notifcation ::
  "('w, 'r) env \<Rightarrow> 'w conn \<Rightarrow> (error_code \<times> notification, 'w) io" where
  "async_receive_notifcation E s = receive_notification_loop E s"

subsection \<open>Facts\<close>

lemma notification_loop_result:
  "receive_notification_loop E s = Some y \<Longrightarrow>
   (failed (fst (fst y)) \<longleftrightarrow> snd (fst y) = None) \<and> only_pgconn s (snd y)"
  by (erule receive_notification_loop.raw_induct
        [where P = "\<lambda>E s y. (failed (fst (fst y)) \<longleftrightarrow> snd (fst y) = None) \<and> only_pgconn s (snd y)", rotated])
    (fastforce simp: notification_bool_def split: prod.splits if_splits)

text \<open>
  \<open>notified_soon E P rank\<close>: as long as \<open>P\<close> holds, either a notification is there or the wait ends,
  for input or because another operation ended it, and brings the next notification closer.
\<close>

definition notified_soon :: "('w, 'r) env \<Rightarrow> ('w \<Rightarrow> bool) \<Rightarrow> ('w \<Rightarrow> nat) \<Rightarrow> bool" where
  "notified_soon E P rank \<longleftrightarrow>
     (\<forall>fd w. P w \<and> fst (PQnotifies E w) = None \<longrightarrow>
        (case wait_notification E fd (snd (PQnotifies E w)) of ((ec, cancelled), w1) \<Rightarrow>
           (failed ec \<longrightarrow> ec = operation_aborted E \<and> \<not> cancelled) \<and> fst (PQconsumeInput E w1) \<noteq> 0 \<and>
           P (snd (PQconsumeInput E w1)) \<and> rank (snd (PQconsumeInput E w1)) < rank w))"

lemma notification_loop_arrives:
  assumes "notified_soon E P rank"
  shows "P (pgconn s) \<Longrightarrow> \<exists>n s'. receive_notification_loop E s = Some ((no_error, Some n), s')"
proof (induction "rank (pgconn s)" arbitrary: s rule: less_induct)
  case less
  obtain n w where n: "PQnotifies E (pgconn s) = (n, w)" by fastforce
  obtain ec c w1 where x: "wait_notification E (socket s) w = ((ec, c), w1)" by (metis surj_pair)
  obtain ret w2 where r: "PQconsumeInput E w1 = (ret, w2)" by fastforce
  show ?case
  proof (cases n)
    case (Some m)
    with n show ?thesis by (subst receive_notification_loop.simps) (simp add: notification_bool_def)
  next
    case None
    note soon = assms [unfolded notified_soon_def, THEN spec [of _ "socket s"], THEN spec [of _ "pgconn s"]]
    have step: "failed ec \<longrightarrow> ec = operation_aborted E \<and> \<not> c" "ret \<noteq> 0" "P w2" "rank w2 < rank (pgconn s)"
      using soon less.prems n None x r by simp_all
    with less.hyps [of "s\<lparr>pgconn := w2\<rparr>"] None n x r show ?thesis
      by (subst receive_notification_loop.simps) (simp add: notification_bool_def)
  qed
qed

subsection \<open>Properties\<close>

text \<open>
  An operation that receives a notification completes with success exactly when it hands over a
  notification, and then its accessors show what libpq reported; the empty notification reads as
  process -1 with no channel and no payload.
\<close>

theorem receive_notification_exact:
  assumes "async_receive_notifcation E s = Some ((ec, n), s')"
  shows "(failed ec \<longleftrightarrow> n = None) \<and>
    (failed ec \<longrightarrow> pid n = -1 \<and> channel n = [] \<and> payload n = []) \<and>
    (\<not> failed ec \<longrightarrow> (\<exists>m. n = Some m \<and> pid n = be_pid m \<and> channel n = relname m \<and> payload n = extra m)) \<and>
    s' = s\<lparr>pgconn := pgconn s'\<rparr>"
proof (intro conjI)
  note result = notification_loop_result [OF assms [unfolded async_receive_notifcation_def], unfolded fst_conv snd_conv]
  show "s' = s\<lparr>pgconn := pgconn s'\<rparr>" using result by (simp only: only_pgconn_def)
qed (use notification_loop_result [OF assms [unfolded async_receive_notifcation_def]] in
    \<open>cases n; simp add: pid_def channel_def payload_def\<close>)+


theorem receive_notification_exact_witness:
  "\<exists>s'. async_receive_notifcation script (fresh idle_server) = Some ((aborted, None), s') \<and> pid None = -1"
proof -
  have run: "async_receive_notifcation script (fresh idle_server) = Some ((aborted, None), fresh idle_server)"
    by (simp add: async_receive_notifcation_def receive_notification_loop.simps notification_bool_def script_simps failed_def aborted_def)
  from receive_notification_exact [OF run] run show ?thesis by (auto simp: failed_def aborted_def)
qed

text \<open>
  C27: a wait for a notification survives the other operations of the connection: when they end its
  wait, it looks again for notifications and waits again, and completes with one as soon as it is there.
\<close>

theorem receive_notification_survives:
  assumes "notified_soon E P rank" and "P (pgconn s)"
  shows "\<exists>n s'. async_receive_notifcation E s = Some ((no_error, Some n), s')"
  using notification_loop_arrives [OF assms] by (simp add: async_receive_notifcation_def)

definition interrupted :: "server \<Rightarrow> bool" where
  "interrupted w \<longleftrightarrow> (\<exists>k n. notices w = replicate k None @ [Some n] \<and> wakeups w = replicate k (aborted, False))"

lemma script_notified_soon: "notified_soon script interrupted (length \<circ> notices)"
proof -
  have next_one: "interrupted (w\<lparr>notices := tl (notices w), wakeups := tl (wakeups w), events := n\<rparr>) \<and> wakeups w \<noteq> [] \<and>
      hd (wakeups w) = (aborted, False) \<and> notices w \<noteq> []"
    if "interrupted w" "fst (PQnotifies script w) = None" for w n
  proof -
    from that(1) obtain k n where w: "notices w = replicate k None @ [Some n]" "wakeups w = replicate k (aborted, False)"
      by (auto simp: interrupted_def)
    with that(2) show ?thesis by (cases k) (auto simp: interrupted_def script_simps)
  qed
  have "interrupted (w\<lparr>notices := tl (notices w), wakeups := tl (wakeups w), events := events w - 1\<rparr>) \<and>
      next_of (aborted, True) (wakeups w) = (aborted, False) \<and> notices w \<noteq> []"
    if w: "interrupted w" "fst (PQnotifies script w) = None" for w
  proof (cases "wakeups w")
    case (Cons x xs)
    with next_one [OF w, of "events w - 1"] show ?thesis by (simp add: next_of_def)
  qed (use next_one [OF w] in simp)
  then show ?thesis
    by (simp add: notified_soon_def script_def split: prod.split)
qed

theorem receive_notification_survives_witness:
  "\<exists>n s'. async_receive_notifcation script
       (fresh (idle_server\<lparr>notices := [None, None, Some \<lparr>be_pid = 9, relname = ''jobs'', extra = ''1''\<rparr>],
                           wakeups := [(aborted, False), (aborted, False)]\<rparr>)) = Some ((no_error, Some n), s')"
  by (rule receive_notification_survives [OF script_notified_soon])
    (auto simp: interrupted_def fresh_def idle_server_def numeral_2_eq_2 intro!: exI [of _ 2])

end
