(* ===== verification/PipelineRun.thy ===== *)
theory PipelineRun
  imports Pipeline Queries Notification
begin

text \<open>
  What a pipeline does: the index that a push returns is the position of its result, the execution
  takes exactly the results of its own commands, and it always ends.
\<close>

subsection \<open>Connections in pipeline mode\<close>

text \<open>
  Libpq in pipeline mode, the worlds of \<open>M\<close>: each accepted command adds one result and the null that
  separates it from the next, a refused one adds nothing; a synchronisation point adds its own result.
\<close>

definition queues_answer :: "('w \<Rightarrow> bool) \<Rightarrow> ('w \<Rightarrow> 'r result list) \<Rightarrow> ('w \<Rightarrow> int \<times> 'w) \<Rightarrow> bool" where
  "queues_answer M q send \<longleftrightarrow>
     (\<forall>w. M w \<longrightarrow> M (snd (send w)) \<and>
        (if fst (send w) = 0 then q (snd (send w)) = q w
         else \<exists>r. q (snd (send w)) = q w @ [r, None]))"

definition pipelines :: "('w, 'r) env \<Rightarrow> ('w \<Rightarrow> bool) \<Rightarrow> ('w \<Rightarrow> 'r result list) \<Rightarrow> bool" where
  "pipelines E M q \<longleftrightarrow>
     (\<forall>query ps. queues_answer M q (PQsendQueryParams E query ps)) \<and>
     (\<forall>stmt_name ps. queues_answer M q (PQsendQueryPrepared E stmt_name ps))"

text \<open>
  Into pipeline mode and out of it, for a connection that works: it is entered from a world of \<open>P\<close> when
  nothing is to be received, a synchronisation point can be sent, and it can be left when every result
  was received. With results pending libpq refuses to leave, and nothing is assumed.
\<close>

definition pipeline_mode ::
  "('w, 'r) env \<Rightarrow> ('w \<Rightarrow> bool) \<Rightarrow> ('w \<Rightarrow> bool) \<Rightarrow> ('w \<Rightarrow> 'r result list) \<Rightarrow> bool" where
  "pipeline_mode E P M q \<longleftrightarrow>
     (\<forall>w. P w \<and> q w = [] \<longrightarrow> (case PQenterPipelineMode E w of (i, w') \<Rightarrow> i \<noteq> 0 \<and> M w' \<and> q w' = [])) \<and>
     (\<forall>w. M w \<longrightarrow> (case PQpipelineSync E w of (i, w') \<Rightarrow> i \<noteq> 0 \<and> M w' \<and>
        (\<exists>r. q w' = q w @ [r] \<and> PQresultStatus (results E) r = PGRES_PIPELINE_SYNC))) \<and>
     (\<forall>w. M w \<and> q w = [] \<longrightarrow> (case PQexitPipelineMode E w of (i, w') \<Rightarrow> i \<noteq> 0 \<and> P w' \<and> q w' = []))"

lemma pipeline_modeD:
  assumes "pipeline_mode E P M q"
  shows "PQenterPipelineMode E w = (i, w') \<Longrightarrow> P w \<Longrightarrow> q w = [] \<Longrightarrow> i \<noteq> 0 \<and> M w' \<and> q w' = []"
    and "PQpipelineSync E w = (i, w') \<Longrightarrow> M w \<Longrightarrow>
      i \<noteq> 0 \<and> M w' \<and> (\<exists>r. q w' = q w @ [r] \<and> PQresultStatus (results E) r = PGRES_PIPELINE_SYNC)"
    and "PQexitPipelineMode E w = (i, w') \<Longrightarrow> M w \<Longrightarrow> q w = [] \<Longrightarrow> i \<noteq> 0 \<and> P w' \<and> q w' = []"
  using assms [unfolded pipeline_mode_def, THEN conjunct1, rule_format, of w]
    assms [unfolded pipeline_mode_def, THEN conjunct2, THEN conjunct1, rule_format, of w]
    assms [unfolded pipeline_mode_def, THEN conjunct2, THEN conjunct2, rule_format, of w]
  by simp_all

definition answered :: "'r result list \<Rightarrow> 'r result list" where
  "answered rs = concat (map (\<lambda>r. [r, None]) rs)"

lemma answered_simps [simp]:
  "answered [] = []"
  "answered (r # rs) = r # None # answered rs"
  "answered (rs @ ss) = answered rs @ answered ss"
  by (simp_all add: answered_def)

lemma answered_inject: "answered rs = answered ss \<Longrightarrow> rs = ss"
proof (induction rs arbitrary: ss)
  case Nil
  then show ?case by (cases ss) simp_all
next
  case (Cons r rs)
  then show ?case by (cases ss) auto
qed

subsection \<open>Pushing\<close>

text \<open>\<open>pushed M q p p' rs\<close>: between two states of a pipeline commands with the results \<open>rs\<close> were accepted.\<close>

definition pushed ::
  "('w \<Rightarrow> bool) \<Rightarrow> ('w \<Rightarrow> 'r result list) \<Rightarrow> 'w pipeline \<Rightarrow> 'w pipeline \<Rightarrow> 'r result list \<Rightarrow> bool" where
  "pushed M q p p' rs \<longleftrightarrow>
     M (pl_pgconn p') \<and> q (pl_pgconn p') = q (pl_pgconn p) @ answered rs \<and> pl_index p' = pl_index p + length rs"

lemma pushed_trans: "pushed M q p p1 rs \<Longrightarrow> pushed M q p1 p2 ss \<Longrightarrow> pushed M q p p2 (rs @ ss)"
  by (simp add: pushed_def)

lemma push_with_pushed:
  assumes "\<And>ps. queues_answer M q (send ps)" and "push_with e send vs p = (x, p')" and "M (pl_pgconn p)"
  shows "case x of Inl f \<Rightarrow> pushed M q p p' [] | Inr i \<Rightarrow> i = pl_index p \<and> (\<exists>r. pushed M q p p' [r])"
proof -
  obtain y b where ser: "serialize_params (pl_oids p) (pl_buffer p) vs = (y, b)" by fastforce
  show ?thesis
  proof (cases y)
    case (Inl f)
    with assms(2,3) ser show ?thesis by (auto simp: push_with_def pushed_def)
  next
    case (Inr a)
    obtain i w where send: "send (sent_params b a) (pl_pgconn p) = (i, w)" by fastforce
    with assms(1) [of "sent_params b a", unfolded queues_answer_def, rule_format, OF assms(3)] have
      "M w \<and> (if i = 0 then q w = q (pl_pgconn p) else \<exists>r. q w = q (pl_pgconn p) @ [r, None])"
      unfolding send by (simp split: if_splits)
    with assms(2,3) ser Inr send show ?thesis by (auto simp: push_with_def pushed_def split: if_splits)
  qed
qed

lemma push_pushed:
  assumes "pipelines E M q" and "M (pl_pgconn p)"
  shows "push_query E query vs p = (x, p') \<Longrightarrow>
      case x of Inl f \<Rightarrow> pushed M q p p' [] | Inr i \<Rightarrow> i = pl_index p \<and> (\<exists>r. pushed M q p p' [r])"
    and "push_query_prepared E stmt_name vs p = (x, p') \<Longrightarrow>
      case x of Inl f \<Rightarrow> pushed M q p p' [] | Inr i \<Rightarrow> i = pl_index p \<and> (\<exists>r. pushed M q p p' [r])"
  using push_with_pushed [of M q "PQsendQueryParams E query"]
    push_with_pushed [of M q "\<lambda>p. PQsendQueryPrepared E stmt_name (p\<lparr>qp_types := []\<rparr>)"] assms
  unfolding push_query_def push_query_prepared_def pipelines_def by blast+

lemma run_pushed:
  assumes "pipelines E M q"
  shows "run_pipeline_op E operation p = (f, p') \<Longrightarrow> M (pl_pgconn p) \<Longrightarrow> \<exists>rs. pushed M q p p' rs"
proof (induction operation arbitrary: p)
  case (PushQuery query vs k)
  obtain x p1 where push: "push_query E query vs p = (x, p1)" by fastforce
  with push_pushed(1) [OF assms PushQuery.prems(2) push] obtain ss where ss: "pushed M q p p1 ss" by (cases x) auto
  then have "M (pl_pgconn p1)" by (simp add: pushed_def)
  with ss PushQuery.prems push PushQuery.IH show ?case
    by (auto split: sum.splits failure.splits intro: pushed_trans) (meson pushed_trans rangeI)+
next
  case (PushPrepared stmt_name vs k)
  obtain x p1 where push: "push_query_prepared E stmt_name vs p = (x, p1)" by fastforce
  with push_pushed(2) [OF assms PushPrepared.prems(2) push] obtain ss where ss: "pushed M q p p1 ss" by (cases x) auto
  then have "M (pl_pgconn p1)" by (simp add: pushed_def)
  with ss PushPrepared.prems push PushPrepared.IH show ?case
    by (auto split: sum.splits failure.splits intro: pushed_trans) (meson pushed_trans rangeI)+
qed (auto simp: pushed_def intro: exI [of _ "[]"])

lemma block_pushed:
  assumes "pipelines E M q" and "pipeline_block E operation p = (x, p')" and "M (pl_pgconn p)"
  shows "\<exists>rs. pushed M q p p' rs"
proof -
  obtain f p1 where run: "run_pipeline_op E operation p = (f, p1)" by fastforce
  obtain y p2 where roll: "push_query E ''ROLLBACK;'' [] p1 = (y, p2)" by fastforce
  obtain rs where rs: "pushed M q p p1 rs" using run_pushed [OF assms(1) run assms(3)] by blast
  then have "M (pl_pgconn p1)" by (simp add: pushed_def)
  from push_pushed(1) [OF assms(1) this roll] obtain ss where "pushed M q p1 p2 ss" by (cases y) auto
  then have "pushed M q p p2 (rs @ ss)" using rs by (rule pushed_trans [rotated])
  with rs assms(2) run roll show ?thesis
    by (auto simp: pipeline_block_def split: option.splits failure.splits sum.splits)
qed

subsection \<open>Receiving\<close>

lemma receive_results_done:
  assumes "working E M rank q"
  shows "M (pgconn s) \<Longrightarrow> q (pgconn s) = answered rs @ rest \<Longrightarrow>
    \<exists>w. receive_results E (length rs) s = Some (Inr rs, s\<lparr>pgconn := w\<rparr>) \<and> q w = rest \<and> M w"
proof (induction rs arbitrary: s)
  case Nil
  then show ?case by (intro exI [of _ "pgconn s"]) simp
next
  case (Cons r rs)
  obtain w1 where 1: "async_receive_result E s = Some ((no_error, r), s\<lparr>pgconn := w1\<rparr>)"
    "q w1 = None # answered rs @ rest" "M w1"
    using receive_done [OF assms, of s] Cons.prems by auto
  obtain w2 where 2: "async_receive_result E (s\<lparr>pgconn := w1\<rparr>) = Some ((no_error, None), s\<lparr>pgconn := w2\<rparr>)"
    "q w2 = answered rs @ rest" "M w2"
    using receive_done [OF assms, of "s\<lparr>pgconn := w1\<rparr>"] 1(2,3) by auto
  obtain w where "receive_results E (length rs) (s\<lparr>pgconn := w2\<rparr>) = Some (Inr rs, s\<lparr>pgconn := w\<rparr>)" "q w = rest" "M w"
    using Cons.IH [of "s\<lparr>pgconn := w2\<rparr>"] 2(2,3) by auto
  with 1 2 show ?case by (intro exI [of _ w]) simp
qed

lemma finish_pipeline_done:
  assumes P: "working E P rankP q" and M: "working E M rank q" and mode: "pipeline_mode E P M q"
    and s: "M (pgconn s)" "q (pgconn s) = [sync]" and sync: "PQresultStatus (results E) sync = PGRES_PIPELINE_SYNC"
  shows "\<exists>w. finish_pipeline E is_thrown rs s =
      Some (if is_thrown then (err exception_in_pipeline_operation, []) else (first_failure E rs, rs),
            s\<lparr>pgconn := w\<rparr>) \<and> q w = [] \<and> P w"
proof -
  obtain w1 where 1: "async_receive_result E s = Some ((no_error, sync), s\<lparr>pgconn := w1\<rparr>)" "q w1 = []" "M w1"
    using receive_done [OF M s] by auto
  obtain i w2 where 2: "PQexitPipelineMode E w1 = (i, w2)" by fastforce
  with 1(2,3) have ok: "i \<noteq> 0" "P w2" "q w2 = []" using pipeline_modeD(3) [OF mode 2] by auto
  have "q (emit_terminal E w2) = []" "P (emit_terminal E w2)"
    using delivers_preserves(5) [OF workingD(2) [OF P] ok(2)] steps_stayD(6) [OF workingD(3) [OF P] ok(2)] ok(3) by auto
  with 1 2 ok(1) sync show ?thesis by (auto simp: finish_pipeline_def Let_def)
qed

lemma first_failure_none: "(\<forall>r \<in> set rs. \<not> failed (result_status_to_error_code E r)) \<Longrightarrow> first_failure E rs = no_error"
  by (induction rs) (simp_all add: Let_def)

lemma first_failure_at:
  "k < length rs \<Longrightarrow> failed (result_status_to_error_code E (rs ! k)) \<Longrightarrow>
   (\<forall>j < k. \<not> failed (result_status_to_error_code E (rs ! j))) \<Longrightarrow>
   first_failure E rs = result_status_to_error_code E (rs ! k)"
proof (induction rs arbitrary: k)
  case (Cons r rs)
  show ?case
  proof (cases k)
    case (Suc j)
    with Cons.prems(3) have "\<not> failed (result_status_to_error_code E r)"
      "\<forall>i < j. \<not> failed (result_status_to_error_code E (rs ! i))" by auto
    with Suc Cons.prems Cons.IH [of j] show ?thesis by (simp add: Let_def)
  qed (use Cons.prems in \<open>simp add: Let_def\<close>)
qed simp

subsection \<open>Termination\<close>

lemma receive_results_ends:
  assumes p: "progressing E P rank"
  shows "P (pgconn s) \<Longrightarrow> ends P s (receive_results E n s)"
proof (induction n arbitrary: s)
  case 0
  then show ?case by (simp add: ends_here)
next
  case (Suc n)
  have rest: "ends P s (receive_results E n (s\<lparr>pgconn := w\<rparr>) \<bind> (\<lambda>(rs, s). Some (sbind rs (\<lambda>rs. Inr (res # rs)), s)))"
    if "P w" for w res
    using Suc.IH [of "s\<lparr>pgconn := w\<rparr>"] that by (intro ends_bind) (auto simp: ends_now)
  have null: "ends P s (async_receive_result E (s\<lparr>pgconn := w\<rparr>) \<bind> (\<lambda>((ec, null), s).
      if failed ec then Some (Inl ec, s)
      else if null \<noteq> None then Some (Inl (err unexpected_non_null_result), s)
      else receive_results E n s \<bind> (\<lambda>(rs, s). Some (sbind rs (\<lambda>rs. Inr (res # rs)), s))))"
    if "P w" for w res
    using receive.op_ends [OF p, of "s\<lparr>pgconn := w\<rparr>"] that by (intro ends_bind) (auto simp: ends_now rest)
  show ?case
    unfolding receive_results.simps
    by (rule receive.then_ends [OF p Suc.prems]) (auto simp: ends_now null)
qed

lemma receive_results_keeps: "receive_results E n s = Some y \<Longrightarrow> only_pgconn s (snd y)"
proof (induction n arbitrary: s y)
  case (Suc n)
  from Suc.prems obtain ec1 r1 s1 where 1: "async_receive_result E s = Some ((ec1, r1), s1)"
    by (auto simp: bind_eq_Some_conv)
  note k1 = receive.op_keeps [OF 1, unfolded snd_conv]
  show ?case
  proof (cases "snd y = s1")
    case False
    with Suc.prems 1 obtain ec2 r2 s2 where 2: "async_receive_result E s1 = Some ((ec2, r2), s2)"
      by (auto simp: bind_eq_Some_conv split: if_splits)
    note k2 = only_pgconn_trans [OF k1 receive.op_keeps [OF 2, unfolded snd_conv]]
    show ?thesis
    proof (cases "snd y = s2")
      case False
      with Suc.prems 1 2 \<open>snd y \<noteq> s1\<close> obtain z where "receive_results E n s2 = Some z" "snd y = snd z"
        by (auto simp: bind_eq_Some_conv split: if_splits)
      with only_pgconn_trans [OF k2 Suc.IH] show ?thesis by simp
    qed (use k2 in simp)
  qed (use k1 in simp)
qed simp

interpretation receive_all: conn_operation "\<lambda>E. receive_results E n" for n
  by unfold_locales (erule (1) receive_results_ends, rule receive_results_keeps)

lemma finish_pipeline_completes:
  assumes p: "progressing E P rank" and m: "modes_stay E P" and s: "P (pgconn s)"
  shows "completes P (finish_pipeline E is_thrown rs s)"
proof -
  obtain ec res w where r: "async_receive_result E s = Some ((ec, res), s\<lparr>pgconn := w\<rparr>)" "P w"
    using receive.op_ends [OF p s] by (auto simp: ends_def)
  obtain i w1 where x: "PQexitPipelineMode E w = (i, w1)" by fastforce
  then have "P w1" using m r(2) by (auto simp: modes_stay_def intro: stays_run)
  then have "P (emit_terminal E w1)" by (rule steps_stayD(6) [OF progressing_stays [OF p]])
  with r x \<open>P w1\<close> show ?thesis by (simp add: finish_pipeline_def Let_def)
qed

lemma push_stays:
  assumes "sends_stay E P" and "P (pl_pgconn p)"
  shows "P (pl_pgconn (snd (push_query E query vs p)))" and "P (pl_pgconn (snd (push_query_prepared E stmt_name vs p)))"
  using assms
  by (auto simp: push_query_def push_query_prepared_def push_with_def sends_stay_def stays_def
      split: prod.split sum.split) (metis snd_conv)+

lemma run_pipeline_op_stays:
  assumes "sends_stay E P"
  shows "P (pl_pgconn p) \<Longrightarrow> P (pl_pgconn (snd (run_pipeline_op E operation p)))"
proof (induction operation arbitrary: p)
  case (PushQuery query vs k)
  with push_stays(1) [OF assms PushQuery.prems, of query vs] show ?case
    by (auto split: prod.split sum.split failure.split)
next
  case (PushPrepared stmt_name vs k)
  with push_stays(2) [OF assms PushPrepared.prems, of stmt_name vs] show ?case
    by (auto split: prod.split sum.split failure.split)
qed simp_all

lemma pipeline_block_stays:
  assumes "sends_stay E P" and "P (pl_pgconn p)" and "pipeline_block E operation p = (x, p')"
  shows "P (pl_pgconn p')"
proof -
  obtain f p1 where run: "run_pipeline_op E operation p = (f, p1)" by fastforce
  obtain y p2 where roll: "push_query E ''ROLLBACK;'' [] p1 = (y, p2)" by fastforce
  have "P (pl_pgconn p1)" using run_pipeline_op_stays [OF assms(1,2), of operation] run by simp
  moreover from this have "P (pl_pgconn p2)" using push_stays(1) [OF assms(1), of p1 "''ROLLBACK;''" "[]"] roll by simp
  ultimately show ?thesis using assms(3) run roll
    by (auto simp: pipeline_block_def split: option.splits failure.splits sum.splits)
qed

lemma exec_pipeline_completes:
  assumes p: "progressing E P rank" and sends: "sends_stay E P" and modes: "modes_stay E P" and s: "P (pgconn s)"
  shows "completes P (async_exec_pipeline E operation s)"
proof -
  obtain i w where 1: "PQenterPipelineMode E (pgconn s) = (i, w)" by fastforce
  then have w: "P w" using modes s by (auto simp: modes_stay_def intro: stays_run)
  obtain x p' where 2: "pipeline_block E operation
      \<lparr>pl_pgconn = w, pl_oids = conn_oids s, pl_buffer = buffer s, pl_index = 0\<rparr> = (x, p')" by fastforce
  have p': "P (pl_pgconn p')" by (rule pipeline_block_stays [OF sends _ 2]) (simp add: w)
  let ?s = "s\<lparr>pgconn := pl_pgconn p', buffer := pl_buffer p'\<rparr>"
  obtain j w1 where 3: "PQpipelineSync E (pl_pgconn p') = (j, w1)" by fastforce
  then have w1: "P w1" using modes p' by (auto simp: modes_stay_def intro: stays_run)
  obtain ec w2 where 4: "async_flush E (?s\<lparr>pgconn := w1\<rparr>) = Some (ec, ?s\<lparr>pgconn := w2\<rparr>)" "P w2"
    using flush.op_ends [OF p, of "?s\<lparr>pgconn := w1\<rparr>"] w1 by (auto simp: ends_def)
  obtain rs w3 where 5: "receive_results E (pipeline_size p') (?s\<lparr>pgconn := w2\<rparr>) = Some (rs, ?s\<lparr>pgconn := w3\<rparr>)" "P w3"
    using receive_results_ends [OF p, of "?s\<lparr>pgconn := w2\<rparr>" "pipeline_size p'"] 4(2) by (auto simp: ends_def)
  have "completes P (finish_pipeline E t ss (?s\<lparr>pgconn := w3\<rparr>) \<bind> (\<lambda>(x, s). Some (Inr x, s)))" for t ss
    using finish_pipeline_completes [OF p modes, of "?s\<lparr>pgconn := w3\<rparr>" t ss] 5(2)
    by (intro completes_bind) auto
  with 1 2 3 4 5 w w1 p' show ?thesis
    by (cases x; cases rs) (auto simp: async_exec_pipeline_def Let_def)
qed

subsection \<open>Properties\<close>

lemma script_pipelines: "pipelines script (\<lambda>w. K (pipelining w) (executed w)) pending"
  by (auto simp: pipelines_def queues_answer_def script_simps split: list.split)

lemma script_pipeline_mode: "pipeline_mode script (\<lambda>w. \<not> pipelining w) pipelining pending"
  by (auto simp: pipeline_mode_def script_simps sync_reply_def)

lemma exec_pipeline_done:
  assumes P: "working E P rankP q" and M: "working E M rank q" and mode: "pipeline_mode E P M q"
    and s: "P (pgconn s)" "q (pgconn s) = []"
    and enter: "PQenterPipelineMode E (pgconn s) = (i, w)"
    and block: "pipeline_block E operation
      \<lparr>pl_pgconn = w, pl_oids = conn_oids s, pl_buffer = buffer s, pl_index = 0\<rparr> = (Inr is_thrown, p)"
    and p: "q (pl_pgconn p) = answered rs" "pipeline_size p = length rs"
    and M': "working E M' rank' q" "pipeline_mode E P' M' q" "working E P' rankP' q" "M' (pl_pgconn p)"
  shows "\<exists>s'. async_exec_pipeline E operation s =
      Some (Inr (if is_thrown then (err exception_in_pipeline_operation, []) else (first_failure E rs, rs)), s') \<and>
    q (pgconn s') = [] \<and> P' (pgconn s')"
proof -
  have i: "i \<noteq> 0" using pipeline_modeD(1) [OF mode enter s] by simp
  let ?s = "s\<lparr>pgconn := pl_pgconn p, buffer := pl_buffer p\<rparr>"
  obtain j w1 where sync: "PQpipelineSync E (pl_pgconn p) = (j, w1)" by fastforce
  with pipeline_modeD(2) [OF M'(2) sync M'(4)] p(1) obtain r where r: "q w1 = answered rs @ [r]" "j \<noteq> 0" "M' w1"
    "PQresultStatus (results E) r = PGRES_PIPELINE_SYNC" by auto
  obtain w2 where 2: "async_flush E (?s\<lparr>pgconn := w1\<rparr>) = Some (no_error, ?s\<lparr>pgconn := w2\<rparr>)" "q w2 = answered rs @ [r]" "M' w2"
    using flush_done [OF M'(1), of "?s\<lparr>pgconn := w1\<rparr>"] r(1,3) by auto
  obtain w3 where 3: "receive_results E (length rs) (?s\<lparr>pgconn := w2\<rparr>) = Some (Inr rs, ?s\<lparr>pgconn := w3\<rparr>)" "q w3 = [r]" "M' w3"
    using receive_results_done [OF M'(1), of "?s\<lparr>pgconn := w2\<rparr>" rs "[r]"] 2(2,3) by auto
  obtain w4 where 4: "finish_pipeline E is_thrown rs (?s\<lparr>pgconn := w3\<rparr>) =
      Some (if is_thrown then (err exception_in_pipeline_operation, []) else (first_failure E rs, rs), ?s\<lparr>pgconn := w4\<rparr>)"
    "q w4 = []" "P' w4"
    using finish_pipeline_done [OF M'(3,1,2), of "?s\<lparr>pgconn := w3\<rparr>" r is_thrown rs] 3(2,3) r(4) by auto
  have "async_exec_pipeline E operation s =
      Some (Inr (if is_thrown then (err exception_in_pipeline_operation, []) else (first_failure E rs, rs)), ?s\<lparr>pgconn := w4\<rparr>)"
    using enter i block p(2) sync r(2) 2 3 4 by (simp add: async_exec_pipeline_def)
  with 4(2,3) show ?thesis by (intro exI [of _ "?s\<lparr>pgconn := w4\<rparr>"]) simp
qed

text \<open>
  C4: executing a pipeline takes exactly the results of its own commands, and leaves pipeline mode, which
  libpq allows only when every result was received. On a connection that works, whatever the operation
  pushes, and whether it throws or not, the execution ends with nothing left to receive and outside of
  pipeline mode: it gives the results of the accepted commands in their order, with success exactly when
  all of them succeeded and the code of the first failure otherwise; when the operation threw, no result
  and the code for that.
\<close>

theorem pipeline_takes_its_results:
  assumes "working E P rankP q" and "working E M rank q" and "pipelines E M q" and "pipeline_mode E P M q"
    and "P (pgconn s)" and "q (pgconn s) = []"
    and "PQenterPipelineMode E (pgconn s) = (i, w)"
    and "pipeline_block E operation
      \<lparr>pl_pgconn = w, pl_oids = conn_oids s, pl_buffer = buffer s, pl_index = 0\<rparr> = (Inr is_thrown, p)"
  shows "\<exists>rs s'. q (pl_pgconn p) = answered rs \<and> length rs = pipeline_size p \<and>
    async_exec_pipeline E operation s =
      Some (Inr (if is_thrown then (err exception_in_pipeline_operation, []) else (first_failure E rs, rs)), s') \<and>
    q (pgconn s') = [] \<and> P (pgconn s') \<and>
    ((\<forall>r \<in> set rs. \<not> failed (result_status_to_error_code E r)) \<longrightarrow> first_failure E rs = no_error) \<and>
    (\<forall>k < length rs. failed (result_status_to_error_code E (rs ! k)) \<and>
      (\<forall>j < k. \<not> failed (result_status_to_error_code E (rs ! j))) \<longrightarrow>
      first_failure E rs = result_status_to_error_code E (rs ! k))"
proof -
  have "M w" "q w = []" using pipeline_modeD(1) [OF assms(4,7,5,6)] by auto
  with block_pushed [OF assms(3,8)] obtain rs where
    rs: "q (pl_pgconn p) = answered rs" "pipeline_size p = length rs" "M (pl_pgconn p)"
    by (auto simp: pushed_def pipeline_size_def)
  with exec_pipeline_done [OF assms(1,2,4-8) rs(1,2) assms(2,4,1) rs(3)]
    first_failure_none [of rs E] first_failure_at [of _ rs E]
  show ?thesis by (intro exI [of _ rs]) simp
qed

definition insert_twice :: pipeline_op where
  "insert_twice = PushQuery ''INSERT INTO t VALUES ($1)'' [SVal (VInt32 1)]
     (\<lambda>_. PushQuery ''INSERT INTO t VALUES ($1)'' [SVal (VInt32 1)] (\<lambda>_. Return))"

lemma insert_twice_block:
  "\<exists>p. pipeline_block script insert_twice
     \<lparr>pl_pgconn = idle_server\<lparr>answers := [Some completed, Some unique_violation_reply], pipelining := True\<rparr>, pl_oids = Map.empty,
      pl_buffer = \<lparr>chars = [], capacity = 15, allocation = 0\<rparr>, pl_index = 0\<rparr> = (Inr False, p) \<and>
     pl_index p = 2 \<and> pending (pl_pgconn p) = answered [Some completed, Some unique_violation_reply]"
proof -
  have v: "\<forall>v \<in> set [SVal (VInt32 1)]. sendable Map.empty v" by (simp add: sendable_def)
  have ser: "\<exists>a b'. serialize_params Map.empty b [SVal (VInt32 1)] = (Inr a, b')" for b
    using serialize_params_run [OF v, of b] by blast
  obtain a b where 1: "serialize_params Map.empty \<lparr>chars = [], capacity = 15, allocation = 0\<rparr> [SVal (VInt32 1)] = (Inr a, b)"
    using ser by blast
  obtain a' b' where 2: "serialize_params Map.empty b [SVal (VInt32 1)] = (Inr a', b')" using ser by blast
  show ?thesis
    using 1 2
    by (simp add: pipeline_block_def insert_twice_def push_query_def push_with_def script_simps)
qed

theorem pipeline_takes_its_results_witness:
  "\<exists>s'. async_exec_pipeline script insert_twice
       (fresh (idle_server\<lparr>answers := [Some completed, Some unique_violation_reply]\<rparr>)) =
     Some (Inr (\<lparr>ec_value = 3505685, ec_category = SqlstateCategory\<rparr>, [Some completed, Some unique_violation_reply]), s') \<and>
   pending (pgconn s') = []"
proof -
  let ?w = "idle_server\<lparr>answers := [Some completed, Some unique_violation_reply]\<rparr>"
  let ?rs = "[Some completed, Some unique_violation_reply]"
  obtain p where block: "pipeline_block script insert_twice
      \<lparr>pl_pgconn = ?w\<lparr>pipelining := True\<rparr>, pl_oids = conn_oids (fresh ?w), pl_buffer = buffer (fresh ?w), pl_index = 0\<rparr> = (Inr False, p)"
    and p: "pending (pl_pgconn p) = answered ?rs"
    using insert_twice_block by (auto simp: fresh_def)
  have code: "result_status_to_error_code script (Some completed) = no_error"
    "result_status_to_error_code script (Some unique_violation_reply) = \<lparr>ec_value = 3505685, ec_category = SqlstateCategory\<rparr>"
    by (simp_all add: result_status_to_error_code_def script_simps completed_def unique_violation_reply_def
        sqlstate_error_code_def make_sqlstate_code_def sqlstate_wf_value sqlstate_wf_def digits36_def digit36_def Let_def)
  have enter: "PQenterPipelineMode script (pgconn (fresh ?w)) = (1, ?w\<lparr>pipelining := True\<rparr>)" by (simp add: script_simps)
  have start: "\<not> pipelining (pgconn (fresh ?w))" "pending (pgconn (fresh ?w)) = []"
    by (simp_all add: fresh_def idle_server_def)
  obtain rs s' where run: "pending (pl_pgconn p) = answered rs"
    "async_exec_pipeline script insert_twice (fresh ?w) = Some (Inr (first_failure script rs, rs), s')"
    "pending (pgconn s') = []"
    using pipeline_takes_its_results [OF script_working [of "\<lambda>m d. \<not> m"] script_working [of "\<lambda>m d. m"]
        script_pipelines [of "\<lambda>m d. m"] script_pipeline_mode start enter block] by auto
  from run(1) p have "rs = ?rs" by (simp only: answered_inject)
  with run(2,3) code show ?thesis by (simp add: failed_def no_error_def)
qed

text \<open>
  C25: the index that a push returns is the position of its result: whatever the operation pushes
  afterwards, the result of the command stands at that index among the results of the pipeline.
\<close>

theorem push_index_designates_result:
  assumes "pipelines E M q" and "M (pl_pgconn p)"
    and "q (pl_pgconn p) = answered rs" and "pl_index p = length rs"
    and "push_query E query vs p = (Inr i, p') \<or> push_query_prepared E stmt_name vs p = (Inr i, p')"
    and "run_pipeline_op E rest p' = (f, p'')"
  shows "\<exists>r all. q (pl_pgconn p') = q (pl_pgconn p) @ [r, None] \<and>
    q (pl_pgconn p'') = answered all \<and> length all = pipeline_size p'' \<and> i < length all \<and> all ! i = r"
proof -
  obtain r where r: "i = pl_index p" "pushed M q p p' [r]"
    using assms(5) push_pushed(1) [OF assms(1,2), of query vs "Inr i"]
      push_pushed(2) [OF assms(1,2), of stmt_name vs "Inr i"] by auto
  then have "M (pl_pgconn p')" by (simp add: pushed_def)
  with run_pushed [OF assms(1,6)] obtain ss where ss: "pushed M q p' p'' ss" by blast
  show ?thesis
    using r ss assms(3,4)
    by (intro exI [of _ r] exI [of _ "rs @ r # ss"]) (simp add: pushed_def pipeline_size_def)
qed

theorem push_index_designates_result_witness:
  "\<exists>p' r all.
     push_query script ''ROLLBACK;'' []
       \<lparr>pl_pgconn = idle_server\<lparr>answers := [Some completed]\<rparr>, pl_oids = Map.empty,
        pl_buffer = \<lparr>chars = [], capacity = 15, allocation = 0\<rparr>, pl_index = 0\<rparr> = (Inr 0, p') \<and>
     pending (pl_pgconn p') = [r, None] \<and> pending (pl_pgconn p') = answered all \<and> all ! 0 = r"
proof -
  let ?p = "\<lparr>pl_pgconn = idle_server\<lparr>answers := [Some completed]\<rparr>, pl_oids = Map.empty,
        pl_buffer = \<lparr>chars = [], capacity = 15, allocation = 0\<rparr>, pl_index = 0\<rparr>"
  obtain a b where "serialize_params Map.empty \<lparr>chars = [], capacity = 15, allocation = 0\<rparr> [] = (Inr a, b)"
    using serialize_params_sends [of "[]" Map.empty "\<lparr>chars = [], capacity = 15, allocation = 0\<rparr>"] by auto
  then obtain p' where push: "push_query script ''ROLLBACK;'' [] ?p = (Inr 0, p')"
    by (simp add: push_query_def push_with_def script_simps)
  have start: "pending (pl_pgconn ?p) = answered []" "pl_index ?p = length []"
    by (simp_all add: idle_server_def)
  have rest: "run_pipeline_op script Return p' = (None, p')" by simp
  obtain r all where all: "pending (pl_pgconn p') = pending (pl_pgconn ?p) @ [r, None]"
    "pending (pl_pgconn p') = answered all" "all ! 0 = r"
    using push_index_designates_result [OF script_pipelines [of "\<lambda>_ _. True"] TrueI start disjI1 [OF push] rest] by blast
  have "pending (pl_pgconn ?p) = []" by (simp add: idle_server_def)
  with all(1) have "pending (pl_pgconn p') = [r, None]" by (simp only: append.left_neutral)
  with push all(2,3) show ?thesis by blast
qed

text \<open>
  C29: when the operation throws and the server connection refuses the rollback that follows, the
  exception of that push leaves the execution: it does not complete, and the connection is left in
  pipeline mode, after what was pushed, without a synchronisation point.
\<close>

theorem pipeline_rollback_refused:
  assumes "PQenterPipelineMode E (pgconn s) = (i, w)" and "i \<noteq> 0"
    and "run_pipeline_op E operation
      \<lparr>pl_pgconn = w, pl_oids = conn_oids s, pl_buffer = buffer s, pl_index = 0\<rparr> = (Some (Throw x), p)"
    and "PQsendQueryParams E ''ROLLBACK;'' (params_for [] []) (pl_pgconn p) = (0, w')"
  shows "\<exists>b. async_exec_pipeline E operation s =
    Some (Inl (Throw (SystemError (err pq_send_query_params_failed))), s\<lparr>pgconn := w', buffer := b\<rparr>)"
proof -
  from serialize_params_sends [of "[]" "pl_oids p" "pl_buffer p"] obtain a b where
    "serialize_params (pl_oids p) (pl_buffer p) [] = (Inr a, b)" "sent_params b a = params_for [] []" by auto
  with assms show ?thesis
    by (auto simp: async_exec_pipeline_def pipeline_block_def push_query_def push_with_def Let_def)
qed

theorem pipeline_rollback_refused_witness:
  "\<exists>s'. async_exec_pipeline script (Raise OutOfRange) (fresh idle_server) =
     Some (Inl (Throw (SystemError (err pq_send_query_params_failed))), s')"
  using pipeline_rollback_refused [of script "fresh idle_server" 1 "idle_server\<lparr>pipelining := True\<rparr>" "Raise OutOfRange" OutOfRange
      "\<lparr>pl_pgconn = idle_server\<lparr>pipelining := True\<rparr>, pl_oids = conn_oids (fresh idle_server), pl_buffer = buffer (fresh idle_server),
        pl_index = 0\<rparr>" "idle_server\<lparr>pipelining := True\<rparr>"]
  by (auto simp: script_simps)

lemma lookup_completes:
  assumes p: "progressing E P rank" and sends: "sends_stay E P" and s: "P (pgconn s)"
  shows "completes P (lookup_new_udts E ts s)"
proof -
  let ?s = "s\<lparr>new_udts := extract_members (conn_oids s) ts (new_udts s)\<rparr>"
  obtain a b where ser: "serialize_params (conn_oids ?s) (buffer ?s)
      [VecVal (Scalar StringView) (map (name_value \<circ> udt_name) (new_udts ?s))] = (Inr a, b)"
    using names_serialize [unfolded names_of_def] by blast
  obtain i w where send: "PQsendQueryParams E query_oids_text (sent_params b a) (pgconn ?s) = (i, w)" by fastforce
  then have w: "P w" using sends s by (auto simp: sends_stay_def intro: stays_run)
  obtain ec res w1 where gen: "async_generic_single_result_query E (?s\<lparr>buffer := b, pgconn := w\<rparr>) =
      Some ((ec, res), ?s\<lparr>buffer := b, pgconn := w1\<rparr>)" "P w1"
    using generic.op_ends [OF p, of "?s\<lparr>buffer := b, pgconn := w\<rparr>"] w by (fastforce simp: ends_def)
  have "completes P (async_query_oids E ?s)"
    using ser send gen w by (auto simp: async_query_oids_def Let_def split: prod.split)
  with s show ?thesis by (auto simp: lookup_new_udts_def Let_def)
qed

lemma query_with_params_completes:
  assumes "progressing E P rank" and "sends_stay E P" and "P (pgconn s)" and send: "\<And>ps. stays P (snd \<circ> send ps)"
  shows "completes P (query_with_params E vs e send s)"
proof -
  obtain r s1 where look: "lookup_new_udts E (map ty_of vs) s = Some (r, s1)" "P (pgconn s1)"
    using lookup_completes [OF assms(1-3)] by (fastforce simp: completes_def)
  then have "completes P (sent_query E e (send ps (pgconn s1)) t)" for ps t
    using sent_query_completes [OF assms(1)] staysD [OF send look(2)] by simp
  with look show ?thesis
    by (auto simp: query_with_params_def split: sum.split prod.split)
qed

lemma queries_complete:
  assumes "progressing E P rank" and "sends_stay E P" and "P (pgconn s)"
  shows "completes P (async_query E query vs s)" and "completes P (async_query_prepared E stmt_name vs s)"
    and "completes P (async_prepare E stmt_name query s)" and "completes P (async_describe_prepared E stmt_name s)"
    and "completes P (async_describe_portal E portal_name s)"
proof -
  have "\<And>ps. stays P (snd \<circ> PQsendQueryParams E query ps)"
    "\<And>ps. stays P (snd \<circ> (\<lambda>p. PQsendQueryPrepared E stmt_name (p\<lparr>qp_types := []\<rparr>)) ps)"
    using assms(2) by (simp_all add: sends_stay_def)
  then show "completes P (async_query E query vs s)" "completes P (async_query_prepared E stmt_name vs s)"
    unfolding async_query_def async_query_prepared_def by - (rule query_with_params_completes [OF assms], assumption)+
  have "P (snd (PQsendPrepare E stmt_name query (pgconn s)))" "P (snd (PQsendDescribePrepared E stmt_name (pgconn s)))"
    "P (snd (PQsendDescribePortal E portal_name (pgconn s)))"
    using assms(2,3) by (simp_all add: sends_stay_def stays_def)
  then show "completes P (async_prepare E stmt_name query s)" "completes P (async_describe_prepared E stmt_name s)"
    "completes P (async_describe_portal E portal_name s)"
    unfolding async_prepare_def async_describe_prepared_def async_describe_portal_def
    by - (rule sent_query_completes [OF assms(1)], assumption)+
qed

lemma connect_poll_step:
  assumes "connect_progress E P rank" and "P w" and "PQconnectPoll E w = (ret, w1)" and "waiting ret"
    and "poll_wait E ret fd w1 = (ec, w2)" and "\<not> failed ec" and "PQconnectPoll E w2 = (ret', w3)" and "waiting ret'"
  shows "rank w3 < rank w1"
  using assms unfolding connect_progress_def by blast

lemma connect_poll_unfold:
  "connect_poll E s =
     (case PQconnectPoll E (pgconn s) of (ret, w) \<Rightarrow>
        if waiting ret then
          (case poll_wait E ret (socket s) w of (ec, w') \<Rightarrow>
             if failed ec then Some (ec, s\<lparr>pgconn := w'\<rparr>) else connect_poll E (s\<lparr>pgconn := w'\<rparr>))
        else if ret = PGRES_POLLING_FAILED then Some (err connection_failed, s\<lparr>pgconn := post E w\<rparr>)
        else Some (no_error, s\<lparr>pgconn := w\<rparr>))"
  by (subst connect_poll.simps) (auto simp: poll_wait_def split: prod.split)

lemma connect_poll_completes:
  assumes c: "connect_progress E P rank"
  shows "P (pgconn s) \<Longrightarrow> completes P (connect_poll E s)"
proof (induction "rank (snd (PQconnectPoll E (pgconn s)))" arbitrary: s rule: less_induct)
  case less
  obtain ret w where p: "PQconnectPoll E (pgconn s) = (ret, w)" by fastforce
  obtain ec w1 where x: "poll_wait E ret (socket s) w = (ec, w1)" by fastforce
  obtain ret' w2 where p': "PQconnectPoll E w1 = (ret', w2)" by fastforce
  have w: "P w" "P (post E w)" using c less.prems p by (auto simp: connect_progress_def intro: stays_run staysD)
  have w1: "P w1"
    using c w x by (auto simp: connect_progress_def poll_wait_def intro: stays_run split: if_splits)
  have w2: "P w2" "P (post E w2)" using c w1 p' by (auto simp: connect_progress_def intro: stays_run staysD)
  have again: "completes P (connect_poll E (s\<lparr>pgconn := w1\<rparr>))" if "waiting ret" "\<not> failed ec"
  proof (cases "waiting ret'")
    case True
    with connect_poll_step [OF c less.prems p that(1) x that(2) p'] less.hyps [of "s\<lparr>pgconn := w1\<rparr>"] p p' w1
    show ?thesis by simp
  next
    case False
    with p' w2 show ?thesis by (subst connect_poll_unfold) simp
  qed
  show ?case
  proof (cases "waiting ret \<and> \<not> failed ec")
    case True
    with again p x show ?thesis by (subst connect_poll_unfold) simp
  next
    case False
    with p x w w1 show ?thesis by (subst connect_poll_unfold) (auto split: if_splits)
  qed
qed

lemma connect_completes:
  assumes c: "connect_progress E P rank" and s: "P (pgconn s)"
  shows "completes P (async_connect E conninfo s)"
proof -
  note stay = c [unfolded connect_progress_def]
  have start: "P (PQconnectStart E conninfo (pgconn s))" using stay s by (simp add: stays_def)
  obtain ret w1 where 1: "PQsetnonblocking E 1 (PQconnectStart E conninfo (pgconn s)) = (ret, w1)" by fastforce
  have w1: "P w1" using stay start stays_run [of P "PQsetnonblocking E 1", OF _ start 1] by simp
  have w2: "P (PQsetNoticeProcessor E w1)" using stay w1 by (simp add: stays_def)
  obtain ec w3 where 3: "socket_assign E (PQsocket E (PQsetNoticeProcessor E w1)) (PQsetNoticeProcessor E w1) = (ec, w3)"
    by fastforce
  have w3: "P w3" using stay stays_run [of P "socket_assign E fd" for fd, OF _ w2 3] by simp
  have post: "P (post E w)" if "P w" for w using stay that by (simp add: stays_def)
  have "completes P (connect_poll E (s\<lparr>pgconn := w3, socket := fd\<rparr>) \<bind> (\<lambda>(ec, s'). Some (Inr ec, s')))" for fd
    by (rule completes_bind [OF connect_poll_completes [OF c]]) (auto simp: w3)
  with 1 3 start w1 w3 post show ?thesis by (auto simp: async_connect_def Let_def)
qed

subsection \<open>Every operation ends\<close>

text \<open>
  While waiting for a notification: as long as there is none, a wait that does not fail, or that another
  operation ended, and then \<open>PQconsumeInput\<close> brings the next one closer.
\<close>

definition notification_progress :: "('w, 'r) env \<Rightarrow> ('w \<Rightarrow> bool) \<Rightarrow> ('w \<Rightarrow> nat) \<Rightarrow> bool" where
  "notification_progress E P rank \<longleftrightarrow>
     (\<forall>fd w w1 ec cancelled w2 ret w3. P w \<and> PQnotifies E w = (None, w1) \<and>
        wait_notification E fd w1 = ((ec, cancelled), w2) \<and> (failed ec \<longrightarrow> ec = operation_aborted E \<and> \<not> cancelled) \<and>
        PQconsumeInput E w2 = (ret, w3) \<and> ret \<noteq> 0 \<longrightarrow> P w3 \<and> rank w3 < rank w)"

lemma notification_completes:
  assumes n: "notification_progress E P rank"
  shows "P (pgconn s) \<Longrightarrow> receive_notification_loop E s \<noteq> None"
proof (induction "rank (pgconn s)" arbitrary: s rule: less_induct)
  case less
  obtain m w where m: "PQnotifies E (pgconn s) = (m, w)" by fastforce
  obtain ec c w1 where x: "wait_notification E (socket s) w = ((ec, c), w1)" by (metis surj_pair)
  obtain ret w2 where r: "PQconsumeInput E w1 = (ret, w2)" by fastforce
  show ?case
  proof (cases "m = None \<and> (failed ec \<longrightarrow> ec = operation_aborted E \<and> \<not> c) \<and> ret \<noteq> 0")
    case True
    with n less.prems m x r have "P w2" "rank w2 < rank (pgconn s)" unfolding notification_progress_def by blast+
    with less.hyps [of "s\<lparr>pgconn := w2\<rparr>"] True m x r show ?thesis
      by (subst receive_notification_loop.simps) (auto simp: notification_bool_def)
  next
    case False
    with m x r show ?thesis
      by (subst receive_notification_loop.simps) (auto simp: notification_bool_def)
  qed
qed

text \<open>
  C14: every asynchronous operation of a connection ends, with a completion or an exception, whatever
  fails on the way, when every turn of a waiting loop, the call of libpq after the wait included, brings
  the end of the loop closer. Waiting alone is not assumed to: a handler that waits again without having
  called \<open>PQconsumeInput\<close>, \<open>PQflush\<close> or \<open>PQconnectPoll\<close> is not covered.
\<close>

theorem operations_complete:
  assumes "progressing E P rank" and "connect_progress E P rank_connect"
    and "notification_progress E P rank_notification"
    and "sends_stay E P" and "modes_stay E P" and "P (pgconn s)"
  shows "async_connect E conninfo s \<noteq> None \<and>
    async_query E query vs s \<noteq> None \<and> async_query_prepared E stmt_name vs s \<noteq> None \<and>
    async_prepare E stmt_name query s \<noteq> None \<and> async_describe_prepared E stmt_name s \<noteq> None \<and>
    async_describe_portal E portal_name s \<noteq> None \<and> async_exec_pipeline E operation s \<noteq> None \<and>
    async_receive_notifcation E s \<noteq> None"
  using completes_not_None [OF connect_completes [OF assms(2,6)]] queries_complete [OF assms(1,4,6), THEN completes_not_None]
    completes_not_None [OF exec_pipeline_completes [OF assms(1,4,5,6)]] notification_completes [OF assms(3,6)]
  by (simp add: async_receive_notifcation_def)

lemma script_notification_progress: "notification_progress script (\<lambda>_. True) (\<lambda>w. length (wakeups w))"
  by (auto simp: notification_progress_def script_simps aborted_def failed_def split: list.splits)

theorem operations_complete_witness:
  "async_query script ''SELECT $1'' [employee] (fresh (idle_server\<lparr>events := 3\<rparr>)) \<noteq> None"
  using operations_complete [OF script_progressing [of "\<lambda>_ _. True"] script_connect_progress [of "\<lambda>_ _. True"]
      script_notification_progress script_stays [of "\<lambda>_ _. True"] script_modes_stay [of "\<lambda>_. True"] TrueI]
  by blast

end
