(* ===== verification/ExampleRuns.thy ===== *)
theory ExampleRuns
  imports Examples
begin

text \<open>
  What the example programs do: they end, and they print what they sent.
\<close>

subsection \<open>Running coroutines\<close>

lemma co_bind_run: "m P = Some (Inr x, P') \<Longrightarrow> co_bind m f P = f x P'"
  by (simp add: co_bind_def)

lemma co_bind_simps [simp]:
  "co_bind (co_return x) f P = (case x of Inl e \<Rightarrow> Some (Inl e, P) | Inr y \<Rightarrow> f y P)"
  "co_bind (cout text) g P = g () (P\<lparr>stdout := stdout P @ text\<rparr>)"
  by (auto simp: co_bind_def co_return_def cout_def split: sum.split)

lemma co_return_run [simp]: "co_return x P = Some (x, P)"
  by (simp add: co_return_def)

lemma cout_run [simp]: "cout text P = Some (Inr (), P\<lparr>stdout := stdout P @ text\<rparr>)"
  by (simp add: cout_def)

lemma co_await_run:
  assumes "op (connection P) = Some (Inr (ec, x), s)" and "\<not> failed ec"
  shows "co_await op P = Some (Inr x, P\<lparr>connection := s\<rparr>)"
  using assms by (simp add: co_await_def)

lemma co_bind_assoc: "co_bind (co_bind m f) g P = co_bind m (\<lambda>x. co_bind (f x) g) P"
  by (cases "m P") (auto simp: co_bind_def split: sum.split)

lemma co_bind_return [simp]: "co_bind (co_return (Inr x)) f = f x"
  by (rule ext) simp

text \<open>A loop whose body only prints.\<close>

lemma co_each_prints:
  assumes "\<And>x P. x \<in> set xs \<Longrightarrow> body x P = Some (Inr (), P\<lparr>stdout := stdout P @ text x\<rparr>)"
  shows "co_each body xs P = Some (Inr (), P\<lparr>stdout := stdout P @ concat (map text xs)\<rparr>)"
  using assms by (induction xs arbitrary: P) (simp_all add: co_bind_run)

lemma byte_of_char: "unat (of_char c :: 8 word) = of_char c"
proof -
  have "unat (word_of_nat n :: 8 word) = n" if "n < 256" for n
    using that by (simp add: unsigned_of_nat take_bit_nat_eq_self)
  then show ?thesis using of_nat_of_char [of c, where ?'a = "8 word"] by (metis nat_of_char_less_256)
qed

lemma chars_of_text [simp]: "chars_of (map of_char s) = s"
  by (simp add: chars_of_def byte_of_char comp_def)

subsection \<open>Ending\<close>

text \<open>A coroutine ends from every world of \<open>P\<close>, in a world of \<open>P\<close>.\<close>

definition co_ends :: "('w \<Rightarrow> bool) \<Rightarrow> ('a, 'w) coro \<Rightarrow> bool" where
  "co_ends P m \<longleftrightarrow>
     (\<forall>X. P (pgconn (connection X)) \<longrightarrow> (\<exists>x X'. m X = Some (x, X') \<and> P (pgconn (connection X'))))"

named_theorems ends_intro

lemma co_ends_bind [ends_intro]:
  assumes "co_ends P m" and "\<And>x. co_ends P (f x)"
  shows "co_ends P (co_bind m f)"
  unfolding co_ends_def
proof (intro allI impI)
  fix X :: "'a program" assume "P (pgconn (connection X))"
  with assms(1) obtain x X' where 1: "m X = Some (x, X')" "P (pgconn (connection X'))"
    unfolding co_ends_def by blast
  show "\<exists>x X'. co_bind m f X = Some (x, X') \<and> P (pgconn (connection X'))"
  proof (cases x)
    case (Inl e)
    with 1 show ?thesis by (simp add: co_bind_def)
  next
    case (Inr y)
    with assms(2) [of y] 1 show ?thesis by (simp add: co_bind_def co_ends_def)
  qed
qed

lemma co_ends_simple [ends_intro]: "co_ends P (co_return x)" "co_ends P (cout text)"
  by (simp_all add: co_ends_def)

lemma co_ends_each [ends_intro]: "(\<And>x. x \<in> set xs \<Longrightarrow> co_ends P (body x)) \<Longrightarrow> co_ends P (co_each body xs)"
  by (induction xs) (auto intro!: co_ends_bind co_ends_simple)

lemma co_ends_await:
  assumes "\<And>s. P (pgconn s) \<Longrightarrow> completes P (op s)"
  shows "co_ends P (co_await op)"
  unfolding co_ends_def
proof (intro allI impI)
  fix X :: "'a program" assume "P (pgconn (connection X))"
  with assms obtain x s where "op (connection X) = Some (x, s)" "P (pgconn s)" by (fastforce simp: completes_def)
  then show "\<exists>x X'. co_await op X = Some (x, X') \<and> P (pgconn (connection X'))" by (simp add: co_await_def)
qed

lemma co_ends_rows:
  assumes "counts_ok A" and "\<And>row. co_ends P (body row)"
  shows "co_ends P (for_rows A res body)"
proof -
  have "result_size A res < 2 ^ 31"
    using assms(1) by (auto simp: result_size_eq counts_ok_def nat_less_iff)
  then show ?thesis
    using co_ends_each [of _ P body] assms(2) result_range.range_for_visits [of A res]
    by (auto simp: co_ends_def for_rows_def)
qed

lemma co_ends_connect:
  assumes "connect_progress E P rank"
  shows "co_ends P (connect E conninfo)"
  unfolding connect_def
  by (intro co_ends_await completes_bind [OF connect_completes [OF assms]]) auto

lemma co_ends_queries:
  assumes "progressing E P rank" and "sends_stay E P"
  shows "co_ends P (await_query E query args)" and "co_ends P (run_queries E qs)"
proof -
  show q: "co_ends P (await_query E query args)" for query args
    unfolding await_query_def by (intro co_ends_await queries_complete(1) [OF assms])
  show "co_ends P (run_queries E qs)"
    unfolding run_queries_def by (auto intro!: ends_intro q)
qed

lemma co_ends_cases [ends_intro]:
  "(\<And>a b. co_ends P (f a b)) \<Longrightarrow> co_ends P (case v of TupVal [a, b] \<Rightarrow> f a b | _ \<Rightarrow> co_return (Inl IllFormed))"
  "(\<And>t vs. co_ends P (g t vs)) \<Longrightarrow> co_ends P (case v of VecVal t vs \<Rightarrow> g t vs | _ \<Rightarrow> co_return (Inl IllFormed))"
  "(\<And>n i a b. co_ends P (h n i a b)) \<Longrightarrow>
     co_ends P (case v of UdtVal n i [a, b] \<Rightarrow> h n i a b | _ \<Rightarrow> co_return (Inl IllFormed))"
  by (cases v; simp add: co_ends_simple split: list.split)+

lemma co_ends_prints [ends_intro]:
  "co_ends P (print_pair sep x)" "co_ends P (print_elements x)" "co_ends P (print_contact x)" "co_ends P (print_as_int A res)"
  unfolding print_pair_def print_elements_def print_contact_def print_as_int_def
  by (intro ends_intro)+

lemma co_ends_employee [ends_intro]: "co_ends P (print_employee e)"
  unfolding print_employee_def by (intro ends_intro)

lemma co_ends_company [ends_intro]: "co_ends P (print_company v)"
  by (cases v rule: print_company.cases; simp only: print_company.simps; intro ends_intro)

text \<open>What \<open>main\<close> gives: no exception leaves it.\<close>

definition main_result :: "string list \<Rightarrow> int res \<Rightarrow> bool" where
  "main_result argv x \<longleftrightarrow>
     (if length argv \<noteq> 2 then x = Inr 1 else x = Inr 0 \<or> x = Inl IllFormed \<or> (\<exists>u. x = Inl (Undefined u)))"

lemma main_ends:
  assumes "co_ends P (async_main (argv ! 1))" and "P (pgconn (connection X))"
  shows "\<exists>x X'. main what async_main argv X = Some (x, X') \<and> main_result argv x"
proof -
  obtain x X' where "async_main (argv ! 1) X = Some (x, X')" using assms by (fastforce simp: co_ends_def)
  then show ?thesis by (auto simp: main_def main_result_def split: sum.split failure.split)
qed



subsection \<open>What is printed\<close>

lemma run_queries_Nil [simp]: "run_queries E [] P = Some (Inr (), P)"
  by (simp add: run_queries_def)

lemma run_queries_Cons:
  "run_queries E ((query, args) # qs) P = co_bind (await_query E query args) (\<lambda>_. run_queries E qs) P"
  by (simp add: run_queries_def co_bind_assoc)

text \<open>Commands without parameters, each of which the server executes with success.\<close>

lemma run_commands:
  assumes "\<And>d. working E (P d) rank q" and "answering E P q exec"
  shows "new_udts (connection X) = [] \<Longrightarrow> P d (pgconn (connection X)) \<Longrightarrow> q (pgconn (connection X)) = [] \<Longrightarrow>
    server_run exec (conn_oids (connection X)) (map (\<lambda>query. (query, [])) queries) d = (rs, d') \<Longrightarrow>
    \<forall>r \<in> set rs. \<not> failed (result_status_to_error_code E r) \<Longrightarrow>
    \<exists>b w. run_queries E (map (\<lambda>query. (query, [])) queries) X =
      Some (Inr (), X\<lparr>connection := (connection X)\<lparr>buffer := b, pgconn := w\<rparr>\<rparr>) \<and> q w = [] \<and> P d' w"
proof (induction queries arbitrary: X d rs)
  case Nil
  then show ?case
    by (intro exI [of _ "buffer (connection X)"] exI [of _ "pgconn (connection X)"]) simp
next
  case (Cons query queries)
  let ?s = "connection X"
  obtain r d1 where r: "exec query (wire_params (conn_oids ?s) []) d = (r, d1)" by fastforce
  with Cons.prems(4) obtain rs' where
    rs: "server_run exec (conn_oids ?s) (map (\<lambda>query. (query, [])) queries) d1 = (rs', d')" "rs = r # rs'"
    by (auto split: prod.splits)
  obtain b w where run: "async_query E query (mp []) ?s =
      Some (Inr (result_status_to_error_code E r, r), ?s\<lparr>buffer := b, pgconn := w\<rparr>)" "q w = []" "P d1 w"
    using query_answered [OF assms Cons.prems(1) _ Cons.prems(2,3) r]
    by (auto simp: known_params_def mp_def)
  let ?X = "X\<lparr>connection := ?s\<lparr>buffer := b, pgconn := w\<rparr>\<rparr>"
  have await: "await_query E query [] X = Some (Inr r, ?X)"
    unfolding await_query_def using run(1) Cons.prems(5) rs(2) by (intro co_await_run) auto
  obtain b' w' where "run_queries E (map (\<lambda>query. (query, [])) queries) ?X =
      Some (Inr (), ?X\<lparr>connection := (connection ?X)\<lparr>buffer := b', pgconn := w'\<rparr>\<rparr>)" "q w' = []" "P d' w'"
    using Cons.IH [of ?X d1 rs'] Cons.prems run(2,3) rs by auto
  then show ?case
    by (intro exI [of _ b'] exI [of _ w']) (simp add: run_queries_Cons co_bind_run await)
qed

definition company_text :: string where
  "company_text =
     ''company id:104'' @ endl @ ''company employees:'' @ endl @
     ''name:Jane Eyre'' @ [CHR 0x09] @ ''phone:555-123-4567'' @ [CHR 0x09] @ endl @
     ''name:Tom Hanks'' @ [CHR 0x09] @ ''phone:555-987-6543'' @ [CHR 0x09] @ endl"

lemma print_employee_made [simp]:
  "print_employee (mk_employee name phone) P = Some (Inr (), P\<lparr>stdout := stdout P @
     ''name:'' @ name @ [CHR 0x09] @ ''phone:'' @ phone @ [CHR 0x09] @ endl\<rparr>)"
  by (simp add: print_employee_def mk_employee_def)

lemma print_the_company: "print_company the_company P = Some (Inr (), P\<lparr>stdout := stdout P @ company_text\<rparr>)"
proof -
  have "show_int 104 = ''104''" by code_simp
  then show ?thesis
    by (simp add: the_company_def mk_company_def company_text_def co_bind_run)
qed

definition ddl :: "string list" where
  "ddl = [''DROP TYPE IF EXISTS company;'', ''DROP TYPE IF EXISTS employee;'',
     ''CREATE TYPE employee AS (name TEXT, phone TEXT);'',
     ''CREATE TYPE company AS (id INT8, employees employee[]);'']"

text \<open>
  C20: the example of user-defined types prints the company that it sent: when the connection is made and
  works, the server executes the commands, then knows the two types and selects the parameter, the program
  looks the types up, sends the company, reads it back and prints it whole.
\<close>

theorem user_defined_prints:
  assumes "\<And>d. working E (P d) rank q" and "answering E P q exec"
    and "async_connect E conninfo (connection X) = Some (Inr no_error, s)"
    and "new_udts s = []" and "P d (pgconn s)" and "q (pgconn s) = []"
    and "server_run exec (conn_oids s) (map (\<lambda>query. (query, [])) ddl) d = (rs, d')"
    and "\<forall>r \<in> set rs. \<not> failed (result_status_to_error_code E r)"
    and "us = extract_members (conn_oids s) [Company] []"
    and "us \<noteq> [] \<Longrightarrow> knows_types E exec d' (conn_oids s) us p"
    and "echoes (results E) (\<lambda>ps. fst (exec ''SELECT $1;'' ps (after_lookup exec d' (conn_oids s) us)))"
  shows "\<exists>X'. main what (user_defined E) [program_name, conninfo] X = Some (Inr 0, X') \<and>
    stdout X' = stdout X @ company_text \<and> stderr X' = stderr X"
proof -
  let ?X = "X\<lparr>connection := s\<rparr>"
  have connect: "connect E conninfo X = Some (Inr (), ?X)"
    unfolding connect_def using assms(3) by (intro co_await_run [where ec = no_error]) simp_all
  obtain b w where run: "run_queries E (map (\<lambda>query. (query, [])) ddl) ?X =
      Some (Inr (), X\<lparr>connection := s\<lparr>buffer := b, pgconn := w\<rparr>\<rparr>)" "q w = []" "P d' w"
    using run_commands [OF assms(1,2), of ?X d ddl rs d'] assms(4-8) by auto
  let ?s = "s\<lparr>buffer := b, pgconn := w\<rparr>"
  obtain res s' where query: "async_query E ''SELECT $1;'' [the_company] ?s = Some (Inr (no_error, res), s')"
    "as_result (results E) [Company] res = Inr the_company"
    using echo_run [OF assms(1,2), of d' ?s us the_company p "''SELECT $1;''"] run(2,3) assms(4,9-11) by auto
  let ?X' = "X\<lparr>connection := s'\<rparr>"
  have await: "await_query E ''SELECT $1;'' [Object the_company] (X\<lparr>connection := ?s\<rparr>) = Some (Inr res, ?X')"
    unfolding await_query_def
    using co_await_run [of _ "X\<lparr>connection := ?s\<rparr>" no_error res s'] query(1) by (simp add: mp_def)
  have "user_defined E conninfo X = print_company the_company ?X'"
    using run(1) query(2) by (simp add: user_defined_def co_bind_run connect ddl_def await)
  then show ?thesis by (simp add: print_the_company main_def)
qed

lemma answering_script_connects:
  "async_connect (answering_script f) conninfo (fresh idle_server) = Some (Inr no_error, fresh idle_server)"
  by (simp add: async_connect_def connect_poll.simps answering_script_def script_simps)

lemma query_texts: "''SELECT $1;'' \<noteq> query_oids_text" "query \<in> set ddl \<Longrightarrow> query \<noteq> query_oids_text"
  by (auto simp: query_oids_text_def ddl_def)

theorem user_defined_prints_witness:
  "\<exists>P'. main (\<lambda>_. []) (user_defined (answering_script echo_answer)) [''./user_defined'', ''postgresql://localhost'']
      \<lparr>connection = fresh idle_server, stdout = [], stderr = []\<rparr> = Some (Inr 0, P') \<and> stdout P' = company_text"
proof -
  let ?us = "[\<lparr>udt_name = ''company'', type_index = 1\<rparr>, \<lparr>udt_name = ''employee'', type_index = 0\<rparr>]"
  let ?P = "\<lparr>connection = fresh idle_server, stdout = [], stderr = []\<rparr>"
  let ?E = "answering_script echo_answer" and ?exec = "script_exec echo_answer"
  have connects: "async_connect ?E ''postgresql://localhost'' (connection ?P) = Some (Inr no_error, fresh idle_server)"
    using answering_script_connects by simp
  have start: "new_udts (fresh idle_server) = []" "one_by_one 0 (pgconn (fresh idle_server))"
    "pending (pgconn (fresh idle_server)) = []"
    by (simp_all add: fresh_def idle_server_def one_by_one_def)
  have "exec_ok \<noteq> query_oids_text" if "exec_ok \<in> set ddl" for exec_ok using query_texts(2) that by simp
  then obtain a b c e where accepts: "server_run ?exec (conn_oids (fresh idle_server)) (map (\<lambda>query. (query, [])) ddl) 0 =
      ([Some (echo_reply a), Some (echo_reply b), Some (echo_reply c), Some (echo_reply e)], 4)"
    by (simp add: script_exec_def echo_answer_def ddl_def)
  have ok: "\<forall>r \<in> set [Some (echo_reply a), Some (echo_reply b), Some (echo_reply c), Some (echo_reply e)].
      \<not> failed (result_status_to_error_code ?E r)"
    by (simp add: echo_reply_def)
  have us: "?us = extract_members (conn_oids (fresh idle_server)) [Company] []"
    using company_new_types by (simp add: fresh_def)
  have knows: "knows_types ?E ?exec 4 (conn_oids (fresh idle_server)) ?us example_oids"
    using echo_knows_company by (simp add: fresh_def)
  have echoes: "echoes (results ?E) (\<lambda>ps. fst (?exec ''SELECT $1;'' ps d))" for d
    using echo_reply_echoes [OF query_texts(1)] by simp
  obtain P' where "main (\<lambda>_. []) (user_defined ?E) [''./user_defined'', ''postgresql://localhost''] ?P = Some (Inr 0, P')"
    "stdout P' = stdout ?P @ company_text"
    using user_defined_prints [OF answering_script_working(1) answering_script_answering(1) connects start accepts ok us knows echoes,
        of "\<lambda>_. []" "''./user_defined''"] by blast
  then show ?thesis by auto
qed

subsection \<open>The receiver of notifications\<close>

text \<open>
  \<open>inbox w\<close> are the notifications that are still to be received: libpq hands out the first one, or the wait
  ends, for input or because another operation ended it, and brings it closer.
\<close>

definition notification_brought ::
  "('w, 'r) env \<Rightarrow> ('w \<Rightarrow> notify list) \<Rightarrow> ('w \<Rightarrow> nat) \<Rightarrow> 'w \<Rightarrow> bool" where
  "notification_brought E inbox rank w \<longleftrightarrow>
     (case PQnotifies E w of
        (Some n, w') \<Rightarrow> n = hd (inbox w) \<and> inbox (post E w') = tl (inbox w)
      | (None, w') \<Rightarrow>
          (\<forall>fd. case wait_notification E fd w' of ((ec, cancelled), w1) \<Rightarrow>
             (failed ec \<longrightarrow> ec = operation_aborted E \<and> \<not> cancelled) \<and> fst (PQconsumeInput E w1) \<noteq> 0 \<and>
             inbox (snd (PQconsumeInput E w1)) = inbox w \<and> rank (snd (PQconsumeInput E w1)) < rank w))"

definition delivers_notifications :: "('w, 'r) env \<Rightarrow> ('w \<Rightarrow> notify list) \<Rightarrow> ('w \<Rightarrow> nat) \<Rightarrow> bool" where
  "delivers_notifications E inbox rank \<longleftrightarrow> (\<forall>w. inbox w \<noteq> [] \<longrightarrow> notification_brought E inbox rank w)"

lemma notification_delivered:
  assumes "delivers_notifications E inbox rank"
  shows "inbox (pgconn s) = n # ns \<Longrightarrow>
    \<exists>w. receive_notification_loop E s = Some ((no_error, Some n), s\<lparr>pgconn := w\<rparr>) \<and> inbox w = ns"
proof (induction "rank (pgconn s)" arbitrary: s rule: less_induct)
  case less
  obtain m w where n: "PQnotifies E (pgconn s) = (m, w)" by fastforce
  obtain ec c w1 where x: "wait_notification E (socket s) w = ((ec, c), w1)" by (metis surj_pair)
  obtain ret w2 where r: "PQconsumeInput E w1 = (ret, w2)" by fastforce
  have now: "notification_brought E inbox rank (pgconn s)"
    using assms less.prems by (simp add: delivers_notifications_def)
  show ?case
  proof (cases m)
    case (Some k)
    with now n less.prems show ?thesis
      by (subst receive_notification_loop.simps) (auto simp: notification_bool_def notification_brought_def)
  next
    case None
    have step: "failed ec \<longrightarrow> ec = operation_aborted E \<and> \<not> c" "ret \<noteq> 0" "inbox w2 = inbox (pgconn s)"
      "rank w2 < rank (pgconn s)"
      using now None n x r
      by (fastforce simp: notification_brought_def dest: spec [of _ "socket s"])+
    with less.hyps [of "s\<lparr>pgconn := w2\<rparr>"] less.prems None n x r show ?thesis
      by (subst receive_notification_loop.simps) (simp add: notification_bool_def)
  qed
qed

definition notification_line :: "notify \<Rightarrow> string" where
  "notification_line n = ''Channel:'' @ relname n @ [CHR 0x09] @ ''Payload:'' @ extra n @ endl"

lemma receiver_step:
  assumes "delivers_notifications E inbox rank" and "inbox (pgconn (connection P)) = n # ns"
  shows "\<exists>P'. notifcation_receiver E P =
      (if extra n = ''10'' then Some (Inr (), P') else notifcation_receiver E P') \<and>
    stdout P' = stdout P @ notification_line n \<and> inbox (pgconn (connection P')) = ns"
proof -
  obtain w where "receive_notification_loop E (connection P) =
      Some ((no_error, Some n), (connection P)\<lparr>pgconn := w\<rparr>)" "inbox w = ns"
    using notification_delivered [where E = E and inbox = inbox, OF assms] by blast
  then have await: "co_await (\<lambda>s. do { (y, s) \<leftarrow> async_receive_notifcation E s; Some (Inr y, s) }) P =
      Some (Inr (Some n), P\<lparr>connection := (connection P)\<lparr>pgconn := w\<rparr>\<rparr>)"
    by (intro co_await_run [where ec = no_error]) (simp_all add: async_receive_notifcation_def)
  let ?P = "P\<lparr>connection := (connection P)\<lparr>pgconn := w\<rparr>, stdout := stdout P @ notification_line n\<rparr>"
  have "notifcation_receiver E P = (if extra n = ''10'' then Some (Inr (), ?P) else notifcation_receiver E ?P)"
    by (simp only: notifcation_receiver.simps [of E P] await)
      (simp add: channel_def payload_def notification_line_def Let_def)
  with \<open>inbox w = ns\<close> show ?thesis by (intro exI [of _ ?P]) simp
qed

text \<open>
  C21: the receiver of the example prints every notification, in the order in which they come, up to the
  first one with the payload 10, and ends there: the later ones are left.
\<close>

theorem receiver_prints:
  assumes "delivers_notifications E inbox rank"
    and "inbox (pgconn (connection P)) = ns @ n # rest"
    and "\<forall>m \<in> set ns. extra m \<noteq> ''10''" and "extra n = ''10''"
  shows "\<exists>P'. notifcation_receiver E P = Some (Inr (), P') \<and>
    stdout P' = stdout P @ concat (map notification_line (ns @ [n])) \<and> inbox (pgconn (connection P')) = rest"
  using assms(2,3)
proof (induction ns arbitrary: P)
  case Nil
  with receiver_step [OF assms(1), of P n rest] assms(4) show ?case by auto
next
  case (Cons m ns)
  from Cons.prems have "inbox (pgconn (connection P)) = m # (ns @ n # rest)" "extra m \<noteq> ''10''" by simp_all
  with receiver_step [OF assms(1), of P m "ns @ n # rest"] obtain P' where
    step: "notifcation_receiver E P = notifcation_receiver E P'" "stdout P' = stdout P @ notification_line m"
      "inbox (pgconn (connection P')) = ns @ n # rest" by auto
  with Cons.IH [OF step(3)] Cons.prems(2) show ?case by auto
qed

text \<open>The notifications that the script still has, when each of its waits is interrupted.\<close>

definition script_inbox :: "server \<Rightarrow> notify list" where
  "script_inbox w =
     (if set (wakeups w) \<subseteq> {(aborted, False)} \<and> length (filter (\<lambda>n. n = None) (notices w)) \<le> length (wakeups w)
      then concat (map (\<lambda>n. case n of None \<Rightarrow> [] | Some m \<Rightarrow> [m]) (notices w)) else [])"

lemma script_delivers_notifications: "delivers_notifications script script_inbox (length \<circ> notices)"
  unfolding delivers_notifications_def
proof (intro allI impI)
  fix w assume w: "script_inbox w \<noteq> []"
  then have ok: "set (wakeups w) \<subseteq> {(aborted, False)}" "length (filter (\<lambda>n. n = None) (notices w)) \<le> length (wakeups w)"
    by (auto simp: script_inbox_def split: if_splits)
  show "notification_brought script script_inbox (length \<circ> notices) w"
  proof (cases "notices w")
    case Nil
    with w show ?thesis by (simp add: script_inbox_def split: if_splits)
  next
    case (Cons n ns)
    with ok show ?thesis
      by (cases n; cases "wakeups w") (auto simp: notification_brought_def script_inbox_def script_simps)
  qed
qed

definition counted :: "string \<Rightarrow> notify" where
  "counted text = \<lparr>be_pid = 9, relname = ''counter'', extra = text\<rparr>"

theorem receiver_prints_witness:
  "\<exists>P'. notifcation_receiver script
      \<lparr>connection = fresh (idle_server\<lparr>notices := [None, Some (counted ''9''), Some (counted ''10'')],
         wakeups := [(aborted, False)]\<rparr>), stdout = [], stderr = []\<rparr> = Some (Inr (), P') \<and>
    stdout P' = notification_line (counted ''9'') @ notification_line (counted ''10'')"
proof -
  let ?P = "\<lparr>connection = fresh (idle_server\<lparr>notices := [None, Some (counted ''9''), Some (counted ''10'')],
         wakeups := [(aborted, False)]\<rparr>), stdout = [], stderr = []\<rparr>"
  have "script_inbox (pgconn (connection ?P)) = [counted ''9''] @ counted ''10'' # []"
    by (simp add: script_inbox_def fresh_def)
  from receiver_prints [OF script_delivers_notifications this] show ?thesis by (auto simp: counted_def)
qed

end
