(* ===== verification/SharedConnection.thy ===== *)
theory SharedConnection
  imports Notification
begin

text \<open>
  Two operations on one connection: while an operation with one result is under way, or between two of
  them, an \<open>async_receive_notifcation\<close> may wait (connection.hpp; it is the only operation that may be
  started while another one is under way). Both read the same socket, so their handlers are cut here at
  every suspension point, and interleaved.
\<close>

subsection \<open>The handlers between their suspension points\<close>

text \<open>
  Which of the two results of \<open>async_generic_single_result_query\<close> is received; the first one is kept as
  \<open>stored_result\<close> while the second one is.
\<close>

datatype 'r stage = First | Second "'r result"

text \<open>
  Where the operation is: waiting in the parallel group of \<open>async_flush\<close>, or for input; about to run
  after such a wait completed, or after a \<open>post\<close>; or completed.
\<close>

datatype 'r query_pc =
    QIdle
  | QFlushWait
  | QFlushRun bool error_code error_code
  | QReadWait "'r stage"
  | QReadRun error_code "'r stage"
  | QPosted "'r stage"
  | QDone error_code "'r result"

text \<open>\<open>async_receive_result\<close>: the test of its loop, and what follows the loop.\<close>

definition receive_check ::
  "('w, 'r) env \<Rightarrow> bool \<Rightarrow> 'r stage \<Rightarrow> 'w \<Rightarrow> 'r result option \<times> 'r query_pc \<times> 'w" where
  "receive_check E needs_rescheduling st w =
     (case PQisBusy E w of (busy, w) \<Rightarrow>
        if busy \<noteq> 0 then (None, QReadWait st, w)
        else if needs_rescheduling then (None, QPosted st, w)
        else (case PQgetResult E w of (res, w) \<Rightarrow> (Some res, QIdle, w)))"

text \<open>
  A received result goes to \<open>async_generic_single_result_query\<close>. The last component tells whether the
  signal of notifications is emitted.
\<close>

definition generic_received ::
  "('w, 'r) env \<Rightarrow> 'r stage \<Rightarrow> 'r result option \<times> 'r query_pc \<times> 'w \<Rightarrow> 'r query_pc \<times> 'w \<times> bool" where
  "generic_received E st x =
     (case x of
        (None, pc, w) \<Rightarrow> (pc, w, False)
      | (Some res, _, w) \<Rightarrow>
          (case st of
             First \<Rightarrow> (case receive_check E True (Second res) w of (_, pc, w) \<Rightarrow> (pc, w, False))
           | Second stored_result \<Rightarrow>
               if res \<noteq> None then (QDone (err unexpected_non_null_result) None, w, False)
               else (QDone (result_status_to_error_code E stored_result) stored_result, w, True)))"

definition flush_resume ::
  "('w, 'r) env \<Rightarrow> bool \<Rightarrow> error_code \<Rightarrow> error_code \<Rightarrow> 'w \<Rightarrow> 'r query_pc \<times> 'w \<times> bool" where
  "flush_resume E read_first ec1 ec2 w =
     (if read_first then
        if failed ec2 then (QDone ec2 None, w, False)
        else
          (case PQconsumeInput E w of (ret, w) \<Rightarrow>
             if ret = 0 then (QDone (err pq_consume_input_failed) None, w, False)
             else (QFlushWait, w, False))
      else
        if failed ec1 then (QDone ec1 None, w, False)
        else
          (case PQflush E w of (ret, w) \<Rightarrow>
             if ret = -1 then (QDone (err pq_flush_failed) None, w, False)
             else if ret = 0 then generic_received E First (receive_check E True First w)
             else (QFlushWait, w, False)))"

definition read_resume ::
  "('w, 'r) env \<Rightarrow> error_code \<Rightarrow> 'r stage \<Rightarrow> 'w \<Rightarrow> 'r query_pc \<times> 'w \<times> bool" where
  "read_resume E ec st w =
     (if failed ec then (QDone ec None, w, False)
      else
        (case PQconsumeInput E w of (ret, w) \<Rightarrow>
           if ret = 0 then (QDone (err pq_consume_input_failed) None, w, False)
           else generic_received E st (receive_check E False st w)))"

definition posted_resume :: "('w, 'r) env \<Rightarrow> 'r stage \<Rightarrow> 'w \<Rightarrow> 'r query_pc \<times> 'w \<times> bool" where
  "posted_resume E st w =
     generic_received E st (case PQgetResult E w of (res, w) \<Rightarrow> (Some res, QIdle, w))"

fun query_resume :: "('w, 'r) env \<Rightarrow> 'r query_pc \<Rightarrow> 'w \<Rightarrow> ('r query_pc \<times> 'w \<times> bool) option" where
  "query_resume E (QFlushRun r e1 e2) w = Some (flush_resume E r e1 e2 w)"
| "query_resume E (QReadRun ec st) w = Some (read_resume E ec st w)"
| "query_resume E (QPosted st) w = Some (posted_resume E st w)"
| "query_resume E _ w = None"

text \<open>The same for \<open>async_receive_notifcation\<close>.\<close>

datatype notify_pc =
    NIdle
  | NWait
  | NRun error_code bool
  | NPosted notification
  | NDone error_code notification

definition notify_check :: "('w, 'r) env \<Rightarrow> 'w \<Rightarrow> notify_pc \<times> 'w" where
  "notify_check E w =
     (case PQnotifies E w of (stored_notification, w) \<Rightarrow>
        if notification_bool stored_notification then (NPosted stored_notification, w) else (NWait, w))"

fun notify_resume :: "('w, 'r) env \<Rightarrow> notify_pc \<Rightarrow> 'w \<Rightarrow> (notify_pc \<times> 'w) option" where
  "notify_resume E (NRun ec cancelled) w =
     Some (if failed ec \<and> \<not> (ec = operation_aborted E \<and> \<not> cancelled) then (NDone ec None, w)
           else
             (case PQconsumeInput E w of (ret, w) \<Rightarrow>
                if ret = 0 then (NDone (err pq_consume_input_failed) None, w) else notify_check E w))"
| "notify_resume E (NPosted n) w = Some (NDone no_error n, w)"
| "notify_resume E _ w = None"

subsection \<open>The handlers make up the operation\<close>

text \<open>
  An operation alone: the waits of the environment complete one after the other until it is done.
\<close>

definition query_wait :: "('w, 'r) env \<Rightarrow> int \<Rightarrow> 'r query_pc \<Rightarrow> 'w \<Rightarrow> 'r query_pc \<times> 'w" where
  "query_wait E fd pc w =
     (case pc of
        QFlushWait \<Rightarrow> (case wait_either E fd w of ((r, e1, e2), w) \<Rightarrow> (QFlushRun r e1 e2, w))
      | QReadWait st \<Rightarrow> (case wait_read E fd w of (ec, w) \<Rightarrow> (QReadRun ec st, w))
      | QPosted st \<Rightarrow> (QPosted st, post E w)
      | _ \<Rightarrow> (pc, w))"

partial_function (option) run_query ::
  "('w, 'r) env \<Rightarrow> int \<Rightarrow> 'r query_pc \<Rightarrow> 'w \<Rightarrow> ((error_code \<times> 'r result) \<times> 'w) option" where
  "run_query E fd pc w =
     (case query_resume E pc w of
        None \<Rightarrow> (case pc of QDone ec res \<Rightarrow> Some ((ec, res), w) | _ \<Rightarrow> None)
      | Some (pc, w, emit) \<Rightarrow>
          (case query_wait E fd pc (if emit then emit_terminal E w else w) of (pc, w) \<Rightarrow> run_query E fd pc w))"

definition resume_at :: "('w, 'r) env \<Rightarrow> int \<Rightarrow> 'r query_pc \<times> 'w \<times> bool \<Rightarrow> ((error_code \<times> 'r result) \<times> 'w) option" where
  "resume_at E fd x =
     (case x of (pc, w, emit) \<Rightarrow>
        (case query_wait E fd pc (if emit then emit_terminal E w else w) of (pc, w) \<Rightarrow> run_query E fd pc w))"

lemma run_query_simps:
  "run_query E fd (QFlushRun r e1 e2) w = resume_at E fd (flush_resume E r e1 e2 w)"
  "run_query E fd (QReadRun ec st) w = resume_at E fd (read_resume E ec st w)"
  "run_query E fd (QPosted st) w = resume_at E fd (posted_resume E st w)"
  "run_query E fd (QDone ec res) w = Some ((ec, res), w)"
  by (subst run_query.simps, simp add: resume_at_def)+

lemma resume_at_simps [simp]:
  "resume_at E fd (QDone ec res, w, emit) = Some ((ec, res), if emit then emit_terminal E w else w)"
  "resume_at E fd (QFlushWait, w, False) =
     (case wait_either E fd w of ((r, e1, e2), w) \<Rightarrow> run_query E fd (QFlushRun r e1 e2) w)"
  "resume_at E fd (QReadWait st, w, False) =
     (case wait_read E fd w of (ec, w) \<Rightarrow> run_query E fd (QReadRun ec st) w)"
  "resume_at E fd (QPosted st, w, False) = run_query E fd (QPosted st) (post E w)"
  by (auto simp: resume_at_def query_wait_def run_query_simps(4) split: prod.split)

text \<open>What \<open>async_generic_single_result_query\<close> does once a result was received at a stage.\<close>

definition stage_rest ::
  "('w, 'r) env \<Rightarrow> 'r stage \<Rightarrow> (error_code \<times> 'r result) \<times> 'w conn \<Rightarrow> (error_code \<times> 'r result, 'w) io" where
  "stage_rest E st x =
     (case x of ((ec, res), s) \<Rightarrow>
        if failed ec then Some ((ec, None), s)
        else
          (case st of
             First \<Rightarrow> do {
               ((ec, result), s) \<leftarrow> async_receive_result E s;
               if failed ec then Some ((ec, None), s)
               else if result \<noteq> None then Some ((err unexpected_non_null_result, None), s)
               else Some ((result_status_to_error_code E res, res), s\<lparr>pgconn := emit_terminal E (pgconn s)\<rparr>) }
           | Second stored_result \<Rightarrow>
               if res \<noteq> None then Some ((err unexpected_non_null_result, None), s)
               else Some ((result_status_to_error_code E stored_result, stored_result),
                          s\<lparr>pgconn := emit_terminal E (pgconn s)\<rparr>)))"

definition receive_at :: "('w, 'r) env \<Rightarrow> bool \<Rightarrow> 'r stage \<Rightarrow> 'w conn \<Rightarrow> (error_code \<times> 'r result, 'w) io" where
  "receive_at E n st s = receive_loop E n s \<bind> stage_rest E st"

lemma stage_rest_fun:
  "stage_rest E First = (\<lambda>((ec, res), s).
     if failed ec then Some ((ec, None), s)
     else do {
       ((ec, result), s) \<leftarrow> async_receive_result E s;
       if failed ec then Some ((ec, None), s)
       else if result \<noteq> None then Some ((err unexpected_non_null_result, None), s)
       else Some ((result_status_to_error_code E res, res), s\<lparr>pgconn := emit_terminal E (pgconn s)\<rparr>) })"
  "stage_rest E (Second stored) = (\<lambda>((ec, result), s).
     if failed ec then Some ((ec, None), s)
     else if result \<noteq> None then Some ((err unexpected_non_null_result, None), s)
     else Some ((result_status_to_error_code E stored, stored), s\<lparr>pgconn := emit_terminal E (pgconn s)\<rparr>))"
  by (rule ext, simp add: stage_rest_def split: prod.split)+

lemma stage_rest_First:
  "stage_rest E First ((ec, res), s) = (if failed ec then Some ((ec, None), s) else receive_at E True (Second res) s)"
  by (simp add: stage_rest_fun receive_at_def async_receive_result_def)

lemma stage_rest_failed: "failed ec \<Longrightarrow> stage_rest E st ((ec, res), s) = Some ((ec, None), s)"
  by (simp add: stage_rest_def)

lemma generic_as_stages:
  "async_generic_single_result_query E s = do {
     (ec, s) \<leftarrow> async_flush E s;
     if failed ec then Some ((ec, None), s) else receive_at E True First s }"
  unfolding async_generic_single_result_query_def receive_at_def stage_rest_fun async_receive_result_def ..

lemma generic_received_First:
  "generic_received E First (Some res, pc, w) = generic_received E (Second res) (receive_check E True (Second res) w)"
  by (auto simp: generic_received_def receive_check_def split: prod.split)


text \<open>The operation from each of its suspension points on, as the big functions have it.\<close>

definition big :: "('w, 'r) env \<Rightarrow> 'w conn \<Rightarrow> 'r query_pc \<Rightarrow> 'w \<Rightarrow> (error_code \<times> 'r result, 'w) io" where
  "big E s pc w =
     (case pc of
        QFlushRun r e1 e2 \<Rightarrow> do {
          (ec, t) \<leftarrow> flush_handler E r e1 e2 (s\<lparr>pgconn := w\<rparr>);
          if failed ec then Some ((ec, None), t) else receive_at E True First t }
      | QReadRun ec st \<Rightarrow>
          if failed ec then Some ((ec, None), s\<lparr>pgconn := w\<rparr>)
          else
            (case PQconsumeInput E w of (ret, w) \<Rightarrow>
               if ret = 0 then Some ((err pq_consume_input_failed, None), s\<lparr>pgconn := w\<rparr>)
               else receive_at E False st (s\<lparr>pgconn := w\<rparr>))
      | QPosted st \<Rightarrow> (case PQgetResult E w of (res, w) \<Rightarrow> stage_rest E st ((no_error, res), s\<lparr>pgconn := w\<rparr>))
      | QDone ec res \<Rightarrow> Some ((ec, res), s\<lparr>pgconn := w\<rparr>)
      | _ \<Rightarrow> None)"

definition big_at :: "('w, 'r) env \<Rightarrow> 'w conn \<Rightarrow> 'r query_pc \<times> 'w \<times> bool \<Rightarrow> (error_code \<times> 'r result, 'w) io" where
  "big_at E s x =
     (case x of (pc, w, emit) \<Rightarrow>
        (case query_wait E (socket s) pc (if emit then emit_terminal E w else w) of (pc, w) \<Rightarrow> big E s pc w))"

lemma receive_at_step:
  "receive_at E n st (s\<lparr>pgconn := w\<rparr>) = big_at E s (generic_received E st (receive_check E n st w))"
proof -
  obtain busy w1 where b: "PQisBusy E w = (busy, w1)" by fastforce
  obtain ec w2 where r: "wait_read E (socket s) w1 = (ec, w2)" by fastforce
  obtain res w3 where g: "PQgetResult E w1 = (res, w3)" by fastforce
  obtain res' w4 where g': "PQgetResult E (post E w1) = (res', w4)" by fastforce
  have unposted: "receive_at E True st' (s\<lparr>pgconn := w\<rparr>) = big_at E s (generic_received E st' (receive_check E True st' w))"
    for st' w
  proof -
    obtain busy w1 where b: "PQisBusy E w = (busy, w1)" by fastforce
    show ?thesis
      unfolding receive_at_def
      by (subst receive_loop.simps)
        (auto simp: b big_at_def big_def query_wait_def receive_check_def generic_received_def receive_at_def
          stage_rest_fun(1) stage_rest_def split: prod.split stage.split)
  qed
  show ?thesis
  proof (cases "busy = 0 \<and> \<not> n")
    case True
    then have "receive_at E n st (s\<lparr>pgconn := w\<rparr>) = stage_rest E st ((no_error, res), s\<lparr>pgconn := w3\<rparr>)"
      using b g unfolding receive_at_def by (subst receive_loop.simps) simp
    moreover have "receive_check E n st w = (Some res, QIdle, w3)" using True b g by (simp add: receive_check_def)
    ultimately show ?thesis
      by (cases st)
        (simp_all add: stage_rest_First unposted generic_received_First,
          simp add: generic_received_def stage_rest_def big_at_def big_def query_wait_def)
  next
    case False
    obtain ret w5 where c: "PQconsumeInput E w2 = (ret, w5)" by fastforce
    from False show ?thesis using b r g' c
      unfolding receive_at_def
      by (subst receive_loop.simps)
        (auto simp: stage_rest_failed receive_at_def receive_check_def generic_received_def big_at_def big_def query_wait_def)
  qed
qed

lemma big_step:
  "big E s pc w =
     (case query_resume E pc w of
        None \<Rightarrow> (case pc of QDone ec res \<Rightarrow> Some ((ec, res), s\<lparr>pgconn := w\<rparr>) | _ \<Rightarrow> None)
      | Some x \<Rightarrow> big_at E s x)"
proof (cases pc)
  case (QFlushRun r e1 e2)
  then show ?thesis
    by (simp add: big_def)
      (subst flush_handler.simps,
        auto simp: flush_resume_def receive_at_step big_at_def big_def query_wait_def split: prod.split)
next
  case (QReadRun ec st)
  then show ?thesis
    by (auto simp: read_resume_def receive_at_step big_at_def big_def query_wait_def split: prod.split)
next
  case (QPosted st)
  obtain res w' where g: "PQgetResult E w = (res, w')" by fastforce
  with QPosted show ?thesis
    by (cases st)
      (simp_all add: big_def posted_resume_def stage_rest_First receive_at_step generic_received_First,
        simp add: generic_received_def stage_rest_def big_at_def big_def query_wait_def)
qed (simp_all add: big_def)

definition on_conn :: "'w conn \<Rightarrow> ('a \<times> 'w) option \<Rightarrow> ('a, 'w) io" where
  "on_conn s r = map_option (\<lambda>(x, w). (x, s\<lparr>pgconn := w\<rparr>)) r"

lemma run_query_big: "run_query E (socket s) pc w = Some y \<Longrightarrow> big E s pc w = Some (fst y, s\<lparr>pgconn := snd y\<rparr>)"
proof -
  let ?P = "\<lambda>E fd pc w y. fd = socket s \<longrightarrow> big E s pc w = Some (fst y, s\<lparr>pgconn := snd y\<rparr>)"
  assume run: "run_query E (socket s) pc w = Some y"
  have "?P E (socket s) pc w y"
  proof (rule run_query.raw_induct [where P = ?P, OF _ run], intro impI, goal_cases)
    case (1 f E fd pc w y)
    show ?case
    proof (cases "query_resume E pc w")
      case None
      with 1 show ?thesis by (subst big_step) (auto split: query_pc.splits)
    next
      case (Some x)
      obtain pc1 w1 emit where x: "x = (pc1, w1, emit)" by (metis surj_pair)
      obtain pc2 w2 where q: "query_wait E (socket s) pc1 (if emit then emit_terminal E w1 else w1) = (pc2, w2)"
        by fastforce
      from 1(2,3) Some x q have "f E fd pc2 w2 = Some y" by simp
      from 1(1) [OF this] 1(3) have "big E s pc2 w2 = Some (fst y, s\<lparr>pgconn := snd y\<rparr>)" by simp
      with Some x q show ?thesis by (subst big_step) (simp add: big_at_def)
    qed
  qed
  then show ?thesis by simp
qed

lemma receive_loop_run:
  assumes "receive_loop E n s = Some y"
  shows "resume_at E (socket s) (generic_received E st (receive_check E n st (pgconn s))) =
    (case y of ((ec, res), t) \<Rightarrow>
       if failed ec then Some ((ec, None), pgconn t)
       else resume_at E (socket s) (generic_received E st (Some res, QIdle, pgconn t)))"
proof (rule receive_loop.raw_induct [where P = "\<lambda>E n s y.
    resume_at E (socket s) (generic_received E st (receive_check E n st (pgconn s))) =
    (case y of ((ec, res), t) \<Rightarrow>
       if failed ec then Some ((ec, None), pgconn t)
       else resume_at E (socket s) (generic_received E st (Some res, QIdle, pgconn t)))", OF _ assms], goal_cases)
  case (1 f E n s y)
  obtain busy w1 where b: "PQisBusy E (pgconn s) = (busy, w1)" by fastforce
  obtain ec w2 where r: "wait_read E (socket s) w1 = (ec, w2)" by fastforce
  obtain ret w3 where c: "PQconsumeInput E w2 = (ret, w3)" by fastforce
  obtain res w4 where g: "PQgetResult E (if n then post E w1 else w1) = (res, w4)" by fastforce
  show ?case
  proof (cases "busy = 0")
    case True
    with 1(2) b g show ?thesis
      by (auto simp: receive_check_def generic_received_def [of E _ "(None, _)"] run_query_simps posted_resume_def
          split: if_splits)
  next
    case False
    then have "receive_check E n st (pgconn s) = (None, QReadWait st, w1)" using b by (simp add: receive_check_def)
    then have "resume_at E (socket s) (generic_received E st (receive_check E n st (pgconn s))) =
        resume_at E (socket s) (read_resume E ec st w2)"
      using r by (simp add: generic_received_def run_query_simps)
    moreover obtain ec' res' t where "y = ((ec', res'), t)" by (metis surj_pair)
    ultimately show ?thesis using 1(1) [of E False "s\<lparr>pgconn := w3\<rparr>" y] 1(2) False b r c
      by (auto simp: read_resume_def split: if_splits)
  qed
qed

lemma receive_at_run:
  assumes "receive_at E n st s = Some (x, t)"
  shows "resume_at E (socket s) (generic_received E st (receive_check E n st (pgconn s))) = Some (x, pgconn t)"
proof -
  have second: "resume_at E (socket s) (generic_received E (Second stored) (receive_check E n (Second stored) (pgconn s))) =
      Some (x, pgconn t)"
    if "receive_at E n (Second stored) s = Some (x, t)" for n stored s
  proof -
    from that obtain ec res s1 where r: "receive_loop E n s = Some ((ec, res), s1)"
      and st: "stage_rest E (Second stored) ((ec, res), s1) = Some (x, t)"
      by (auto simp: receive_at_def bind_eq_Some_conv)
    from receive_loop_run [OF r, of "Second stored"] st show ?thesis
      by (auto simp: stage_rest_def generic_received_def split: if_splits)
  qed
  show ?thesis
  proof (cases st)
    case First
    from assms obtain ec res s1 where r: "receive_loop E n s = Some ((ec, res), s1)"
      and st: "stage_rest E First ((ec, res), s1) = Some (x, t)"
      by (auto simp: receive_at_def First bind_eq_Some_conv)
    have "socket s1 = socket s" using receive_loop_keeps [OF r] only_pgconn_fields(3) by fastforce
    with receive_loop_run [OF r, of First] st second [of True res s1] show ?thesis
      by (auto simp: stage_rest_First generic_received_First First split: if_splits)
  next
    case (Second stored)
    with assms second show ?thesis by simp
  qed
qed

lemma flush_handler_run:
  assumes "flush_handler E r e1 e2 s = Some y"
  shows "run_query E (socket s) (QFlushRun r e1 e2) (pgconn s) =
    (case y of (ec, t) \<Rightarrow>
       if failed ec then Some ((ec, None), pgconn t)
       else resume_at E (socket s) (generic_received E First (receive_check E True First (pgconn t))))"
proof (rule flush_handler.raw_induct [where P = "\<lambda>E r e1 e2 s y.
    run_query E (socket s) (QFlushRun r e1 e2) (pgconn s) =
    (case y of (ec, t) \<Rightarrow>
       if failed ec then Some ((ec, None), pgconn t)
       else resume_at E (socket s) (generic_received E First (receive_check E True First (pgconn t))))", OF _ assms],
    goal_cases)
  case (1 f E r e1 e2 s y)
  have again: "resume_at E (socket s) (QFlushWait, w, False) = (case y of (ec, t) \<Rightarrow>
       if failed ec then Some ((ec, None), pgconn t)
       else resume_at E (socket s) (generic_received E First (receive_check E True First (pgconn t))))"
    if "wait_either E (socket s) w = ((r, f1, f2), w')" "f E r f1 f2 (s\<lparr>pgconn := w'\<rparr>) = Some y" for w r f1 f2 w'
    using 1(1) [OF that(2)] that(1) by (cases y) simp
  show ?case
    using 1(2) again unfolding run_query_simps flush_resume_def
    by (auto split: if_splits prod.splits simp del: resume_at_simps(2))
qed

text \<open>
  The handlers, run one after the other from suspension point to suspension point, make up
  \<open>async_generic_single_result_query\<close>: they complete exactly when it does, with the same result, the
  same calls of libpq and the same waits.
\<close>

lemma handlers_make_operation:
  "on_conn s (run_query E (socket s) (QFlushRun False no_error no_error) (pgconn s)) =
   async_generic_single_result_query E s"
proof (cases "async_generic_single_result_query E s")
  case None
  have "run_query E (socket s) (QFlushRun False no_error no_error) (pgconn s) = None"
  proof (rule ccontr)
    assume "run_query E (socket s) (QFlushRun False no_error no_error) (pgconn s) \<noteq> None"
    then obtain y where "run_query E (socket s) (QFlushRun False no_error no_error) (pgconn s) = Some y" by blast
    from run_query_big [OF this] None show False
      by (simp add: big_def generic_as_stages async_flush_def)
  qed
  with None show ?thesis by (simp add: on_conn_def)
next
  case (Some y)
  from Some obtain ec t where f: "flush_handler E False no_error no_error s = Some (ec, t)"
    and g: "(if failed ec then Some ((ec, None), t) else receive_at E True First t) = Some y"
    by (auto simp: generic_as_stages async_flush_def bind_eq_Some_conv)
  have t: "only_pgconn s t" using flush_handler_keeps [OF f] by simp
  then have y: "only_pgconn s (snd y)" using generic_keeps [OF Some] by simp
  have "run_query E (socket s) (QFlushRun False no_error no_error) (pgconn s) = Some (fst y, pgconn (snd y))"
    using flush_handler_run [OF f] g receive_at_run [of E True First t "fst y" "snd y"] only_pgconn_fields(3) [OF t]
    by (auto split: if_splits)
  with Some y show ?thesis by (cases y) (simp add: on_conn_def only_pgconn_def)
qed

end
