(* ===== verification/Interleaving.thy ===== *)
theory Interleaving
  imports SharedConnection
begin

text \<open>
  An operation with one result and a wait for a notification on the same connection, with their handlers
  interleaved in any order: what each of them may take from the input that the other one waits for.
\<close>

subsection \<open>Two operations on one connection\<close>

text \<open>
  What surrounds the connection: whether its socket can be read, what the server and the network may do,
  and the commands that libpq accepts.
\<close>

record 'w surroundings =
  readable :: "'w \<Rightarrow> bool"
  serves :: "'w \<Rightarrow> 'w \<Rightarrow> bool"
  accepts :: "'w \<Rightarrow> 'w \<Rightarrow> bool"

text \<open>\<open>emitted\<close> records whether the last handler of the operation emitted the signal of notifications.\<close>

record ('w, 'r) shared =
  lib :: 'w
  qpc :: "'r query_pc"
  npc :: notify_pc
  emitted :: bool

definition in_progress :: "'r query_pc \<Rightarrow> bool" where
  "in_progress pc = (case pc of QIdle \<Rightarrow> False | QDone ec res \<Rightarrow> False | _ \<Rightarrow> True)"

definition idle_notification :: "notify_pc \<Rightarrow> bool" where
  "idle_notification pc = (case pc of NIdle \<Rightarrow> True | NDone ec n \<Rightarrow> True | _ \<Rightarrow> False)"

text \<open>The signal completes a wait that is bound to it with \<open>operation_aborted\<close>.\<close>

definition emit_signal :: "('w, 'r) env \<Rightarrow> notify_pc \<Rightarrow> notify_pc" where
  "emit_signal E pc = (case pc of NWait \<Rightarrow> NRun (operation_aborted E) False | _ \<Rightarrow> pc)"

definition query_ran ::
  "('w, 'r) env \<Rightarrow> 'r query_pc \<times> 'w \<times> bool \<Rightarrow> ('w, 'r) shared \<Rightarrow> ('w, 'r) shared" where
  "query_ran E x s =
     (case x of (pc, w, emit) \<Rightarrow>
        s\<lparr>lib := w, qpc := pc, npc := (if emit then emit_signal E (npc s) else npc s), emitted := emit\<rparr>)"

text \<open>Input completes all waits for it; the wait for output of the parallel group is then cancelled.\<close>

definition query_readable :: "('w, 'r) env \<Rightarrow> 'r query_pc \<Rightarrow> 'r query_pc" where
  "query_readable E pc =
     (case pc of
        QReadWait st \<Rightarrow> QReadRun no_error st
      | QFlushWait \<Rightarrow> QFlushRun True (operation_aborted E) no_error
      | _ \<Rightarrow> pc)"

definition notify_readable :: "notify_pc \<Rightarrow> notify_pc" where
  "notify_readable pc = (case pc of NWait \<Rightarrow> NRun no_error False | _ \<Rightarrow> pc)"

inductive shared_step ::
  "('w, 'r) env \<Rightarrow> 'w surroundings \<Rightarrow> ('w, 'r) shared \<Rightarrow> ('w, 'r) shared \<Rightarrow> bool"
  for E :: "('w, 'r) env" and R :: "'w surroundings" where
  server: "serves R (lib s) w \<Longrightarrow> shared_step E R s (s\<lparr>lib := w\<rparr>)"
| start_query: "\<not> in_progress (qpc s) \<Longrightarrow> accepts R (lib s) w \<Longrightarrow>
    shared_step E R s (query_ran E (flush_resume E False no_error no_error w) s)"
| start_notification: "idle_notification (npc s) \<Longrightarrow> notify_check E (lib s) = (pc, w) \<Longrightarrow>
    shared_step E R s (s\<lparr>lib := w, npc := pc\<rparr>)"
| can_read: "readable R (lib s) \<Longrightarrow>
    shared_step E R s (s\<lparr>qpc := query_readable E (qpc s), npc := notify_readable (npc s)\<rparr>)"
| can_write: "qpc s = QFlushWait \<Longrightarrow>
    shared_step E R s (s\<lparr>qpc := QFlushRun False no_error (operation_aborted E)\<rparr>)"
| flush_wait_fails: "qpc s = QFlushWait \<Longrightarrow> failed ec \<Longrightarrow> shared_step E R s (s\<lparr>qpc := QFlushRun r ec ec\<rparr>)"
| read_wait_fails: "qpc s = QReadWait st \<Longrightarrow> failed ec \<Longrightarrow> shared_step E R s (s\<lparr>qpc := QReadRun ec st\<rparr>)"
| notification_wait_fails: "npc s = NWait \<Longrightarrow> failed ec \<Longrightarrow> shared_step E R s (s\<lparr>npc := NRun ec cancelled\<rparr>)"
| run_query: "query_resume E (qpc s) (lib s) = Some x \<Longrightarrow> shared_step E R s (query_ran E x s)"
| run_notification: "notify_resume E (npc s) (lib s) = Some (pc, w) \<Longrightarrow>
    shared_step E R s (s\<lparr>lib := w, npc := pc\<rparr>)"

definition shared_init :: "('w, 'r) shared \<Rightarrow> bool" where
  "shared_init s \<longleftrightarrow> qpc s = QIdle \<and> npc s = NIdle"

subsection \<open>What libpq promises\<close>

text \<open>
  \<open>held_notes w\<close> are the notifications that libpq has read, which \<open>PQnotifies\<close> hands out one by one; asking
  whether libpq is busy again gives the same answer; what arrives at the socket changes neither.
\<close>

definition input_laws :: "('w, 'r) env \<Rightarrow> 'w surroundings \<Rightarrow> ('w \<Rightarrow> notify list) \<Rightarrow> bool" where
  "input_laws E R held_notes \<longleftrightarrow>
     (\<forall>w. case PQnotifies E w of
        (None, w') \<Rightarrow> held_notes w = [] \<and> held_notes w' = []
      | (Some n, w') \<Rightarrow> held_notes w = n # held_notes w') \<and>
     (\<forall>w. fst (PQisBusy E (snd (PQisBusy E w))) = fst (PQisBusy E w)) \<and>
     (\<forall>w w'. serves R w w' \<longrightarrow> held_notes w' = held_notes w \<and> fst (PQisBusy E w') = fst (PQisBusy E w))"

subsection \<open>The invariant\<close>

text \<open>
  Beside the emission of the signal: an operation that ended without it failed; a waiting operation
  waits for a result that libpq does not have, as long as no notification was ever waited for.
\<close>

definition shared_inv :: "('w, 'r) env \<Rightarrow> ('w \<Rightarrow> notify list) \<Rightarrow> ('w, 'r) shared \<Rightarrow> bool" where
  "shared_inv E held_notes s \<longleftrightarrow>
     (npc s = NWait \<and> held_notes (lib s) \<noteq> [] \<longrightarrow> in_progress (qpc s) \<or> (\<exists>ec. qpc s = QDone ec None \<and> failed ec)) \<and>
     (\<forall>st. npc s = NIdle \<and> qpc s = QReadWait st \<longrightarrow> fst (PQisBusy E (lib s)) \<noteq> 0)"

lemma receive_check_waits:
  assumes "input_laws E R held_notes" and "receive_check E n st w = (x, QReadWait st', w')"
  shows "fst (PQisBusy E w') \<noteq> 0"
proof -
  have "fst (PQisBusy E (snd (PQisBusy E w))) = fst (PQisBusy E w)"
    using assms(1) by (simp add: input_laws_def)
  with assms(2) show ?thesis by (auto simp: receive_check_def split: if_splits prod.splits)
qed

lemma receive_check_pc: "receive_check E n st w = (None, pc, w') \<Longrightarrow> in_progress pc"
  by (auto simp: receive_check_def in_progress_def split: if_splits prod.splits)

lemma receive_check_True: "fst (receive_check E True st w) = None"
  by (simp add: receive_check_def split: prod.split)

text \<open>A handler of the operation ends it with the signal, or with a failure, or waits for what is missing.\<close>

definition handler_ok :: "('w, 'r) env \<Rightarrow> 'r query_pc \<times> 'w \<times> bool \<Rightarrow> bool" where
  "handler_ok E x \<longleftrightarrow>
     (case x of (pc, w, emit) \<Rightarrow>
        (emit \<or> in_progress pc \<or> (\<exists>ec. pc = QDone ec None \<and> failed ec)) \<and>
        (\<forall>st. pc = QReadWait st \<longrightarrow> fst (PQisBusy E w) \<noteq> 0))"

lemma generic_received_ok:
  assumes laws: "input_laws E R held_notes"
    and x: "\<And>pc w. x = (None, pc, w) \<Longrightarrow> in_progress pc \<and> (\<forall>st. pc = QReadWait st \<longrightarrow> fst (PQisBusy E w) \<noteq> 0)"
  shows "handler_ok E (generic_received E st x)"
proof -
  obtain r pc w where p: "x = (r, pc, w)" by (metis surj_pair)
  show ?thesis
  proof (cases r)
    case None
    with x p show ?thesis by (simp add: handler_ok_def generic_received_def)
  next
    case (Some res)
    obtain pc1 w1 where c: "receive_check E True (Second res) w = (None, pc1, w1)"
      using receive_check_True by (metis prod.collapse)
    from receive_check_pc [OF c] receive_check_waits [OF laws, of True "Second res" w] c have
      "in_progress pc1 \<and> (\<forall>st. pc1 = QReadWait st \<longrightarrow> fst (PQisBusy E w1) \<noteq> 0)" by auto
    with Some p c show ?thesis
      by (cases st) (auto simp: handler_ok_def generic_received_def)
  qed
qed

lemma received_check_ok:
  assumes "input_laws E R held_notes"
  shows "handler_ok E (generic_received E st (receive_check E n st' w))"
proof (rule generic_received_ok [OF assms])
  fix pc w' assume c: "receive_check E n st' w = (None, pc, w')"
  with receive_check_pc [OF c] receive_check_waits [OF assms]
  show "in_progress pc \<and> (\<forall>st. pc = QReadWait st \<longrightarrow> fst (PQisBusy E w') \<noteq> 0)" by blast
qed

lemma query_handlers_ok:
  assumes laws: "input_laws E R held_notes"
  shows "handler_ok E (flush_resume E r e1 e2 w)" and "query_resume E pc w = Some x \<Longrightarrow> handler_ok E x"
proof -
  have fails: "handler_ok E (QDone ec None, w, False)" if "failed ec" for ec w
    using that by (simp add: handler_ok_def)
  have wait: "handler_ok E (QFlushWait, w, False)" for w by (simp add: handler_ok_def in_progress_def)
  show flush: "handler_ok E (flush_resume E r e1 e2 w)" for r e1 e2 w
    by (auto simp: flush_resume_def intro!: fails wait received_check_ok [OF laws] split: prod.split)
  have read: "handler_ok E (read_resume E ec st w)" for ec st
    by (auto simp: read_resume_def intro!: fails received_check_ok [OF laws] split: prod.split)
  have posted: "handler_ok E (posted_resume E st w)" for st
    by (auto simp: posted_resume_def intro!: generic_received_ok [OF laws] split: prod.split)
  show "query_resume E pc w = Some x \<Longrightarrow> handler_ok E x"
    using flush read posted by (cases pc) auto
qed

lemma query_ran_inv: "handler_ok E x \<Longrightarrow> shared_inv E held_notes (query_ran E x s)"
  by (auto simp: shared_inv_def query_ran_def handler_ok_def emit_signal_def split: notify_pc.splits)

lemma notify_check_waits:
  assumes "input_laws E R held_notes" and "notify_check E w = (NWait, w')"
  shows "held_notes w' = []"
  using assms by (auto simp: input_laws_def notify_check_def notification_bool_def
      split: prod.splits if_splits option.splits dest: spec [of _ w])

lemma notify_check_pc: "notify_check E w = (pc, w') \<Longrightarrow> pc \<noteq> NIdle"
  by (auto simp: notify_check_def split: prod.splits if_splits)

lemma notify_resume_waits:
  assumes "input_laws E R held_notes" and "notify_resume E x w = Some (pc, w')"
  shows "pc \<noteq> NIdle \<and> (pc = NWait \<longrightarrow> held_notes w' = [])"
proof -
  have "(\<exists>ec n. pc = NDone ec n) \<or> (\<exists>v. notify_check E v = (pc, w'))"
    using assms(2) by (cases x) (auto split: prod.splits if_splits)
  then show ?thesis
  proof
    assume "\<exists>v. notify_check E v = (pc, w')"
    then obtain v where v: "notify_check E v = (pc, w')" ..
    with notify_check_pc [OF v] notify_check_waits [OF assms(1)] show ?thesis by blast
  qed auto
qed

lemma shared_step_inv:
  assumes laws: "input_laws E R held_notes" and step: "shared_step E R s t" and inv: "shared_inv E held_notes s"
  shows "shared_inv E held_notes t"
  using step
proof cases
  case (server w)
  with laws inv show ?thesis by (auto simp: shared_inv_def input_laws_def)
next
  case (start_query w)
  with query_handlers_ok(1) [OF laws] show ?thesis by (auto intro: query_ran_inv)
next
  case (start_notification pc w)
  with notify_check_waits [OF laws, of "lib s" w] notify_check_pc [OF start_notification(3)] show ?thesis
    by (auto simp: shared_inv_def)
next
  case can_read
  with inv show ?thesis
    by (auto simp: shared_inv_def query_readable_def notify_readable_def in_progress_def
        split: notify_pc.splits query_pc.splits)
next
  case (run_query x)
  with query_ran_inv [OF query_handlers_ok(2) [OF laws run_query(2)]] show ?thesis by simp
next
  case (run_notification pc w)
  with notify_resume_waits [OF laws run_notification(2)] show ?thesis by (auto simp: shared_inv_def)
qed (use inv in \<open>auto simp: shared_inv_def in_progress_def\<close>)

interpretation shared: inductive_invariant shared_init "shared_step E R"
  "\<lambda>s. input_laws E R held_notes \<longrightarrow> shared_inv E held_notes s" for held_notes E R
proof unfold_locales
  show "input_laws E R held_notes \<longrightarrow> shared_inv E held_notes s" if "shared_init s" for s
    using that by (simp add: shared_init_def shared_inv_def)
  show "input_laws E R held_notes \<longrightarrow> shared_inv E held_notes t"
    if "input_laws E R held_notes \<longrightarrow> shared_inv E held_notes s" "shared_step E R s t" for s t
    using that shared_step_inv by blast
qed

subsection \<open>Properties\<close>

text \<open>
  C15: whatever the order in which the handlers of the two operations run, a notification that libpq holds
  is left waiting only while the operation with one result is under way, which ends the wait with the
  signal when it completes with its result, or after that operation failed, when nothing ends the wait:
  a failed operation emits no signal. And an operation with one result never waits for what libpq has
  already read, as long as no notification is waited for.
\<close>

theorem held_notification_waits_for_query:
  assumes "input_laws E R held_notes" and "reach shared_init (shared_step E R) s"
  shows "(npc s = NWait \<and> held_notes (lib s) \<noteq> [] \<longrightarrow>
      in_progress (qpc s) \<or> (\<exists>ec. qpc s = QDone ec None \<and> failed ec)) \<and>
    (npc s = NIdle \<and> qpc s = QReadWait st \<longrightarrow> fst (PQisBusy E (lib s)) \<noteq> 0)"
proof -
  have "shared_inv E held_notes s" using shared.reach_inv [OF assms(2)] assms(1) by blast
  then show ?thesis unfolding shared_inv_def by blast
qed

subsection \<open>A concrete channel\<close>

text \<open>A socket with what has arrived, and what libpq has read from it.\<close>

datatype packet = NotifyPacket notify | ResultPacket "reply option"

record channel =
  arrived :: "packet list"
  read_notes :: "notify list"
  read_results :: "reply option list"

fun read_packet :: "packet \<Rightarrow> channel \<Rightarrow> channel" where
  "read_packet (NotifyPacket n) w = w\<lparr>read_notes := read_notes w @ [n]\<rparr>"
| "read_packet (ResultPacket r) w = w\<lparr>read_results := read_results w @ [r]\<rparr>"

definition read_all :: "channel \<Rightarrow> channel" where
  "read_all w = (fold read_packet (arrived w) w)\<lparr>arrived := []\<rparr>"

text \<open>\<open>PQgetResult\<close> reads itself what it needs, when libpq is still busy.\<close>

definition channel_env :: "(channel, reply) env" where
  "channel_env =
     \<lparr>results = reply_api,
      PQconnectStart = (\<lambda>c w. w),
      PQstatus = (\<lambda>w. CONNECTION_OK),
      PQsetnonblocking = (\<lambda>i w. (0, w)),
      PQsetNoticeProcessor = (\<lambda>w. w),
      PQsocket = (\<lambda>w. 3),
      PQconnectPoll = (\<lambda>w. (PGRES_POLLING_OK, w)),
      PQenterPipelineMode = (\<lambda>w. (1, w)),
      PQexitPipelineMode = (\<lambda>w. (1, w)),
      PQpipelineSync = (\<lambda>w. (1, w)),
      PQsendQueryParams = (\<lambda>query ps w. (1, w)),
      PQsendPrepare = (\<lambda>stmt_name query w. (1, w)),
      PQsendQueryPrepared = (\<lambda>stmt_name ps w. (1, w)),
      PQsendDescribePrepared = (\<lambda>stmt_name w. (1, w)),
      PQsendDescribePortal = (\<lambda>portal_name w. (1, w)),
      PQflush = (\<lambda>w. (0, w)),
      PQconsumeInput = (\<lambda>w. (1, read_all w)),
      PQisBusy = (\<lambda>w. (if read_results w = [] then 1 else 0, w)),
      PQgetResult = (\<lambda>w. let w = (if read_results w = [] then read_all w else w) in
         (next_of None (read_results w), w\<lparr>read_results := tl (read_results w)\<rparr>)),
      PQnotifies = (\<lambda>w. case read_notes w of [] \<Rightarrow> (None, w) | n # ns \<Rightarrow> (Some n, w\<lparr>read_notes := ns\<rparr>)),
      socket_assign = (\<lambda>fd w. (no_error, w)),
      wait_read = (\<lambda>fd w. (no_error, w)),
      wait_write = (\<lambda>fd w. (no_error, w)),
      wait_either = (\<lambda>fd w. ((False, no_error, no_error), w)),
      wait_notification = (\<lambda>fd w. ((no_error, False), w)),
      operation_aborted = aborted,
      post = (\<lambda>w. w),
      emit_terminal = (\<lambda>w. w)\<rparr>"

definition channel_surroundings :: "channel surroundings" where
  "channel_surroundings =
     \<lparr>readable = (\<lambda>w. arrived w \<noteq> []),
      serves = (\<lambda>w w'. \<exists>p. w' = w\<lparr>arrived := arrived w @ [p]\<rparr>),
      accepts = (\<lambda>w w'. w' = w)\<rparr>"

lemma channel_laws: "input_laws channel_env channel_surroundings read_notes"
  by (auto simp: input_laws_def channel_env_def channel_surroundings_def split: list.splits)

abbreviation channel_reach :: "(channel, reply) shared \<Rightarrow> bool" where
  "channel_reach \<equiv> reach shared_init (shared_step channel_env channel_surroundings)"

definition fresh_channel :: "(channel, reply) shared" where
  "fresh_channel = \<lparr>lib = \<lparr>arrived = [], read_notes = [], read_results = []\<rparr>, qpc = QIdle, npc = NIdle, emitted = True\<rparr>"

definition wake :: notify where
  "wake = \<lparr>be_pid = 9, relname = ''jobs'', extra = ''1''\<rparr>"

text \<open>
  A notification has arrived; before the handler that waits for it runs, an operation is started, and
  its results arrive too.
\<close>

lemma reach_race:
  "channel_reach (fresh_channel\<lparr>lib := \<lparr>arrived = [NotifyPacket wake, ResultPacket (Some completed), ResultPacket None],
     read_notes = [], read_results = []\<rparr>, qpc := QReadWait First, npc := NRun no_error False, emitted := False\<rparr>)"
proof -
  have arrives: "channel_reach (s\<lparr>lib := lib s\<lparr>arrived := arrived (lib s) @ [p]\<rparr>\<rparr>)" if "channel_reach s" for s p
    using that by (rule reach_step) (rule shared_step.server, auto simp: channel_surroundings_def)
  have 0: "channel_reach fresh_channel"
    by (rule reach_init) (simp add: shared_init_def fresh_channel_def)
  have "notify_check channel_env (lib fresh_channel) = (NWait, lib fresh_channel)"
    by (simp add: notify_check_def channel_env_def fresh_channel_def notification_bool_def)
  from reach_step [OF 0 shared_step.start_notification [OF _ this]]
  have 1: "channel_reach (fresh_channel\<lparr>npc := NWait\<rparr>)"
    by (simp add: idle_notification_def fresh_channel_def)
  let ?s2 = "fresh_channel\<lparr>lib := lib fresh_channel\<lparr>arrived := [NotifyPacket wake]\<rparr>, npc := NWait\<rparr>"
  have 2: "channel_reach ?s2" using arrives [OF 1, of "NotifyPacket wake"] by (simp add: fresh_channel_def)
  have 3: "channel_reach (?s2\<lparr>npc := NRun no_error False\<rparr>)"
    using reach_step [OF 2 shared_step.can_read]
    by (simp add: channel_surroundings_def fresh_channel_def query_readable_def notify_readable_def)
  have "flush_resume channel_env False no_error no_error (lib ?s2) = (QReadWait First, lib ?s2, False)"
    by (simp add: flush_resume_def generic_received_def receive_check_def channel_env_def fresh_channel_def)
  then have 4: "channel_reach (?s2\<lparr>npc := NRun no_error False, qpc := QReadWait First, emitted := False\<rparr>)"
    using reach_step [OF 3 shared_step.start_query [of _ _ "lib ?s2"]]
    by (simp add: in_progress_def channel_surroundings_def query_ran_def fresh_channel_def)
  from arrives [OF arrives [OF 4, of "ResultPacket (Some completed)"], of "ResultPacket None"]
  show ?thesis by (simp add: fresh_channel_def)
qed

theorem held_notification_waits_for_query_witness:
  "fst (PQisBusy channel_env \<lparr>arrived = [], read_notes = [], read_results = []\<rparr>) \<noteq> 0"
proof -
  have 0: "channel_reach fresh_channel"
    by (rule reach_init) (simp add: shared_init_def fresh_channel_def)
  have "flush_resume channel_env False no_error no_error (lib fresh_channel) = (QReadWait First, lib fresh_channel, False)"
    by (simp add: flush_resume_def generic_received_def receive_check_def channel_env_def fresh_channel_def)
  then have "channel_reach (fresh_channel\<lparr>qpc := QReadWait First, emitted := False\<rparr>)"
    using reach_step [OF 0 shared_step.start_query [of _ _ "lib fresh_channel"]]
    by (simp add: in_progress_def channel_surroundings_def query_ran_def fresh_channel_def)
  from held_notification_waits_for_query [OF channel_laws this, of First] show ?thesis
    by (simp add: fresh_channel_def)
qed

text \<open>
  C17: the converse does not hold: the operation that receives notifications may read the results that
  the other operation waits for. Then that operation waits although libpq is not busy, nothing is left
  in the socket to end its wait, and no handler is about to run.
\<close>

theorem notification_takes_results:
  "\<exists>s. channel_reach s \<and> qpc s = QReadWait First \<and> fst (PQisBusy channel_env (lib s)) = 0 \<and>
     fst (PQgetResult channel_env (lib s)) = Some completed \<and> \<not> readable channel_surroundings (lib s) \<and>
     query_resume channel_env (qpc s) (lib s) = None \<and> notify_resume channel_env (npc s) (lib s) = None"
proof -
  let ?lib = "\<lparr>arrived = [], read_notes = [], read_results = [Some completed, None]\<rparr>"
  let ?s = "fresh_channel\<lparr>lib := ?lib, qpc := QReadWait First, npc := NPosted (Some wake), emitted := False\<rparr>"
  have "notify_resume channel_env (NRun no_error False) \<lparr>arrived = [NotifyPacket wake, ResultPacket (Some completed),
      ResultPacket None], read_notes = [], read_results = []\<rparr> = Some (NPosted (Some wake), ?lib)"
    by (simp add: channel_env_def notify_check_def notification_bool_def read_all_def)
  then have 1: "channel_reach ?s"
    using reach_step [OF reach_race shared_step.run_notification] by (simp add: fresh_channel_def)
  have "channel_reach (?s\<lparr>npc := NDone no_error (Some wake)\<rparr>)"
    using reach_step [OF 1 shared_step.run_notification [of channel_env ?s "NDone no_error (Some wake)" ?lib]]
    by (simp add: fresh_channel_def)
  then show ?thesis
    by (intro exI [of _ "?s\<lparr>npc := NDone no_error (Some wake)\<rparr>"])
      (simp add: channel_env_def channel_surroundings_def next_of_def)
qed

end
