(* ===== verification/InterleavedQuery.thy ===== *)
theory InterleavedQuery
  imports Interleaving
begin

text \<open>
  The results of an operation while notifications are received on the same connection: whatever the
  interleaving, the operation takes its own results.
\<close>

subsection \<open>What libpq promises about results\<close>

text \<open>
  \<open>q w\<close> are the results that the next calls of \<open>PQgetResult\<close> give, those that have not arrived included; no
  other function of libpq takes one, and the server adds none that was not asked for.
\<close>

definition result_laws :: "('w, 'r) env \<Rightarrow> 'w surroundings \<Rightarrow> ('w \<Rightarrow> 'r result list) \<Rightarrow> bool" where
  "result_laws E R q \<longleftrightarrow>
     preserves (\<lambda>_. True) q (snd \<circ> PQflush E) \<and> preserves (\<lambda>_. True) q (snd \<circ> PQconsumeInput E) \<and> preserves (\<lambda>_. True) q (snd \<circ> PQisBusy E) \<and>
     preserves (\<lambda>_. True) q (snd \<circ> PQnotifies E) \<and> (\<forall>w w'. serves R w w' \<longrightarrow> q w' = q w) \<and>
     (\<forall>w. q w \<noteq> [] \<longrightarrow> fst (PQgetResult E w) = hd (q w) \<and> q (snd (PQgetResult E w)) = tl (q w))"

lemma result_laws_preserve:
  assumes "result_laws E R q"
  shows "PQflush E w = (i, w') \<Longrightarrow> q w' = q w" and "PQconsumeInput E w = (i, w') \<Longrightarrow> q w' = q w"
    and "PQisBusy E w = (i, w') \<Longrightarrow> q w' = q w" and "PQnotifies E w = (n, w') \<Longrightarrow> q w' = q w"
    and "serves R w w' \<Longrightarrow> q w' = q w"
    and "PQgetResult E w = (res, w') \<Longrightarrow> q w = r # rs \<Longrightarrow> res = r \<and> q w' = rs"
  using assms unfolding result_laws_def preserves_def by (metis comp_apply snd_conv fst_conv list.distinct(1) list.sel)+

subsection \<open>The invariant\<close>

text \<open>What is still to be received at a stage of an operation whose result is \<open>r\<close>.\<close>

definition owed :: "'r result \<Rightarrow> 'r stage \<Rightarrow> 'r result list" where
  "owed r st = (case st of First \<Rightarrow> [r, None] | Second _ \<Rightarrow> [None])"

definition stage_ok :: "'r result \<Rightarrow> 'r stage \<Rightarrow> bool" where
  "stage_ok r st \<longleftrightarrow> (case st of First \<Rightarrow> True | Second stored \<Rightarrow> stored = r)"

definition expects ::
  "('w, 'r) env \<Rightarrow> ('w \<Rightarrow> 'r result list) \<Rightarrow> 'r result \<Rightarrow> 'r query_pc \<times> 'w \<times> bool \<Rightarrow> bool" where
  "expects E q r x \<longleftrightarrow>
     (case x of (pc, w, emit) \<Rightarrow>
        (case pc of
           QIdle \<Rightarrow> False
         | QFlushWait \<Rightarrow> q w = [r, None]
         | QFlushRun _ _ _ \<Rightarrow> q w = [r, None]
         | QReadWait st \<Rightarrow> stage_ok r st \<and> q w = owed r st
         | QReadRun _ st \<Rightarrow> stage_ok r st \<and> q w = owed r st
         | QPosted st \<Rightarrow> stage_ok r st \<and> q w = owed r st
         | QDone ec res \<Rightarrow>
             if emit then res = r \<and> ec = result_status_to_error_code E r \<and> q w = []
             else res = None \<and> failed ec))"

text \<open>A received result is the next one that is owed, or the handler goes on waiting for it.\<close>

definition received_ok ::
  "('w \<Rightarrow> 'r result list) \<Rightarrow> 'r result \<Rightarrow> 'r stage \<Rightarrow> 'r result option \<times> 'r query_pc \<times> 'w \<Rightarrow> bool" where
  "received_ok q r st x \<longleftrightarrow>
     (case x of
        (None, pc, w) \<Rightarrow> (pc = QReadWait st \<or> pc = QPosted st) \<and> q w = owed r st
      | (Some res, pc, w) \<Rightarrow> res = hd (owed r st) \<and> q w = tl (owed r st))"

lemma result_taken:
  assumes "result_laws E R q" and "PQgetResult E w = (res, w')" and "q w = owed r st"
  shows "received_ok q r st (Some res, pc, w')"
  using assms(3) result_laws_preserve(6) [OF assms(1,2)]
  by (cases st) (auto simp: received_ok_def owed_def)

lemma receive_check_received:
  assumes "result_laws E R q" and "q w = owed r st"
  shows "received_ok q r st (receive_check E n st w)"
proof -
  obtain busy w1 where b: "PQisBusy E w = (busy, w1)" by fastforce
  obtain res w2 where g: "PQgetResult E w1 = (res, w2)" by fastforce
  have q1: "q w1 = owed r st" using result_laws_preserve(3) [OF assms(1) b] assms(2) by simp
  with result_taken [OF assms(1) g q1] b g show ?thesis
    by (simp add: receive_check_def received_ok_def)
qed

lemma generic_received_expects:
  assumes laws: "result_laws E R q" and st: "stage_ok r st" and x: "received_ok q r st x"
  shows "expects E q r (generic_received E st x)"
proof (cases st)
  case First
  obtain res pc w where p: "x = (res, pc, w)" by (metis surj_pair)
  obtain y pc' w' where c: "receive_check E True (Second r) w = (y, pc', w')" by (metis surj_pair)
  with receive_check_True have "y = None" by (metis fst_conv)
  then have "q w = [None] \<Longrightarrow> (pc' = QReadWait (Second r) \<or> pc' = QPosted (Second r)) \<and> q w' = [None]"
    using receive_check_received [OF laws, of w r "Second r" True] c by (simp add: owed_def received_ok_def)
  with First p c x show ?thesis
    by (cases res) (auto simp: generic_received_def expects_def received_ok_def owed_def stage_ok_def)
next
  case (Second stored)
  with st x show ?thesis
    by (auto simp: generic_received_def expects_def received_ok_def owed_def stage_ok_def
        split: prod.splits option.splits)
qed

lemma handler_failed: "failed ec \<Longrightarrow> expects E q r (QDone ec None, w, False)"
  by (simp add: expects_def)

lemma query_handler_expects:
  assumes laws: "result_laws E R q" and pc: "expects E q r (pc, w, e)" and x: "query_resume E pc w = Some x"
  shows "expects E q r x"
proof -
  note q = result_laws_preserve [OF laws]
  show ?thesis
  proof (cases pc)
    case (QFlushRun b e1 e2)
    with pc have "q w = owed r First" by (simp add: expects_def owed_def)
    with QFlushRun x show ?thesis
      by (auto simp: flush_resume_def expects_def [of E q r "(QFlushWait, _, _)"] owed_def stage_ok_def q(1,2)
          intro!: handler_failed generic_received_expects [OF laws] receive_check_received [OF laws] split: prod.split)
  next
    case (QReadRun ec st)
    with pc have "q w = owed r st" "stage_ok r st" by (simp_all add: expects_def)
    with QReadRun x show ?thesis
      by (auto simp: read_resume_def q(2) intro!: handler_failed generic_received_expects [OF laws]
          receive_check_received [OF laws] split: prod.split)
  next
    case (QPosted st)
    with pc have "q w = owed r st" "stage_ok r st" by (simp_all add: expects_def)
    with QPosted x show ?thesis
      by (auto simp: posted_resume_def intro!: generic_received_expects [OF laws] result_taken [OF laws] split: prod.split)
  qed (use x in simp_all)
qed

lemma notify_handler_preserves:
  assumes laws: "result_laws E R q"
  shows "notify_check E w = (pc, w') \<Longrightarrow> q w' = q w" and "notify_resume E x w = Some (pc, w') \<Longrightarrow> q w' = q w"
proof -
  show check: "notify_check E w = (pc, w') \<Longrightarrow> q w' = q w" for w pc w'
    by (auto simp: notify_check_def result_laws_preserve(4) [OF laws] split: prod.splits if_splits)
  show "notify_resume E x w = Some (pc, w') \<Longrightarrow> q w' = q w"
    by (cases x) (auto simp: check result_laws_preserve(2) [OF laws] split: prod.splits if_splits)
qed

subsection \<open>While the operation is under way\<close>

definition during :: "('w, 'r) env \<Rightarrow> 'w surroundings \<Rightarrow> ('w, 'r) shared \<Rightarrow> ('w, 'r) shared \<Rightarrow> bool" where
  "during E R s t \<longleftrightarrow> in_progress (qpc s) \<and> shared_step E R s t"

text \<open>The operation has been sent, with the result \<open>r\<close> to come, and its first handler has run.\<close>

definition sent_with ::
  "('w, 'r) env \<Rightarrow> ('w \<Rightarrow> 'r result list) \<Rightarrow> 'r result \<Rightarrow> ('w, 'r) shared \<Rightarrow> bool" where
  "sent_with E q r s \<longleftrightarrow>
     (\<exists>w t. q w = [r, None] \<and> s = query_ran E (flush_resume E False no_error no_error w) t)"

definition expecting :: "('w, 'r) env \<Rightarrow> ('w \<Rightarrow> 'r result list) \<Rightarrow> 'r result \<Rightarrow> ('w, 'r) shared \<Rightarrow> bool" where
  "expecting E q r s \<longleftrightarrow> expects E q r (qpc s, lib s, emitted s)"

lemma query_ran_expecting: "expects E q r x \<Longrightarrow> expecting E q r (query_ran E x s)"
  by (cases x) (simp add: expecting_def query_ran_def)

lemma expects_emitted: "in_progress pc \<Longrightarrow> expects E q r (pc, w, e) = expects E q r (pc, w, e')"
  by (cases pc) (simp_all add: expects_def in_progress_def)

lemma sent_expecting:
  assumes "result_laws E R q" and "sent_with E q r s"
  shows "expecting E q r s"
proof -
  obtain w t where w: "q w = [r, None]" "s = query_ran E (flush_resume E False no_error no_error w) t"
    using assms(2) by (auto simp: sent_with_def)
  have "expects E q r (flush_resume E False no_error no_error w)"
    by (rule query_handler_expects [OF assms(1), of r "QFlushRun False no_error no_error" w False])
      (simp_all add: expects_def w(1))
  then show ?thesis unfolding w(2) by (rule query_ran_expecting)
qed

lemma during_expecting:
  assumes laws: "result_laws E R q" and step: "during E R s t" and inv: "expecting E q r s"
  shows "expecting E q r t"
proof -
  from step have run: "in_progress (qpc s)" and "shared_step E R s t" by (simp_all add: during_def)
  from this(2) show ?thesis
  proof cases
    case (server w)
    with inv result_laws_preserve(5) [OF laws server(2)] show ?thesis
      by (cases "qpc s") (auto simp: expecting_def expects_def)
  next
    case (start_notification pc w)
    with inv notify_handler_preserves(1) [OF laws start_notification(3)] show ?thesis
      using run by (cases "qpc s") (auto simp: expecting_def expects_def in_progress_def)
  next
    case can_read
    with inv show ?thesis
      by (cases "qpc s") (auto simp: expecting_def expects_def query_readable_def)
  next
    case (run_query x)
    with query_handler_expects [OF laws inv [unfolded expecting_def] run_query(2)] show ?thesis
      by (auto intro: query_ran_expecting)
  next
    case (run_notification pc w)
    with inv notify_handler_preserves(2) [OF laws run_notification(2)] show ?thesis
      using run by (cases "qpc s") (auto simp: expecting_def expects_def in_progress_def)
  qed (use inv run in \<open>auto simp: expecting_def expects_def\<close>)
qed

interpretation underway: inductive_invariant "sent_with E q r" "during E R"
  "\<lambda>s. result_laws E R q \<longrightarrow> expecting E q r s" for E q r R
  by unfold_locales (auto intro: sent_expecting during_expecting)

text \<open>
  C16: an operation with one result takes its own results only, whatever the order in which its handlers and
  those that receive notifications on the same connection run: as long as it is under way, its result or
  the null behind it is the next to be received; if it completes, then with the result that was sent for it
  and its error code, nothing left to receive and the signal of notifications emitted, or it failed and has
  no result. That it completes is not claimed: receiving a notification can leave it waiting forever
  (\<open>notification_takes_results\<close>).
\<close>

theorem interleaved_result:
  assumes "result_laws E R q" and "reach (sent_with E q r) (during E R) s"
  shows "(\<forall>ec res. qpc s = QDone ec res \<longrightarrow>
      (if emitted s then res = r \<and> ec = result_status_to_error_code E r \<and> q (lib s) = []
       else res = None \<and> failed ec)) \<and>
    (in_progress (qpc s) \<longrightarrow> q (lib s) = [r, None] \<or> q (lib s) = [None])"
proof -
  have "expecting E q r s" using underway.reach_inv [OF assms(2)] assms(1) by blast
  then show ?thesis
    by (cases "qpc s") (auto simp: expecting_def expects_def in_progress_def owed_def split: stage.splits)
qed

subsection \<open>A concrete run\<close>

text \<open>The channel, on which the server sends nothing but notifications without being asked.\<close>

definition notifying_surroundings :: "channel surroundings" where
  "notifying_surroundings = channel_surroundings\<lparr>serves := \<lambda>w w'. \<exists>n. w' = w\<lparr>arrived := arrived w @ [NotifyPacket n]\<rparr>\<rparr>"

fun result_of :: "packet \<Rightarrow> reply result list" where
  "result_of (ResultPacket r) = [r]"
| "result_of (NotifyPacket n) = []"

definition channel_results :: "channel \<Rightarrow> reply result list" where
  "channel_results w = read_results w @ concat (map result_of (arrived w))"

lemma fold_read_results:
  "read_results (fold read_packet ps w) = read_results w @ concat (map result_of ps)"
  "arrived (fold read_packet ps w) = arrived w"
proof -
  have "read_results (fold read_packet ps w) = read_results w @ concat (map result_of ps) \<and>
    arrived (fold read_packet ps w) = arrived w"
  proof (induction ps arbitrary: w)
    case (Cons p ps)
    then show ?case by (cases p) simp_all
  qed simp
  then show "read_results (fold read_packet ps w) = read_results w @ concat (map result_of ps)"
    "arrived (fold read_packet ps w) = arrived w" by simp_all
qed

lemma channel_result_laws: "result_laws channel_env notifying_surroundings channel_results"
proof -
  have all: "channel_results (read_all w) = channel_results w" for w
    by (simp add: channel_results_def read_all_def fold_read_results)
  have "fst (PQgetResult channel_env w) = hd (channel_results w) \<and>
      channel_results (snd (PQgetResult channel_env w)) = tl (channel_results w)" if "channel_results w \<noteq> []" for w
  proof (cases "read_results w")
    case Nil
    with that have "read_results (read_all w) = channel_results w" "arrived (read_all w) = []"
      by (simp_all add: read_all_def fold_read_results channel_results_def)
    with that Nil show ?thesis
      by (cases "channel_results w") (auto simp: channel_env_def next_of_def channel_results_def)
  next
    case (Cons x xs)
    then show ?thesis by (simp add: channel_env_def next_of_def channel_results_def)
  qed
  then show ?thesis
    using all
    by (auto simp: result_laws_def preserves_def channel_env_def notifying_surroundings_def channel_results_def
        split: list.split)
qed

abbreviation channel_run :: "(channel, reply) shared \<Rightarrow> bool" where
  "channel_run \<equiv> reach (sent_with channel_env channel_results (Some completed)) (during channel_env notifying_surroundings)"

text \<open>A notification and the results arrive together; both waits end, and the operation runs first.\<close>

lemma reach_completed:
  "channel_run (fresh_channel\<lparr>lib := \<lparr>arrived = [], read_notes = [wake], read_results = []\<rparr>,
     qpc := QDone no_error (Some completed), npc := NRun no_error False, emitted := True\<rparr>)"
proof -
  let ?w = "\<lparr>arrived = [NotifyPacket wake, ResultPacket (Some completed), ResultPacket None], read_notes = [], read_results = []\<rparr>"
  let ?s0 = "fresh_channel\<lparr>lib := ?w, qpc := QReadWait First, npc := NWait, emitted := False\<rparr>"
  let ?s1 = "?s0\<lparr>qpc := QReadRun no_error First, npc := NRun no_error False\<rparr>"
  let ?v = "\<lparr>arrived = [], read_notes = [wake], read_results = [None]\<rparr>"
  let ?s2 = "?s1\<lparr>lib := ?v, qpc := QPosted (Second (Some completed))\<rparr>"
  have "flush_resume channel_env False no_error no_error ?w = (QReadWait First, ?w, False)"
    by (simp add: flush_resume_def generic_received_def receive_check_def channel_env_def)
  then have "sent_with channel_env channel_results (Some completed) ?s0"
    unfolding sent_with_def
    by (intro exI [of _ ?w] exI [of _ "fresh_channel\<lparr>npc := NWait\<rparr>"]) (simp add: channel_results_def query_ran_def)
  then have 0: "channel_run ?s0" by (rule reach_init)
  have "during channel_env notifying_surroundings ?s0 ?s1"
    using shared_step.can_read [of notifying_surroundings ?s0 channel_env]
    by (simp add: during_def in_progress_def notifying_surroundings_def channel_surroundings_def query_readable_def
        notify_readable_def)
  with 0 have 1: "channel_run ?s1" by (rule reach_step)
  have "query_resume channel_env (qpc ?s1) (lib ?s1) = Some (QPosted (Second (Some completed)), ?v, False)"
    by (simp add: read_resume_def generic_received_def receive_check_def channel_env_def read_all_def next_of_def)
  from shared_step.run_query [OF this, of notifying_surroundings]
  have "during channel_env notifying_surroundings ?s1 ?s2"
    by (simp add: during_def in_progress_def query_ran_def fresh_channel_def)
  with 1 have 2: "channel_run ?s2" by (rule reach_step)
  have "query_resume channel_env (qpc ?s2) (lib ?s2) =
      Some (QDone no_error (Some completed), ?v\<lparr>read_results := []\<rparr>, True)"
    by (simp add: posted_resume_def generic_received_def channel_env_def next_of_def result_status_to_error_code_def
        reply_api_def completed_def)
  from shared_step.run_query [OF this, of notifying_surroundings]
  have "during channel_env notifying_surroundings ?s2
      (?s2\<lparr>lib := ?v\<lparr>read_results := []\<rparr>, qpc := QDone no_error (Some completed), emitted := True\<rparr>)"
    by (simp add: during_def in_progress_def query_ran_def emit_signal_def fresh_channel_def)
  from reach_step [OF 2 this] show ?thesis by (simp add: fresh_channel_def)
qed

theorem interleaved_result_witness:
  "result_status_to_error_code channel_env (Some completed) = no_error \<and>
   channel_results \<lparr>arrived = [], read_notes = [wake], read_results = []\<rparr> = []"
  using interleaved_result [OF channel_result_laws reach_completed] by (simp add: fresh_channel_def)

end
