(* ===== verification/Lifecycle.thy ===== *)
theory Lifecycle
  imports Script
begin

text \<open>
  Who closes the socket of a connection (the members \<open>pgconn_\<close> and \<open>socket_\<close>, \<open>close\<close>, the moves and
  the destructor of include/psql/connection.hpp). Both members refer to one descriptor: libpq opens it
  and closes it in \<open>PQfinish\<close>, the stream descriptor of Asio is assigned it and closes what it holds
  when it is destroyed. The functions of libpq and Asio are parameters over an abstract world.
\<close>

subsection \<open>The handles\<close>

record ('p, 'k, 'w) handle_api =
  api_start :: "string \<Rightarrow> 'w \<Rightarrow> 'p option \<times> 'w"
  api_bad :: "'p option \<Rightarrow> bool"
  api_set_nonblocking :: "'p option \<Rightarrow> int"
  api_socket :: "'p \<Rightarrow> int"
  api_finish :: "'p \<Rightarrow> 'w \<Rightarrow> 'w"
  api_new :: "'k"
  api_assign :: "int \<Rightarrow> 'k \<Rightarrow> error_code \<times> 'k"
  api_release :: "'k \<Rightarrow> 'k"
  api_destroy :: "'k \<Rightarrow> 'w \<Rightarrow> 'w"

record ('p, 'k) handles =
  pgconn_ptr :: "'p option"
  socket_obj :: "'k"

definition new_handles :: "('p, 'k, 'w) handle_api \<Rightarrow> ('p, 'k) handles" where
  "new_handles A = \<lparr>pgconn_ptr = None, socket_obj = api_new A\<rparr>"

text \<open>\<open>pgconn_.reset(p)\<close>: the pointer is replaced, then the deleter runs on the old one.\<close>

definition reset_pgconn ::
  "('p, 'k, 'w) handle_api \<Rightarrow> 'p option \<Rightarrow> ('p, 'k) handles \<Rightarrow> 'w \<Rightarrow> ('p, 'k) handles \<times> 'w" where
  "reset_pgconn A p h w =
     (h\<lparr>pgconn_ptr := p\<rparr>, case pgconn_ptr h of None \<Rightarrow> w | Some old \<Rightarrow> api_finish A old w)"

definition close_connection ::
  "('p, 'k, 'w) handle_api \<Rightarrow> ('p, 'k) handles \<Rightarrow> 'w \<Rightarrow> ('p, 'k) handles \<times> 'w" where
  "close_connection A h w = reset_pgconn A None h w"

text \<open>
  What the first call of the handler of \<open>async_connect\<close> does with the handles: its failure, if any.
\<close>

definition open_connection ::
  "('p, 'k, 'w) handle_api \<Rightarrow> string \<Rightarrow> ('p, 'k) handles \<Rightarrow> 'w \<Rightarrow>
   (failure + error_code) \<times> ('p, 'k) handles \<times> 'w" where
  "open_connection A conninfo h w =
     (case api_start A conninfo w of (p, w1) \<Rightarrow>
      case reset_pgconn A p h w1 of (h1, w2) \<Rightarrow>
        if api_bad A p then (Inr (err pq_connect_start_failed), h1, w2)
        else if api_set_nonblocking A p \<noteq> 0 then (Inr (err pq_set_non_blocking_failed), h1, w2)
        else
          (case api_assign A (case p of Some q \<Rightarrow> api_socket A q | None \<Rightarrow> -1) (socket_obj h1) of (ec, k) \<Rightarrow>
             (if failed ec then Inl (Throw (SystemError ec)) else Inr no_error, h1\<lparr>socket_obj := k\<rparr>, w2)))"

text \<open>
  The destructor: its body releases the descriptor while libpq has one; then the members are
  destroyed, \<open>socket_\<close> before \<open>pgconn_\<close>.
\<close>

definition destroy_connection :: "('p, 'k, 'w) handle_api \<Rightarrow> ('p, 'k) handles \<Rightarrow> 'w \<Rightarrow> 'w" where
  "destroy_connection A h w =
     (let k = (if pgconn_ptr h \<noteq> None then api_release A (socket_obj h) else socket_obj h);
          w1 = api_destroy A k w
      in case pgconn_ptr h of None \<Rightarrow> w1 | Some p \<Rightarrow> api_finish A p w1)"

text \<open>
  The defaulted moves, member by member: what is moved from is empty, and assigning destroys what the
  target had. The results are the target and the source.
\<close>

definition move_construct ::
  "('p, 'k, 'w) handle_api \<Rightarrow> ('p, 'k) handles \<Rightarrow> ('p, 'k) handles \<times> ('p, 'k) handles" where
  "move_construct A h = (h, new_handles A)"

definition move_assign ::
  "('p, 'k, 'w) handle_api \<Rightarrow> ('p, 'k) handles \<Rightarrow> ('p, 'k) handles \<Rightarrow> 'w \<Rightarrow>
   ('p, 'k) handles \<times> ('p, 'k) handles \<times> 'w" where
  "move_assign A target source w =
     (case reset_pgconn A (pgconn_ptr source) target w of (t, w1) \<Rightarrow>
        (t\<lparr>socket_obj := socket_obj source\<rparr>, new_handles A, api_destroy A (socket_obj target) w1))"

subsection \<open>What libpq and Asio promise\<close>

text \<open>
  \<open>held_fd k\<close> is the descriptor that a stream descriptor holds, \<open>closed w\<close> the descriptors that were
  closed so far, in order.
\<close>

definition handle_laws :: "('p, 'k, 'w) handle_api \<Rightarrow> ('k \<Rightarrow> int option) \<Rightarrow> ('w \<Rightarrow> int list) \<Rightarrow> bool" where
  "handle_laws A held_fd closed \<longleftrightarrow>
     (\<forall>c w. closed (snd (api_start A c w)) = closed w) \<and> api_bad A None \<and>
     (\<forall>p w. closed (api_finish A p w) = closed w @ [api_socket A p]) \<and>
     (\<forall>k w. closed (api_destroy A k w) = closed w @ (case held_fd k of None \<Rightarrow> [] | Some fd \<Rightarrow> [fd])) \<and>
     held_fd (api_new A) = None \<and> (\<forall>k. held_fd (api_release A k) = None) \<and>
     (\<forall>fd k. if held_fd k = None then \<not> failed (fst (api_assign A fd k)) \<and> held_fd (snd (api_assign A fd k)) = Some fd
             else failed (fst (api_assign A fd k)) \<and> snd (api_assign A fd k) = k)"

subsection \<open>Ownership\<close>

text \<open>The stream descriptor holds nothing but the descriptor of the libpq connection.\<close>

definition owned :: "('p, 'k, 'w) handle_api \<Rightarrow> ('k \<Rightarrow> int option) \<Rightarrow> ('p, 'k) handles \<Rightarrow> bool" where
  "owned A held_fd h \<longleftrightarrow>
     (case held_fd (socket_obj h) of None \<Rightarrow> True
      | Some fd \<Rightarrow> \<exists>p. pgconn_ptr h = Some p \<and> api_socket A p = fd)"

lemma handle_laws_simps:
  assumes "handle_laws A held_fd closed"
  shows "api_start A c w = (p, w') \<Longrightarrow> closed w' = closed w" and "api_bad A None"
    and "closed (api_finish A q w) = closed w @ [api_socket A q]"
    and "closed (api_destroy A k w) = closed w @ (case held_fd k of None \<Rightarrow> [] | Some fd \<Rightarrow> [fd])"
    and "held_fd (api_new A) = None" and "held_fd (api_release A k) = None"
    and "held_fd k = None \<Longrightarrow> \<exists>ec k'. api_assign A fd k = (ec, k') \<and> \<not> failed ec \<and> held_fd k' = Some fd"
    and "held_fd k \<noteq> None \<Longrightarrow> \<exists>ec. api_assign A fd k = (ec, k) \<and> failed ec"
  using assms unfolding handle_laws_def by (simp_all, metis snd_conv, metis prod.collapse, metis prod.collapse option.discI)

lemma destroy_owned:
  assumes "handle_laws A held_fd closed" and "owned A held_fd h"
  shows "closed (destroy_connection A h w) =
    closed w @ (case pgconn_ptr h of None \<Rightarrow> [] | Some p \<Rightarrow> [api_socket A p])"
  using assms(2) handle_laws_simps [OF assms(1)]
  by (auto simp: destroy_connection_def owned_def Let_def split: option.splits)

lemma open_owned:
  assumes "handle_laws A held_fd closed" and "held_fd (socket_obj h) = None"
    and "open_connection A c h w = (r, h', w')"
  shows "owned A held_fd h'"
proof -
  obtain p w1 where "api_start A c w = (p, w1)" by fastforce
  moreover obtain ec k where "api_assign A (case p of Some q \<Rightarrow> api_socket A q | None \<Rightarrow> -1) (socket_obj h) = (ec, k)"
    and "held_fd k = Some (case p of Some q \<Rightarrow> api_socket A q | None \<Rightarrow> -1)"
    using handle_laws_simps(7) [OF assms(1,2)] by blast
  ultimately show ?thesis
    using assms(2,3) handle_laws_simps(2) [OF assms(1)]
    by (cases p) (auto simp: open_connection_def reset_pgconn_def owned_def split: if_splits)
qed

subsection \<open>Properties\<close>

text \<open>
  C11: the descriptor of a connection that is opened, moved and destroyed is closed exactly once, by
  libpq: the descriptor that the stream descriptor holds is always the one of the libpq connection,
  which the destructor releases first; what was moved from closes nothing.
\<close>

theorem descriptor_closed_once:
  assumes "handle_laws A held_fd closed" and "held_fd (socket_obj h) = None"
    and "open_connection A conninfo h w = (r, h1, w1)" and "move_construct A h1 = (h2, h3)"
  shows "closed (destroy_connection A h1 w1) =
      closed w1 @ (case pgconn_ptr h1 of None \<Rightarrow> [] | Some p \<Rightarrow> [api_socket A p]) \<and>
    closed (destroy_connection A h3 (destroy_connection A h2 w1)) =
      closed w1 @ (case pgconn_ptr h1 of None \<Rightarrow> [] | Some p \<Rightarrow> [api_socket A p])"
proof -
  have 1: "owned A held_fd h1" by (rule open_owned [OF assms(1-3)])
  have "h2 = h1" "h3 = new_handles A" using assms(4) by (simp_all add: move_construct_def)
  moreover have "owned A held_fd (new_handles A)"
    using handle_laws_simps(5) [OF assms(1)] by (simp add: owned_def new_handles_def)
  ultimately show ?thesis
    using destroy_owned [OF assms(1)] 1 by (simp add: new_handles_def)
qed

definition simple_handles :: "(int, int option, int list) handle_api" where
  "simple_handles =
     \<lparr>api_start = (\<lambda>c w. (Some (int (length c)), w)), api_bad = (\<lambda>p. p = None), api_set_nonblocking = (\<lambda>p. 0),
      api_socket = (\<lambda>p. p), api_finish = (\<lambda>p w. w @ [p]), api_new = None,
      api_assign = (\<lambda>fd k. if k = None then (no_error, Some fd) else (err connection_failed, k)),
      api_release = (\<lambda>k. None), api_destroy = (\<lambda>k w. case k of None \<Rightarrow> w | Some fd \<Rightarrow> w @ [fd])\<rparr>"

lemma simple_handle_laws: "handle_laws simple_handles (\<lambda>k. k) (\<lambda>w. w)"
  by (auto simp: handle_laws_def simple_handles_def split: option.split)

theorem descriptor_closed_once_witness:
  "destroy_connection simple_handles \<lparr>pgconn_ptr = Some 4, socket_obj = Some 4\<rparr> [] = [4]"
proof -
  have run: "open_connection simple_handles ''host'' \<lparr>pgconn_ptr = None, socket_obj = None\<rparr> [] =
      (Inr no_error, \<lparr>pgconn_ptr = Some 4, socket_obj = Some 4\<rparr>, [])"
    by (simp add: open_connection_def simple_handles_def reset_pgconn_def)
  from descriptor_closed_once [OF simple_handle_laws _ run surjective_pairing] show ?thesis
    by (simp add: simple_handles_def)
qed

text \<open>
  C33: \<open>close\<close>, and assigning to a connection, close a connected descriptor twice: libpq closes it at
  once, and the stream descriptor, which still holds it, closes it again when it is destroyed or
  assigned. A connection that was closed cannot be connected again: the stream descriptor refuses the
  new descriptor, and the exception leaves the operation.
\<close>

theorem closed_descriptor_closed_again:
  assumes "handle_laws A held_fd closed"
    and "pgconn_ptr h = Some p" and "held_fd (socket_obj h) = Some (api_socket A p)"
    and "close_connection A h w = (h1, w1)" and "move_assign A h source w = (h2, h3, w3)"
  shows "closed (destroy_connection A h1 w1) = closed w @ [api_socket A p, api_socket A p] \<and>
    closed w3 = closed w @ [api_socket A p, api_socket A p] \<and>
    (\<forall>q w2. api_start A conninfo w1 = (Some q, w2) \<and> \<not> api_bad A (Some q) \<and> api_set_nonblocking A (Some q) = 0 \<longrightarrow>
      (\<exists>ec. failed ec \<and> fst (open_connection A conninfo h1 w1) = Inl (Throw (SystemError ec))))"
proof (intro conjI allI impI)
  note laws = handle_laws_simps [OF assms(1)]
  have h1: "h1 = h\<lparr>pgconn_ptr := None\<rparr>" "w1 = api_finish A p w"
    using assms(2,4) by (simp_all add: close_connection_def reset_pgconn_def)
  show "closed (destroy_connection A h1 w1) = closed w @ [api_socket A p, api_socket A p]"
    using assms(3) by (simp add: h1 destroy_connection_def laws)
  show "closed w3 = closed w @ [api_socket A p, api_socket A p]"
    using assms(2,3,5) by (auto simp: move_assign_def reset_pgconn_def laws)
  fix q w2
  assume q: "api_start A conninfo w1 = (Some q, w2) \<and> \<not> api_bad A (Some q) \<and> api_set_nonblocking A (Some q) = 0"
  obtain ec where "api_assign A (api_socket A q) (socket_obj h) = (ec, socket_obj h)" "failed ec"
    using laws(8) [of "socket_obj h"] assms(3) by auto
  with q show "\<exists>ec. failed ec \<and> fst (open_connection A conninfo h1 w1) = Inl (Throw (SystemError ec))"
    by (auto simp: open_connection_def reset_pgconn_def h1)
qed

theorem closed_descriptor_closed_again_witness:
  "destroy_connection simple_handles \<lparr>pgconn_ptr = None, socket_obj = Some 4\<rparr> [4] = [4, 4]"
proof -
  let ?h = "\<lparr>pgconn_ptr = Some 4, socket_obj = Some 4\<rparr>"
  have "close_connection simple_handles ?h [] = (\<lparr>pgconn_ptr = None, socket_obj = Some 4\<rparr>, [4])"
    by (simp add: close_connection_def reset_pgconn_def simple_handles_def)
  moreover have "move_assign simple_handles ?h \<lparr>pgconn_ptr = None, socket_obj = None\<rparr> [] =
      (\<lparr>pgconn_ptr = None, socket_obj = None\<rparr>, new_handles simple_handles, [4, 4])"
    by (simp add: move_assign_def reset_pgconn_def simple_handles_def)
  ultimately show ?thesis
    using closed_descriptor_closed_again [OF simple_handle_laws, of ?h 4] by (simp add: simple_handles_def)
qed

lemma connect_poll_result:
  "connect_poll E s = Some y \<Longrightarrow> only_pgconn s (snd y) \<and>
   (\<not> failed (fst y) \<longrightarrow>
     (\<exists>w. PQconnectPoll E w = (PGRES_POLLING_OK, pgconn (snd y)) \<or> PQconnectPoll E w = (PGRES_POLLING_ACTIVE, pgconn (snd y))))"
proof (erule connect_poll.raw_induct [where P = "\<lambda>E s y. only_pgconn s (snd y) \<and> (\<not> failed (fst y) \<longrightarrow>
     (\<exists>w. PQconnectPoll E w = (PGRES_POLLING_OK, pgconn (snd y)) \<or> PQconnectPoll E w = (PGRES_POLLING_ACTIVE, pgconn (snd y))))",
     rotated], goal_cases)
  case (1 f E s y)
  obtain ret w where p: "PQconnectPoll E (pgconn s) = (ret, w)" by fastforce
  obtain e1 w1 where r: "wait_read E (socket s) w = (e1, w1)" by fastforce
  obtain e2 w2 where x: "wait_write E (socket s) w = (e2, w2)" by fastforce
  show ?case
  proof (cases "ret = PGRES_POLLING_READING \<and> \<not> failed e1 \<or> ret = PGRES_POLLING_WRITING \<and> \<not> failed e2")
    case True
    with 1(2) p r x obtain v where "f E (s\<lparr>pgconn := v\<rparr>) = Some y" by auto
    from 1(1) [OF this] show ?thesis by simp
  next
    case False
    with 1(2) p r x show ?thesis by (cases ret) auto
  qed
qed

text \<open>
  C32: connecting succeeds only when libpq says that the connection is made; the descriptor that is
  waited on is the one libpq had at the start, whatever it moves to while it tries other hosts; and a
  connection that cannot even be started, or put into non-blocking mode, is reported as such.
\<close>

theorem connect_exact:
  assumes "async_connect E conninfo s = Some (Inr ec, s')"
    and "w = PQconnectStart E conninfo (pgconn s)" and "PQsetnonblocking E 1 w = (ret, w1)"
  shows "(\<not> failed ec \<longrightarrow>
      PQstatus E w \<noteq> CONNECTION_BAD \<and> ret = 0 \<and> socket s' = PQsocket E (PQsetNoticeProcessor E w1) \<and>
      (\<exists>v. PQconnectPoll E v = (PGRES_POLLING_OK, pgconn s') \<or> PQconnectPoll E v = (PGRES_POLLING_ACTIVE, pgconn s'))) \<and>
    (PQstatus E w = CONNECTION_BAD \<longrightarrow> ec = err pq_connect_start_failed) \<and>
    (PQstatus E w \<noteq> CONNECTION_BAD \<and> ret \<noteq> 0 \<longrightarrow> ec = err pq_set_non_blocking_failed)"
proof (cases "PQstatus E w = CONNECTION_BAD \<or> ret \<noteq> 0")
  case True
  with assms show ?thesis by (auto simp: async_connect_def Let_def split: if_splits)
next
  case False
  obtain fd where fd: "fd = PQsocket E (PQsetNoticeProcessor E w1)" by simp
  obtain ed w3 where a: "socket_assign E fd (PQsetNoticeProcessor E w1) = (ed, w3)" by fastforce
  from assms False a fd have poll: "connect_poll E (s\<lparr>pgconn := w3, socket := fd\<rparr>) = Some (ec, s')"
    by (auto simp: async_connect_def Let_def bind_eq_Some_conv split: if_splits)
  from connect_poll_result [OF this] have "only_pgconn (s\<lparr>pgconn := w3, socket := fd\<rparr>) s'"
    and r: "\<not> failed ec \<longrightarrow>
      (\<exists>v. PQconnectPoll E v = (PGRES_POLLING_OK, pgconn s') \<or> PQconnectPoll E v = (PGRES_POLLING_ACTIVE, pgconn s'))"
    by simp_all
  then have "socket s' = fd" using only_pgconn_fields(3) by fastforce
  with r False fd show ?thesis by simp
qed

theorem connect_exact_witness:
  "\<exists>s'. async_connect script ''host=db'' (fresh (idle_server\<lparr>polls := [PGRES_POLLING_READING, PGRES_POLLING_OK]\<rparr>)) =
     Some (Inr no_error, s') \<and> socket s' = 3"
proof -
  let ?s = "fresh (idle_server\<lparr>polls := [PGRES_POLLING_READING, PGRES_POLLING_OK]\<rparr>)"
  obtain s' where run: "async_connect script ''host=db'' ?s = Some (Inr no_error, s')"
    by (simp add: async_connect_def connect_poll.simps script_simps Let_def)
  from connect_exact [OF run refl surjective_pairing] run show ?thesis by (auto simp: script_simps)
qed

end
