(* ===== verification/ConnectionPool.thy ===== *)
theory ConnectionPool
  imports Connection "HOL-Library.Multiset"
begin

text \<open>
  The connection pool (include/psql/connection_pool.hpp) as a transition system. The mutex makes each
  handler and each member function one step. What happens between the steps is up to the users of the
  pool: starting and cancelling acquisitions, using and dropping connections, changing the size.
\<close>

subsection \<open>The environment\<close>

datatype trans_status = PQTRANS_IDLE | PQTRANS_ACTIVE | PQTRANS_INTRANS | PQTRANS_INERROR | PQTRANS_UNKNOWN

text \<open>
  A connection as the pool sees it: \<open>PQstatus\<close> and \<open>PQtransactionStatus\<close> of its handle.
\<close>

record pool_conn =
  connection_status :: conn_status
  transaction_status :: trans_status

text \<open>
  The timer \<open>cv_\<close> of Asio is a parameter. Its waits are known by the acquisition that waits; the
  functions that cancel give the waits that they complete, each with \<open>operation_aborted\<close>.
\<close>

record 't timer =
  waiting :: "'t \<Rightarrow> nat list"
  async_wait :: "nat \<Rightarrow> 't \<Rightarrow> 't"
  cancel :: "'t \<Rightarrow> nat list \<times> 't"
  cancel_one :: "'t \<Rightarrow> nat list \<times> 't"
  cancel_wait :: "nat \<Rightarrow> 't \<Rightarrow> nat list \<times> 't"

text \<open>The documented behaviour of a timer that never expires: waits are cancelled in their order.\<close>

definition timer_ok :: "'t timer \<Rightarrow> bool" where
  "timer_ok T \<longleftrightarrow>
     (\<forall>i t. waiting T (async_wait T i t) = waiting T t @ [i]) \<and>
     (\<forall>t. fst (cancel T t) = waiting T t \<and> waiting T (snd (cancel T t)) = []) \<and>
     (\<forall>t. fst (cancel_one T t) = take 1 (waiting T t) \<and> waiting T (snd (cancel_one T t)) = drop 1 (waiting T t)) \<and>
     (\<forall>i t. i \<in> set (waiting T t) \<longrightarrow>
        fst (cancel_wait T i t) = [i] \<and> waiting T (snd (cancel_wait T i t)) = remove1 i (waiting T t))"

subsection \<open>The state\<close>

text \<open>
  The members of the pool, and where the acquisitions and the connections outside of it are: the
  acquisitions whose wait has completed and that are about to run, those that connect, those that were
  posted with an idle connection; the pooled connections in the hands of users; and the acquisitions
  that have completed.
\<close>

record 't pool =
  max_size :: "64 word"
  aquired_conns :: "64 word"
  idle_conns :: "pool_conn list"
  cv :: 't
  woken :: "nat list"
  connecting :: "nat list"
  posted :: "(nat \<times> pool_conn) list"
  held :: "pool_conn list"
  completed_ops :: "nat list"

definition num_aquired :: "'t pool \<Rightarrow> 64 word" where
  "num_aquired s = aquired_conns s"

subsection \<open>The operations\<close>

definition set_max_size :: "'t timer \<Rightarrow> 64 word \<Rightarrow> 't pool \<Rightarrow> 't pool" where
  "set_max_size T v s =
     (case cancel T (cv s) of (ws, t) \<Rightarrow> s\<lparr>max_size := v, cv := t, woken := woken s @ ws\<rparr>)"

text \<open>
  The handler of \<open>async_aquire\<close> for the acquisition \<open>i\<close>, at its start or resumed after a wait that
  completed with \<open>ec\<close>, up to its next suspension or its completion with \<open>ec\<close> and no pool.
\<close>

definition aquire_handler :: "'t timer \<Rightarrow> error_code \<Rightarrow> nat \<Rightarrow> error_code \<Rightarrow> bool \<Rightarrow> 't pool \<Rightarrow> 't pool" where
  "aquire_handler T abort_code i ec cancelled s =
     (if aquired_conns s \<ge> max_size s then
        if (failed ec \<and> ec \<noteq> abort_code) \<or> cancelled
        then s\<lparr>completed_ops := completed_ops s @ [i]\<rparr>
        else s\<lparr>cv := async_wait T i (cv s)\<rparr>
      else
        (let s = s\<lparr>aquired_conns := aquired_conns s + 1\<rparr> in
         case idle_conns s of
           [] \<Rightarrow> s\<lparr>connecting := connecting s @ [i]\<rparr>
         | c # cs \<Rightarrow> s\<lparr>idle_conns := cs, posted := posted s @ [(i, c)]\<rparr>))"

text \<open>The completion hands over the connection, also when connecting failed, with the pool to return it to.\<close>

definition aquire_complete :: "nat \<Rightarrow> pool_conn \<Rightarrow> 't pool \<Rightarrow> 't pool" where
  "aquire_complete i c s = s\<lparr>held := held s @ [c], completed_ops := completed_ops s @ [i]\<rparr>"

definition return_connection :: "'t timer \<Rightarrow> pool_conn \<Rightarrow> 't pool \<Rightarrow> 't pool" where
  "return_connection T c s =
     (let s = s\<lparr>aquired_conns := aquired_conns s - 1\<rparr> in
      case cancel_one T (cv s) of (ws, t) \<Rightarrow>
        (let s = s\<lparr>cv := t, woken := woken s @ ws\<rparr> in
         if connection_status c \<noteq> CONNECTION_OK then s
         else if transaction_status c \<noteq> PQTRANS_IDLE then s
         else s\<lparr>idle_conns := idle_conns s @ [c]\<rparr>))"

subsection \<open>The steps\<close>

definition live_ops :: "'t timer \<Rightarrow> 't pool \<Rightarrow> nat list" where
  "live_ops T s = waiting T (cv s) @ woken s @ connecting s @ map fst (posted s) @ completed_ops s"

text \<open>\<open>M\<close> bounds the sizes that the users ever give to the pool.\<close>

inductive pool_step :: "'t timer \<Rightarrow> error_code \<Rightarrow> 64 word \<Rightarrow> 't pool \<Rightarrow> 't pool \<Rightarrow> bool"
  for T :: "'t timer" and abort_code :: error_code and M :: "64 word" where
  start: "i \<notin> set (live_ops T s) \<Longrightarrow>
    pool_step T abort_code M s (aquire_handler T abort_code i no_error False s)"
| resume: "woken s = xs @ i # ys \<Longrightarrow>
    pool_step T abort_code M s
      (aquire_handler T abort_code i ec cancelled (s\<lparr>woken := xs @ ys\<rparr>))"
| cancel: "i \<in> set (waiting T (cv s)) \<Longrightarrow> cancel_wait T i (cv s) = (ws, t) \<Longrightarrow>
    pool_step T abort_code M s (s\<lparr>cv := t, woken := woken s @ ws\<rparr>)"
| connected: "connecting s = xs @ i # ys \<Longrightarrow>
    pool_step T abort_code M s (aquire_complete i c (s\<lparr>connecting := xs @ ys\<rparr>))"
| handed: "posted s = xs @ (i, c) # ys \<Longrightarrow>
    pool_step T abort_code M s (aquire_complete i c (s\<lparr>posted := xs @ ys\<rparr>))"
| used: "held s = xs @ c # ys \<Longrightarrow> pool_step T abort_code M s (s\<lparr>held := xs @ c' # ys\<rparr>)"
| dropped: "held s = xs @ c # ys \<Longrightarrow>
    pool_step T abort_code M s (return_connection T c (s\<lparr>held := xs @ ys\<rparr>))"
| resized: "v \<le> M \<Longrightarrow> pool_step T abort_code M s (set_max_size T v s)"

definition pool_init :: "'t timer \<Rightarrow> 64 word \<Rightarrow> 't pool \<Rightarrow> bool" where
  "pool_init T M s \<longleftrightarrow>
     max_size s \<le> M \<and> aquired_conns s = 0 \<and> idle_conns s = [] \<and> waiting T (cv s) = [] \<and> woken s = [] \<and>
     connecting s = [] \<and> posted s = [] \<and> held s = [] \<and> completed_ops s = []"

subsection \<open>The invariant\<close>

definition reusable :: "pool_conn \<Rightarrow> bool" where
  "reusable c \<longleftrightarrow> connection_status c = CONNECTION_OK \<and> transaction_status c = PQTRANS_IDLE"

definition in_use :: "'t pool \<Rightarrow> nat" where
  "in_use s = length (connecting s) + length (posted s) + length (held s)"

text \<open>
  The counter is the number of connections outside of the pool; no more connections exist than the
  pool may have; only reusable connections are kept; an acquisition waits only while every free slot
  has an acquisition that is about to run (but for \<open>n\<close> slots); each acquisition is in one place.
\<close>

definition pool_inv_but :: "nat \<Rightarrow> 't timer \<Rightarrow> 64 word \<Rightarrow> 't pool \<Rightarrow> bool" where
  "pool_inv_but n T M s \<longleftrightarrow>
     max_size s \<le> M \<and>
     unat (aquired_conns s) = in_use s \<and>
     length (idle_conns s) + in_use s \<le> unat M \<and>
     (\<forall>c \<in> set (idle_conns s) \<union> snd ` set (posted s). reusable c) \<and>
     (waiting T (cv s) \<noteq> [] \<longrightarrow> unat (max_size s) \<le> in_use s + length (woken s) + n) \<and>
     distinct (live_ops T s)"

abbreviation pool_inv :: "'t timer \<Rightarrow> 64 word \<Rightarrow> 't pool \<Rightarrow> bool" where
  "pool_inv \<equiv> pool_inv_but 0"

lemma unat_incr: "a < b \<Longrightarrow> unat (a + 1) = unat a + 1" for a b :: "64 word"
  using unsigned_less [of b, where 'a = nat] by (simp add: word_less_nat_alt unat_word_ariths)

lemma unat_decr: "unat a = Suc n \<Longrightarrow> unat (a - 1) = n" for a :: "64 word"
  by (metis unat_minus_one diff_Suc_1 unat_0 nat.distinct(1))

lemma aquire_handler_inv:
  assumes T: "timer_ok T" and inv: "pool_inv_but 1 T M s" and i: "i \<notin> set (live_ops T s)"
  shows "pool_inv T M (aquire_handler T abort_code i ec cancelled s)"
proof (cases "aquired_conns s \<ge> max_size s")
  case True
  then have "unat (max_size s) \<le> in_use s" using inv by (simp add: pool_inv_but_def word_le_nat_alt)
  with True T inv i show ?thesis
    by (auto simp: aquire_handler_def pool_inv_but_def live_ops_def timer_ok_def in_use_def)
next
  case False
  then have less: "aquired_conns s < max_size s" by simp
  with inv have "unat (aquired_conns s + 1) = in_use s + 1" "in_use s + 1 \<le> unat M"
    using unat_incr [OF less] by (auto simp: pool_inv_but_def word_le_nat_alt word_less_nat_alt)
  with False T inv i show ?thesis
    by (cases "idle_conns s")
      (auto simp: aquire_handler_def pool_inv_but_def live_ops_def in_use_def Let_def)
qed

lemma return_connection_fields:
  assumes "cancel_one T (cv s) = (ws, t)"
  shows "return_connection T c s =
    s\<lparr>aquired_conns := aquired_conns s - 1, cv := t, woken := woken s @ ws,
      idle_conns := idle_conns s @ (if reusable c then [c] else [])\<rparr>"
  using assms by (simp add: return_connection_def reusable_def Let_def)

lemma return_connection_inv:
  assumes T: "timer_ok T" and inv: "pool_inv T M s" and held: "held s = xs @ c # ys"
  shows "pool_inv T M (return_connection T c (s\<lparr>held := xs @ ys\<rparr>))"
proof -
  obtain ws t where one: "cancel_one T (cv s) = (ws, t)" by fastforce
  with T have ws: "ws = take 1 (waiting T (cv s))" "waiting T t = drop 1 (waiting T (cv s))"
    unfolding timer_ok_def by (metis fst_conv snd_conv)+
  from inv held have "unat (aquired_conns s) = Suc (in_use (s\<lparr>held := xs @ ys\<rparr>))"
    by (simp add: pool_inv_but_def in_use_def)
  from unat_decr [OF this] have n: "unat (aquired_conns s - 1) = in_use (s\<lparr>held := xs @ ys\<rparr>)" .
  have d: "distinct (waiting T t @ (woken s @ ws) @ connecting s @ map fst (posted s) @ completed_ops s)"
    using inv ws by (cases "waiting T (cv s)") (auto simp: pool_inv_but_def live_ops_def)
  have w: "waiting T t \<noteq> [] \<longrightarrow> unat (max_size s) \<le> in_use (s\<lparr>held := xs @ ys\<rparr>) + length (woken s @ ws)"
    using inv ws held by (cases "waiting T (cv s)") (auto simp: pool_inv_but_def in_use_def)
  show ?thesis
    using inv held n d w
    unfolding return_connection_fields [where s = "s\<lparr>held := xs @ ys\<rparr>", simplified, OF one]
    by (simp add: pool_inv_but_def in_use_def live_ops_def)
qed

lemma distinct_live_ops:
  "mset (live_ops T s') = mset (live_ops T s) \<Longrightarrow> distinct (live_ops T s) \<Longrightarrow> distinct (live_ops T s')"
  using mset_eq_imp_distinct_iff by blast

lemma moved_wait_inv:
  assumes inv: "pool_inv T M s" and "m \<le> M"
    and "waiting T t = [] \<or> m = max_size s"
    and "waiting T t \<noteq> [] \<Longrightarrow> waiting T (cv s) \<noteq> []"
    and "mset (waiting T t @ ws) = mset (waiting T (cv s))"
  shows "pool_inv T M (s\<lparr>max_size := m, cv := t, woken := woken s @ ws\<rparr>)" (is "pool_inv T M ?s")
proof -
  have "mset (live_ops T ?s) = mset (live_ops T s)"
    using assms(5) by (simp add: live_ops_def)
  then have "distinct (live_ops T ?s)"
    using inv by (intro distinct_live_ops [of T ?s s]) (simp_all add: pool_inv_but_def)
  with assms(2-4) inv show ?thesis by (auto simp: pool_inv_but_def in_use_def)
qed

lemma set_max_size_inv:
  assumes T: "timer_ok T" and inv: "pool_inv T M s" and "v \<le> M"
  shows "pool_inv T M (set_max_size T v s)"
proof -
  obtain ws t where c: "cancel T (cv s) = (ws, t)" by fastforce
  with T have "ws = waiting T (cv s)" "waiting T t = []"
    unfolding timer_ok_def by (metis fst_conv snd_conv)+
  with c assms(3) moved_wait_inv [OF inv, of v t ws] show ?thesis by (simp add: set_max_size_def)
qed

lemma cancel_wait_inv:
  assumes T: "timer_ok T" and inv: "pool_inv T M s" and i: "i \<in> set (waiting T (cv s))"
    and c: "cancel_wait T i (cv s) = (ws, t)"
  shows "pool_inv T M (s\<lparr>cv := t, woken := woken s @ ws\<rparr>)"
proof -
  from T i c have w: "ws = [i]" "waiting T t = remove1 i (waiting T (cv s))"
    unfolding timer_ok_def by (metis fst_conv snd_conv)+
  have "max_size s \<le> M" using inv by (simp add: pool_inv_but_def)
  moreover have "mset (waiting T t @ ws) = mset (waiting T (cv s))" using w i by simp
  moreover have "waiting T (cv s) \<noteq> []" using i by auto
  ultimately show ?thesis using moved_wait_inv [OF inv, of "max_size s" t ws] by simp
qed

lemma complete_inv:
  assumes inv: "pool_inv T M s"
  shows "connecting s = xs @ i # ys \<Longrightarrow> pool_inv T M (aquire_complete i c (s\<lparr>connecting := xs @ ys\<rparr>))"
    and "posted s = zs @ (i, c) # us \<Longrightarrow> pool_inv T M (aquire_complete i c (s\<lparr>posted := zs @ us\<rparr>))"
proof -
  let ?s = "aquire_complete i c (s\<lparr>connecting := xs @ ys\<rparr>)" and ?t = "aquire_complete i c (s\<lparr>posted := zs @ us\<rparr>)"
  show "pool_inv T M ?s" if c: "connecting s = xs @ i # ys"
  proof -
    have "distinct (live_ops T ?s)"
      using inv c by (intro distinct_live_ops [of T ?s s]) (simp_all add: pool_inv_but_def live_ops_def aquire_complete_def)
    with inv c show ?thesis by (simp add: aquire_complete_def pool_inv_but_def in_use_def)
  qed
  show "pool_inv T M ?t" if c: "posted s = zs @ (i, c) # us"
  proof -
    have "distinct (live_ops T ?t)"
      using inv c by (intro distinct_live_ops [of T ?t s]) (simp_all add: pool_inv_but_def live_ops_def aquire_complete_def)
    with inv c show ?thesis by (auto simp: aquire_complete_def pool_inv_but_def in_use_def)
  qed
qed

lemma used_inv: "pool_inv T M s \<Longrightarrow> held s = xs @ c # ys \<Longrightarrow> pool_inv T M (s\<lparr>held := xs @ c' # ys\<rparr>)"
  by (simp add: pool_inv_but_def in_use_def live_ops_def)

lemma resume_inv:
  assumes T: "timer_ok T" and inv: "pool_inv T M s" and w: "woken s = xs @ i # ys"
  shows "pool_inv T M (aquire_handler T abort_code i ec cancelled (s\<lparr>woken := xs @ ys\<rparr>))"
proof (rule aquire_handler_inv [OF T])
  show "pool_inv_but 1 T M (s\<lparr>woken := xs @ ys\<rparr>)" "i \<notin> set (live_ops T (s\<lparr>woken := xs @ ys\<rparr>))"
    using inv w by (auto simp: pool_inv_but_def live_ops_def in_use_def)
qed

lemma pool_inv_weaken: "pool_inv T M s \<Longrightarrow> pool_inv_but n T M s"
  by (auto simp: pool_inv_but_def)

lemma pool_step_inv:
  assumes T: "timer_ok T" and step: "pool_step T abort_code M s t" and inv: "pool_inv T M s"
  shows "pool_inv T M t"
  using step
proof cases
  case (start i)
  with T inv show ?thesis by (auto intro: aquire_handler_inv pool_inv_weaken)
next
  case (resume xs i ys ec cancelled)
  with T inv show ?thesis by (auto intro: resume_inv)
next
  case (cancel i ws t)
  with T inv show ?thesis by (auto intro: cancel_wait_inv)
next
  case (connected xs i ys c)
  with inv show ?thesis by (auto intro: complete_inv)
next
  case (handed xs i c ys)
  with inv show ?thesis by (auto intro: complete_inv)
next
  case (used xs c ys c')
  with inv show ?thesis by (auto intro: used_inv)
next
  case (dropped xs c ys)
  with T inv show ?thesis by (auto intro: return_connection_inv)
next
  case (resized v)
  with T inv show ?thesis by (auto intro: set_max_size_inv)
qed

lemma pool_init_inv: "pool_init T M s \<Longrightarrow> pool_inv T M s"
  by (simp add: pool_init_def pool_inv_but_def in_use_def live_ops_def)

interpretation pool: inductive_invariant "pool_init T M" "pool_step T abort_code M"
  "\<lambda>s. timer_ok T \<longrightarrow> pool_inv T M s" for T abort_code M
  by unfold_locales (auto intro: pool_init_inv pool_step_inv)

subsection \<open>Properties\<close>

text \<open>
  C6: the counter of acquired connections never wraps around: in every reachable state it is the number
  of connections outside of the pool (in an acquisition under way or with a user), and never more
  connections exist, inside and outside, than the largest size that the pool was given. A connection that
  is given back and not kept counts as destroyed with the return; in the code its destructor runs right
  after it, outside of the mutex.
\<close>

theorem pool_counter_exact:
  assumes "timer_ok T" and "reach (pool_init T M) (pool_step T abort_code M) s"
  shows "unat (num_aquired s) = length (connecting s) + length (posted s) + length (held s) \<and>
    length (idle_conns s) + unat (num_aquired s) \<le> unat M \<and>
    (held s \<noteq> [] \<longrightarrow> unat (aquired_conns s - 1) = unat (aquired_conns s) - 1)"
proof -
  have inv: "pool_inv T M s" using pool.reach_inv [OF assms(2)] assms(1) by simp
  then have n: "unat (aquired_conns s) = in_use s" by (simp add: pool_inv_but_def)
  have "unat (aquired_conns s - 1) = in_use s - 1" if "held s \<noteq> []"
    using that n by (cases "in_use s") (auto simp: in_use_def dest: unat_decr)
  with inv n show ?thesis by (simp add: pool_inv_but_def in_use_def num_aquired_def)
qed

text \<open>
  C9: no wake-up is lost: as long as an acquisition waits, every free slot of the pool has another
  acquisition that has been woken and is about to run; so once nothing is about to run, acquisitions
  wait only while the pool is full.
\<close>

theorem pool_no_lost_wakeup:
  assumes "timer_ok T" and "reach (pool_init T M) (pool_step T abort_code M) s"
    and "waiting T (cv s) \<noteq> []"
  shows "unat (max_size s) \<le> unat (num_aquired s) + length (woken s) \<and>
    (woken s = [] \<longrightarrow> num_aquired s \<ge> max_size s)"
  using pool.reach_inv [OF assms(2)] assms(1,3)
  by (auto simp: pool_inv_but_def num_aquired_def word_le_nat_alt)

text \<open>
  C28: an acquisition is in one place at a time and completes at most once; and what the pool hands out
  again was a good connection outside of any transaction when it came back.
\<close>

theorem pool_acquisitions_exclusive:
  assumes "timer_ok T" and "reach (pool_init T M) (pool_step T abort_code M) s"
  shows "distinct (waiting T (cv s) @ woken s @ connecting s @ map fst (posted s) @ completed_ops s) \<and>
    (\<forall>c \<in> set (idle_conns s) \<union> snd ` set (posted s).
       connection_status c = CONNECTION_OK \<and> transaction_status c = PQTRANS_IDLE)"
proof -
  have inv: "pool_inv T M s" using pool.reach_inv [OF assms(2)] assms(1) by simp
  then have "distinct (live_ops T s)" by (simp add: pool_inv_but_def)
  moreover from inv have "\<forall>c \<in> set (idle_conns s) \<union> snd ` set (posted s). reusable c"
    by (simp add: pool_inv_but_def)
  ultimately show ?thesis unfolding live_ops_def reusable_def by (rule conjI)
qed

subsection \<open>A concrete pool\<close>

definition list_timer :: "nat list timer" where
  "list_timer =
     \<lparr>waiting = (\<lambda>t. t), async_wait = (\<lambda>i t. t @ [i]), cancel = (\<lambda>t. (t, [])),
      cancel_one = (\<lambda>t. (take 1 t, drop 1 t)), cancel_wait = (\<lambda>i t. ([i], remove1 i t))\<rparr>"

lemma list_timer_ok: "timer_ok list_timer"
  by (simp add: timer_ok_def list_timer_def)

definition small_pool :: "nat list pool" where
  "small_pool = \<lparr>max_size = 1, aquired_conns = 0, idle_conns = [], cv = [], woken = [], connecting = [], posted = [],
     held = [], completed_ops = []\<rparr>"

abbreviation reach_small :: "nat list pool \<Rightarrow> bool" where
  "reach_small \<equiv> reach (pool_init list_timer 1) (pool_step list_timer no_error 1)"

text \<open>Two acquisitions of a pool of one connection: the first connects, the second waits.\<close>

lemma reach_two_acquisitions:
  "reach_small (small_pool\<lparr>aquired_conns := 1, connecting := [1], cv := [2]\<rparr>)"
proof -
  have 0: "reach_small small_pool"
    by (rule reach.intros) (simp add: pool_init_def small_pool_def list_timer_def)
  have start: "reach_small (aquire_handler list_timer no_error i no_error False s)"
    if "reach_small s" "i \<notin> set (live_ops list_timer s)" for i s
    using that(1) by (rule reach_step) (rule pool_step.start [OF that(2)])
  have "aquire_handler list_timer no_error 1 no_error False small_pool =
      small_pool\<lparr>aquired_conns := 1, connecting := [1]\<rparr>"
    by (simp add: aquire_handler_def small_pool_def)
  with start [OF 0, of 1] have 1: "reach_small (small_pool\<lparr>aquired_conns := 1, connecting := [1]\<rparr>)"
    by (simp add: live_ops_def small_pool_def list_timer_def)
  have "aquire_handler list_timer no_error 2 no_error False (small_pool\<lparr>aquired_conns := 1, connecting := [1]\<rparr>) =
      small_pool\<lparr>aquired_conns := 1, connecting := [1], cv := [2]\<rparr>"
    by (simp add: aquire_handler_def small_pool_def list_timer_def)
  with start [OF 1, of 2] show ?thesis
    by (simp add: live_ops_def small_pool_def list_timer_def)
qed

theorem pool_counter_exact_witness:
  "unat (num_aquired (small_pool\<lparr>aquired_conns := 1, connecting := [1], cv := [2]\<rparr>)) = 1"
  using pool_counter_exact [OF list_timer_ok reach_two_acquisitions] by (simp add: small_pool_def)

theorem pool_no_lost_wakeup_witness:
  "num_aquired (small_pool\<lparr>aquired_conns := 1, connecting := [1], cv := [2]\<rparr>) \<ge>
   max_size (small_pool\<lparr>aquired_conns := 1, connecting := [1], cv := [2]\<rparr>)"
  using pool_no_lost_wakeup [OF list_timer_ok reach_two_acquisitions] by (simp add: small_pool_def list_timer_def)

theorem pool_acquisitions_exclusive_witness:
  "distinct (waiting list_timer [2] @ [] @ [1 :: nat] @ [] @ [])"
  using pool_acquisitions_exclusive [OF list_timer_ok reach_two_acquisitions] by (simp add: small_pool_def list_timer_def)

subsection \<open>Refinement of a bounded set of connections\<close>

text \<open>
  What the pool promises to its users, without timers, handlers and words: at most \<open>m\<close> connections are
  in use or spare, one is made only when none is spare, and one that comes back is kept or discarded.
\<close>

record bounded =
  used_count :: nat
  spare_count :: nat

inductive bounded_step :: "nat \<Rightarrow> bounded \<Rightarrow> bounded \<Rightarrow> bool" for m :: nat where
  make: "spare_count b = 0 \<Longrightarrow> used_count b < m \<Longrightarrow> bounded_step m b (b\<lparr>used_count := used_count b + 1\<rparr>)"
| reuse: "spare_count b = Suc n \<Longrightarrow> used_count b < m \<Longrightarrow>
    bounded_step m b \<lparr>used_count = used_count b + 1, spare_count = n\<rparr>"
| keep: "used_count b = Suc n \<Longrightarrow> bounded_step m b \<lparr>used_count = n, spare_count = spare_count b + 1\<rparr>"
| discard: "used_count b = Suc n \<Longrightarrow> bounded_step m b (b\<lparr>used_count := n\<rparr>)"

definition abstract_pool :: "'t pool \<Rightarrow> bounded" where
  "abstract_pool s = \<lparr>used_count = in_use s, spare_count = length (idle_conns s)\<rparr>"

inductive_simps bounded_step_iff: "bounded_step m b b'"

lemma aquire_handler_refines:
  assumes inv: "pool_inv_but n T M s"
  shows "bounded_step (unat M) (abstract_pool s) (abstract_pool (aquire_handler T abort_code i ec cancelled s)) \<or>
    abstract_pool (aquire_handler T abort_code i ec cancelled s) = abstract_pool s"
proof (cases "aquired_conns s \<ge> max_size s")
  case True
  then show ?thesis by (simp add: aquire_handler_def abstract_pool_def in_use_def)
next
  case False
  with inv have "in_use s < unat M"
    by (auto simp: pool_inv_but_def word_le_nat_alt not_le)
  with False show ?thesis
    by (cases "idle_conns s")
      (auto simp: aquire_handler_def abstract_pool_def in_use_def Let_def bounded_step_iff)
qed

lemma return_connection_refines:
  assumes "held s = xs @ c # ys"
  shows "bounded_step m (abstract_pool s) (abstract_pool (return_connection T c (s\<lparr>held := xs @ ys\<rparr>)))"
proof -
  obtain ws t where one: "cancel_one T (cv s) = (ws, t)" by fastforce
  show ?thesis
    unfolding return_connection_fields [where s = "s\<lparr>held := xs @ ys\<rparr>", simplified, OF one]
    using assms by (auto simp: abstract_pool_def in_use_def bounded_step_iff)
qed

text \<open>
  C10: the pool implements a bounded set of connections: every step of the pool is a step of the set, or
  invisible in it.
\<close>

theorem pool_refines_bounded:
  assumes "timer_ok T" and "reach (pool_init T M) (pool_step T abort_code M) s"
    and "pool_step T abort_code M s t"
  shows "bounded_step (unat M) (abstract_pool s) (abstract_pool t) \<or> abstract_pool t = abstract_pool s"
proof -
  have inv: "pool_inv T M s" using pool.reach_inv [OF assms(2)] assms(1) by simp
  show ?thesis
    using assms(3)
  proof cases
    case (start i)
    with aquire_handler_refines [OF inv] show ?thesis by simp
  next
    case (resume xs i ys ec cancelled)
    have "pool_inv_but 1 T M (s\<lparr>woken := xs @ ys\<rparr>)"
      using inv resume(2) by (auto simp: pool_inv_but_def live_ops_def in_use_def)
    from aquire_handler_refines [OF this, of abort_code i ec cancelled] resume show ?thesis
      by (simp add: abstract_pool_def in_use_def)
  next
    case (dropped xs c ys)
    with return_connection_refines show ?thesis by blast
  next
    case (resized v)
    then show ?thesis by (simp add: set_max_size_def abstract_pool_def in_use_def split: prod.split)
  qed (auto simp: abstract_pool_def in_use_def aquire_complete_def)
qed

theorem pool_refines_bounded_witness:
  "bounded_step (unat (1 :: 64 word)) (abstract_pool small_pool)
       (abstract_pool (aquire_handler list_timer no_error 1 no_error False small_pool)) \<or>
   abstract_pool (aquire_handler list_timer no_error 1 no_error False small_pool) = abstract_pool small_pool"
proof (rule pool_refines_bounded [OF list_timer_ok])
  show "reach_small small_pool"
    by (rule reach.intros) (simp add: pool_init_def small_pool_def list_timer_def)
  show "pool_step list_timer no_error 1 small_pool (aquire_handler list_timer no_error 1 no_error False small_pool)"
    by (rule pool_step.start) (simp add: live_ops_def small_pool_def list_timer_def)
qed

end
