(* ===== verification/PooledConnection.thy ===== *)
theory PooledConnection
  imports Lifecycle ConnectionPool
begin

text \<open>
  The connections that the pool gives to its users (\<open>basic_pooled_connection\<close> of
  include/psql/connection_pool.hpp) with their handles: how a connection travels from the pool to a user,
  between the variables of users, and back, and that its descriptor is closed once wherever it ends.
\<close>

subsection \<open>The operations\<close>

text \<open>\<open>conn_pool\<close> is the weak pointer: None is empty, and the pool it refers to may be gone.\<close>

record ('p, 'k) pooled =
  conn_pool :: "nat option"
  pooled_conn :: "('p, 'k) handles"

text \<open>
  The queues of idle connections of the pools, None for a pool that was destroyed. Queues grow at the end.
\<close>

type_synonym ('p, 'k) queues = "('p, 'k) handles list option list"

definition lock :: "nat option \<Rightarrow> ('p, 'k) queues \<Rightarrow> (nat \<times> ('p, 'k) handles list) option" where
  "lock l qs =
     (case l of None \<Rightarrow> None
      | Some i \<Rightarrow> if i < length qs then map_option (Pair i) (qs ! i) else None)"

text \<open>A pooled connection that a user declares has a connection of its own and no pool.\<close>

definition new_pooled :: "('p, 'k, 'w) handle_api \<Rightarrow> ('p, 'k) pooled" where
  "new_pooled A = \<lparr>conn_pool = None, pooled_conn = new_handles A\<rparr>"

text \<open>
  The completion of an acquisition moves the connection of the handler into the argument of the
  constructor, and from there into the member; both are destroyed empty.
\<close>

definition construct_pooled ::
  "('p, 'k, 'w) handle_api \<Rightarrow> nat option \<Rightarrow> ('p, 'k) handles \<Rightarrow> 'w \<Rightarrow> ('p, 'k) pooled \<times> 'w" where
  "construct_pooled A l h w =
     (case move_construct A h of (arg, h') \<Rightarrow>
      case move_construct A arg of (member, arg') \<Rightarrow>
        (\<lparr>conn_pool = l, pooled_conn = member\<rparr>,
         destroy_connection A h' (destroy_connection A arg' w)))"

text \<open>Taking an idle connection: it is assigned to the fresh one of the handler, then popped.\<close>

definition take_idle ::
  "('p, 'k, 'w) handle_api \<Rightarrow> ('p, 'k) handles \<Rightarrow> 'w \<Rightarrow> ('p, 'k) handles \<times> 'w" where
  "take_idle A front w =
     (case move_assign A (new_handles A) front w of (conn, front', w') \<Rightarrow>
        (conn, destroy_connection A front' w'))"

text \<open>
  What \<open>return_connection\<close> does with the connection it is given, which stays with the caller unless it
  is moved into the queue. \<open>view\<close> gives the two statuses that libpq reports for a handle.
\<close>

definition return_handles ::
  "('p, 'k, 'w) handle_api \<Rightarrow> ('p option \<Rightarrow> pool_conn) \<Rightarrow> ('p, 'k) handles \<Rightarrow> ('p, 'k) handles list \<Rightarrow>
   ('p, 'k) handles \<times> ('p, 'k) handles list" where
  "return_handles A view conn q =
     (if connection_status (view (pgconn_ptr conn)) \<noteq> CONNECTION_OK then (conn, q)
      else if transaction_status (view (pgconn_ptr conn)) \<noteq> PQTRANS_IDLE then (conn, q)
      else (case move_construct A conn of (kept, conn') \<Rightarrow> (conn', q @ [kept])))"

definition destroy_pooled ::
  "('p, 'k, 'w) handle_api \<Rightarrow> ('p option \<Rightarrow> pool_conn) \<Rightarrow> ('p, 'k) pooled \<Rightarrow> ('p, 'k) queues \<Rightarrow> 'w \<Rightarrow>
   ('p, 'k) queues \<times> 'w" where
  "destroy_pooled A view x qs w =
     (case lock (conn_pool x) qs of
        None \<Rightarrow> (qs, destroy_connection A (pooled_conn x) w)
      | Some (i, q) \<Rightarrow>
          (case return_handles A view (pooled_conn x) q of (conn, q') \<Rightarrow>
             (qs[i := Some q'], destroy_connection A conn w)))"

definition move_pooled ::
  "('p, 'k, 'w) handle_api \<Rightarrow> ('p, 'k) pooled \<Rightarrow> ('p, 'k) pooled \<times> ('p, 'k) pooled" where
  "move_pooled A x =
     (case move_construct A (pooled_conn x) of (h, h') \<Rightarrow>
        (\<lparr>conn_pool = conn_pool x, pooled_conn = h\<rparr>, \<lparr>conn_pool = None, pooled_conn = h'\<rparr>))"

text \<open>\<open>std::swap\<close> of two connections: a move construction and two move assignments.\<close>

definition swap_connections ::
  "('p, 'k, 'w) handle_api \<Rightarrow> ('p, 'k) handles \<Rightarrow> ('p, 'k) handles \<Rightarrow> 'w \<Rightarrow>
   ('p, 'k) handles \<times> ('p, 'k) handles \<times> 'w" where
  "swap_connections A a b w =
     (case move_construct A a of (tmp, a1) \<Rightarrow>
      case move_assign A a1 b w of (a2, b1, w1) \<Rightarrow>
      case move_assign A b1 tmp w1 of (b2, tmp1, w2) \<Rightarrow>
        (a2, b2, destroy_connection A tmp1 w2))"

definition assign_pooled ::
  "('p, 'k, 'w) handle_api \<Rightarrow> ('p, 'k) pooled \<Rightarrow> ('p, 'k) pooled \<Rightarrow> 'w \<Rightarrow>
   ('p, 'k) pooled \<times> ('p, 'k) pooled \<times> 'w" where
  "assign_pooled A this other w =
     (case swap_connections A (pooled_conn this) (pooled_conn other) w of (a, b, w') \<Rightarrow>
        (\<lparr>conn_pool = conn_pool other, pooled_conn = a\<rparr>, \<lparr>conn_pool = conn_pool this, pooled_conn = b\<rparr>, w'))"

text \<open>Destroying a pool destroys its queue.\<close>

definition destroy_queue :: "('p, 'k, 'w) handle_api \<Rightarrow> ('p, 'k) handles list \<Rightarrow> 'w \<Rightarrow> 'w" where
  "destroy_queue A q w = fold (destroy_connection A) q w"

text \<open>What the queue gets is what the transition system of the pool keeps.\<close>

lemma return_handles_refines:
  assumes "map (view \<circ> pgconn_ptr) q = idle_conns s" and "return_handles A view h q = (h', q')"
  shows "map (view \<circ> pgconn_ptr) q' = idle_conns (return_connection T (view (pgconn_ptr h)) s)"
  using assms by (auto simp: return_handles_def return_connection_def move_construct_def Let_def split: prod.splits if_splits)

subsection \<open>The users of pools\<close>

text \<open>
  The variables of users, the pools, the descriptors that libpq opened so far, each with the pool it was
  opened for, and the outside. Users
  acquire, declare, move, assign and drop pooled connections and destroy pools, in any order; they leave
  opening and closing of the connections to the pool.
\<close>

record ('p, 'k, 'w) users =
  variables :: "('p, 'k) pooled list"
  pools :: "('p, 'k) queues"
  opened :: "(nat \<times> int) list"
  outside :: 'w

definition descriptor :: "('p, 'k, 'w) handle_api \<Rightarrow> ('p, 'k) handles \<Rightarrow> int list" where
  "descriptor A h = (case pgconn_ptr h of None \<Rightarrow> [] | Some p \<Rightarrow> [api_socket A p])"

inductive user_step ::
  "('p, 'k, 'w) handle_api \<Rightarrow> ('p option \<Rightarrow> pool_conn) \<Rightarrow> ('p, 'k, 'w) users \<Rightarrow> ('p, 'k, 'w) users \<Rightarrow> bool"
  for A :: "('p, 'k, 'w) handle_api" and view :: "'p option \<Rightarrow> pool_conn" where
  acquire_new: "i < length (pools S) \<Longrightarrow> pools S ! i = Some [] \<Longrightarrow>
    open_connection A conninfo (new_handles A) (outside S) = (r, h, w1) \<Longrightarrow>
    construct_pooled A (Some i) h w1 = (x, w2) \<Longrightarrow>
    user_step A view S
      (S\<lparr>variables := variables S @ [x], opened := opened S @ map (Pair i) (descriptor A h), outside := w2\<rparr>)"
| acquire_idle: "i < length (pools S) \<Longrightarrow> pools S ! i = Some (front # q) \<Longrightarrow>
    take_idle A front (outside S) = (h, w1) \<Longrightarrow> construct_pooled A (Some i) h w1 = (x, w2) \<Longrightarrow>
    user_step A view S
      (S\<lparr>variables := variables S @ [x], pools := (pools S)[i := Some q], outside := w2\<rparr>)"
| acquire_cancelled: "construct_pooled A None (new_handles A) (outside S) = (x, w) \<Longrightarrow>
    user_step A view S (S\<lparr>variables := variables S @ [x], outside := w\<rparr>)"
| declare_variable: "user_step A view S (S\<lparr>variables := variables S @ [new_pooled A]\<rparr>)"
| move: "variables S = xs @ x # ys \<Longrightarrow> move_pooled A x = (y, x') \<Longrightarrow>
    user_step A view S (S\<lparr>variables := xs @ x' # ys @ [y]\<rparr>)"
| assign: "variables S = xs @ x # ys @ y # zs \<Longrightarrow> assign_pooled A x y (outside S) = (x', y', w) \<Longrightarrow>
    user_step A view S (S\<lparr>variables := xs @ x' # ys @ y' # zs, outside := w\<rparr>)"
| assign_back: "variables S = xs @ x # ys @ y # zs \<Longrightarrow> assign_pooled A y x (outside S) = (y', x', w) \<Longrightarrow>
    user_step A view S (S\<lparr>variables := xs @ x' # ys @ y' # zs, outside := w\<rparr>)"
| drop: "variables S = xs @ x # ys \<Longrightarrow> destroy_pooled A view x (pools S) (outside S) = (qs, w) \<Longrightarrow>
    user_step A view S (S\<lparr>variables := xs @ ys, pools := qs, outside := w\<rparr>)"
| destroy_pool: "i < length (pools S) \<Longrightarrow> pools S ! i = Some q \<Longrightarrow>
    user_step A view S (S\<lparr>pools := (pools S)[i := None], outside := destroy_queue A q (outside S)\<rparr>)"

definition users_init :: "('w \<Rightarrow> int list) \<Rightarrow> ('p, 'k, 'w) users \<Rightarrow> bool" where
  "users_init closed S \<longleftrightarrow>
     variables S = [] \<and> set (pools S) \<subseteq> {Some []} \<and> opened S = [] \<and> closed (outside S) = []"

subsection \<open>Every descriptor has one owner\<close>

definition queued :: "('p, 'k) queues \<Rightarrow> ('p, 'k) handles list" where
  "queued qs = concat (map (\<lambda>q. case q of None \<Rightarrow> [] | Some hs \<Rightarrow> hs) qs)"

lemma queued_simps [simp]:
  "queued [] = []" "queued (None # qs) = queued qs" "queued (Some hs # qs) = hs @ queued qs"
  "queued (qs @ rs) = queued qs @ queued rs"
  by (simp_all add: queued_def)

definition owners :: "('p, 'k, 'w) users \<Rightarrow> ('p, 'k) handles list" where
  "owners S = map pooled_conn (variables S) @ queued (pools S)"

text \<open>The descriptors that were opened are those that were closed and those of the owners, each once.\<close>

definition users_inv ::
  "('p, 'k, 'w) handle_api \<Rightarrow> ('k \<Rightarrow> int option) \<Rightarrow> ('w \<Rightarrow> int list) \<Rightarrow> ('p, 'k, 'w) users \<Rightarrow> bool" where
  "users_inv A held_fd closed S \<longleftrightarrow>
     (\<forall>h \<in> set (owners S). owned A held_fd h) \<and>
     mset (map snd (opened S)) = mset (closed (outside S)) + mset (concat (map (descriptor A) (owners S)))"

lemma pools_split:
  assumes "i < length qs" and "qs ! i = q"
  shows "\<exists>as bs. qs = as @ q # bs \<and> (\<forall>q'. qs[i := q'] = as @ q' # bs)"
  using id_take_nth_drop [OF assms(1)] upd_conv_take_nth_drop [OF assms(1)] assms(2) by blast

lemma lock_Some_iff: "lock l qs = Some (i, q) \<longleftrightarrow> l = Some i \<and> i < length qs \<and> qs ! i = Some q"
  by (auto simp: lock_def split: option.splits)

lemma descriptor_new [simp]: "descriptor A (new_handles A) = []"
  by (simp add: descriptor_def new_handles_def)

lemma owned_new [simp]: "handle_laws A held_fd closed \<Longrightarrow> owned A held_fd (new_handles A)"
  using handle_laws_simps(5) [of A held_fd closed] by (simp add: owned_def new_handles_def)

lemma destroy_closes:
  "handle_laws A held_fd closed \<Longrightarrow> owned A held_fd h \<Longrightarrow>
   closed (destroy_connection A h w) = closed w @ descriptor A h"
  by (simp add: destroy_owned descriptor_def)

lemma destroy_new: "handle_laws A held_fd closed \<Longrightarrow> closed (destroy_connection A (new_handles A) w) = closed w"
  by (simp add: destroy_closes)

lemma assign_new:
  assumes "handle_laws A held_fd closed" and "move_assign A (new_handles A) h w = (t, s, w')"
  shows "t = h \<and> s = new_handles A \<and> closed w' = closed w"
  using assms(2) handle_laws_simps(4,5) [OF assms(1)]
  by (auto simp: move_assign_def reset_pgconn_def new_handles_def)

lemma construct_closes:
  assumes "handle_laws A held_fd closed" and "construct_pooled A l h w = (x, w')"
  shows "x = \<lparr>conn_pool = l, pooled_conn = h\<rparr> \<and> closed w' = closed w"
  using assms(2) destroy_new [OF assms(1)] by (auto simp: construct_pooled_def move_construct_def)

lemma take_closes:
  assumes "handle_laws A held_fd closed" and "take_idle A front w = (h, w')"
  shows "h = front \<and> closed w' = closed w"
proof -
  obtain t s w1 where m: "move_assign A (new_handles A) front w = (t, s, w1)" by (metis prod_cases3)
  from assign_new [OF assms(1) m] assms(2) m destroy_new [OF assms(1)] show ?thesis
    by (auto simp: take_idle_def)
qed

lemma swap_closes:
  assumes "handle_laws A held_fd closed" and "swap_connections A a b w = (a', b', w')"
  shows "a' = b \<and> b' = a \<and> closed w' = closed w"
proof -
  obtain t s w1 where 1: "move_assign A (new_handles A) b w = (t, s, w1)" by (metis prod_cases3)
  note c1 = assign_new [OF assms(1) 1]
  obtain t' s' w2 where 2: "move_assign A (new_handles A) a w1 = (t', s', w2)" by (metis prod_cases3)
  from c1 1 2 assign_new [OF assms(1) 2] assms(2) destroy_new [OF assms(1)] show ?thesis
    by (auto simp: swap_connections_def move_construct_def)
qed

lemma return_cases:
  "return_handles A view h q = (h', q') \<Longrightarrow> h' = h \<and> q' = q \<or> h' = new_handles A \<and> q' = q @ [h]"
  by (auto simp: return_handles_def move_construct_def split: if_splits)

lemma destroy_queue_closes:
  assumes "handle_laws A held_fd closed"
  shows "\<forall>h \<in> set q. owned A held_fd h \<Longrightarrow>
    closed (destroy_queue A q w) = closed w @ concat (map (descriptor A) q)"
  by (induction q arbitrary: w) (simp_all add: destroy_queue_def destroy_closes [OF assms])

lemma open_closes:
  assumes "handle_laws A held_fd closed" and "open_connection A c (new_handles A) w = (r, h, w')"
  shows "owned A held_fd h \<and> closed w' = closed w"
  using open_owned [OF assms(1) _ assms(2)] assms(2) handle_laws_simps(1,5) [OF assms(1)]
  by (auto simp: open_connection_def reset_pgconn_def new_handles_def split: prod.splits if_splits)

lemma assign_closes:
  assumes "handle_laws A held_fd closed" and "assign_pooled A x y w = (x', y', w')"
  shows "x' = y \<and> y' = x \<and> closed w' = closed w"
proof -
  obtain a b w1 where s: "swap_connections A (pooled_conn x) (pooled_conn y) w = (a, b, w1)" by (metis prod_cases3)
  from swap_closes [OF assms(1) s] s assms(2) show ?thesis by (auto simp: assign_pooled_def)
qed

text \<open>
  A step that takes the connections \<open>hs\<close> from the owners, adds empty ones, and closes what it took keeps
  the account.
\<close>

lemma mset_concat_map: "mset (concat (map f hs)) = (\<Sum>h \<in># mset hs. mset (f h))"
  by (induction hs) simp_all

lemma users_inv_closed:
  assumes laws: "handle_laws A held_fd closed" and inv: "users_inv A held_fd closed S"
    and moved: "mset (owners S' @ hs) = mset (owners S @ ns)" and ns: "set ns \<subseteq> {new_handles A}"
    and "opened S' = opened S"
    and "closed (outside S') = closed (outside S) @ concat (map (descriptor A) hs)"
  shows "users_inv A held_fd closed S'"
proof -
  have "set (owners S' @ hs) = set (owners S @ ns)" using moved by (rule mset_eq_setD)
  then have "set (owners S') \<subseteq> insert (new_handles A) (set (owners S))" using ns by auto
  with inv owned_new [OF laws] have "\<forall>h \<in> set (owners S'). owned A held_fd h" by (auto simp: users_inv_def)
  moreover have "mset (concat (map (descriptor A) (owners S' @ hs))) = mset (concat (map (descriptor A) (owners S @ ns)))"
    unfolding mset_concat_map moved ..
  moreover have "concat (map (descriptor A) ns) = []" using ns by auto
  ultimately show ?thesis using inv assms(5,6) by (simp add: users_inv_def) (metis union_commute)
qed

lemma drop_inv:
  assumes laws: "handle_laws A held_fd closed" and inv: "users_inv A held_fd closed S"
    and vars: "variables S = xs @ x # ys" and d: "destroy_pooled A view x (pools S) (outside S) = (qs, w)"
  shows "users_inv A held_fd closed (S\<lparr>variables := xs @ ys, pools := qs, outside := w\<rparr>)"
proof -
  have owned: "owned A held_fd (pooled_conn x)" using inv vars by (simp add: users_inv_def owners_def)
  consider (gone) "qs = pools S" "w = destroy_connection A (pooled_conn x) (outside S)"
    | (kept) as q bs where "pools S = as @ Some q # bs" "qs = as @ Some (q @ [pooled_conn x]) # bs"
        "w = destroy_connection A (new_handles A) (outside S)"
  proof (cases "lock (conn_pool x) (pools S)")
    case None
    with d that(1) show thesis by (simp add: destroy_pooled_def)
  next
    case (Some l)
    obtain i q where l: "l = (i, q)" by fastforce
    with Some have i: "i < length (pools S)" "pools S ! i = Some q" by (simp_all add: lock_Some_iff)
    obtain as bs where p: "pools S = as @ Some q # bs" "\<forall>q'. (pools S)[i := q'] = as @ q' # bs"
      using pools_split [OF i] by blast
    obtain h q' where r: "return_handles A view (pooled_conn x) q = (h, q')" by fastforce
    with d Some l have w: "qs = (pools S)[i := Some q']" "w = destroy_connection A h (outside S)"
      by (simp_all add: destroy_pooled_def)
    from return_cases [OF r] show thesis
    proof
      assume "h = pooled_conn x \<and> q' = q"
      with w i have "qs = pools S" "w = destroy_connection A (pooled_conn x) (outside S)"
        by (simp_all add: list_update_same_conv)
      then show thesis by (rule that(1))
    next
      assume "h = new_handles A \<and> q' = q @ [pooled_conn x]"
      with w p have "qs = as @ Some (q @ [pooled_conn x]) # bs" "w = destroy_connection A (new_handles A) (outside S)"
        by simp_all
      with p(1) show thesis by (rule that(2))
    qed
  qed
  then show ?thesis
  proof cases
    case gone
    then show ?thesis
      using vars by (intro users_inv_closed [OF laws inv, of _ "[pooled_conn x]" "[]"])
        (simp_all add: owners_def destroy_closes [OF laws owned])
  next
    case kept
    then show ?thesis
      using vars by (intro users_inv_closed [OF laws inv, of _ "[]" "[]"])
        (simp_all add: owners_def destroy_new [OF laws])
  qed
qed

lemma user_step_inv:
  assumes laws: "handle_laws A held_fd closed" and step: "user_step A view S S'" and inv: "users_inv A held_fd closed S"
  shows "users_inv A held_fd closed S'"
  using step
proof cases
  case (acquire_new i conninfo r h w1 x w2)
  with inv construct_closes [OF laws acquire_new(5)] open_closes [OF laws acquire_new(4)] show ?thesis
    by (simp add: users_inv_def owners_def comp_def)
next
  case (acquire_idle i front q h w1 x w2)
  obtain as bs where "pools S = as @ Some (front # q) # bs" "\<forall>q'. (pools S)[i := q'] = as @ q' # bs"
    using pools_split [OF acquire_idle(2,3)] by blast
  with acquire_idle(1) construct_closes [OF laws acquire_idle(5)] take_closes [OF laws acquire_idle(4)] show ?thesis
    by (intro users_inv_closed [OF laws inv, of _ "[]" "[]"]) (simp_all add: owners_def)
next
  case (acquire_cancelled x w)
  with construct_closes [OF laws acquire_cancelled(2)] show ?thesis
    by (intro users_inv_closed [OF laws inv, of _ "[]" "[new_handles A]"]) (simp_all add: owners_def)
next
  case declare_variable
  then show ?thesis
    by (intro users_inv_closed [OF laws inv, of _ "[]" "[new_handles A]"]) (simp_all add: owners_def new_pooled_def)
next
  case (move xs x ys y x')
  then show ?thesis
    by (intro users_inv_closed [OF laws inv, of _ "[]" "[new_handles A]"])
      (auto simp: owners_def move_pooled_def move_construct_def)
next
  case (assign xs x ys y zs x' y' w)
  with assign_closes [OF laws assign(3)] show ?thesis
    by (intro users_inv_closed [OF laws inv, of _ "[]" "[]"]) (simp_all add: owners_def)
next
  case (assign_back xs x ys y zs y' x' w)
  with assign_closes [OF laws assign_back(3)] show ?thesis
    by (intro users_inv_closed [OF laws inv, of _ "[]" "[]"]) (simp_all add: owners_def)
next
  case (drop xs x ys qs w)
  with drop_inv [OF laws inv] show ?thesis by blast
next
  case (destroy_pool i q)
  obtain as bs where p: "pools S = as @ Some q # bs" "\<forall>q'. (pools S)[i := q'] = as @ q' # bs"
    using pools_split [OF destroy_pool(2,3)] by blast
  then have "\<forall>h \<in> set q. owned A held_fd h" using inv by (simp add: users_inv_def owners_def)
  with p destroy_pool(1) destroy_queue_closes [OF laws] show ?thesis
    by (intro users_inv_closed [OF laws inv, of _ q "[]"]) (simp_all add: owners_def)
qed

lemma queued_empty: "set qs \<subseteq> {Some []} \<Longrightarrow> queued qs = []"
  by (induction qs) auto

lemma users_init_inv:
  assumes "users_init closed S"
  shows "users_inv A held_fd closed S"
proof -
  have "queued (pools S) = []" using assms by (intro queued_empty) (simp add: users_init_def)
  with assms show ?thesis by (simp add: users_init_def users_inv_def owners_def)
qed

interpretation users: inductive_invariant "users_init closed" "user_step A view"
  "\<lambda>S. handle_laws A held_fd closed \<longrightarrow> users_inv A held_fd closed S" for A view held_fd closed
  by unfold_locales (blast intro: users_init_inv user_step_inv)+

subsection \<open>Properties\<close>

text \<open>
  C12: however users acquire, move, assign and drop pooled connections and destroy pools, every
  descriptor that libpq opened either has been closed, once, or belongs to one connection, of a user or
  in the queue of a pool; when the users are gone and the queues empty, each was closed exactly once.
\<close>

theorem pooled_descriptors_closed_once:
  assumes "handle_laws A held_fd closed" and "reach (users_init closed) (user_step A view) S"
  shows "mset (map snd (opened S)) = mset (closed (outside S)) +
      mset (concat (map (descriptor A) (map pooled_conn (variables S) @ queued (pools S)))) \<and>
    (variables S = [] \<and> queued (pools S) = [] \<longrightarrow> mset (closed (outside S)) = mset (map snd (opened S)))"
proof -
  have "users_inv A held_fd closed S" using users.reach_inv [OF assms(2)] assms(1) by blast
  then show ?thesis by (simp add: users_inv_def owners_def)
qed

text \<open>A connection that is made for a user, and dropped while it is in a transaction.\<close>

definition busy_view :: "int option \<Rightarrow> pool_conn" where
  "busy_view p = \<lparr>connection_status = CONNECTION_OK, transaction_status = PQTRANS_INTRANS\<rparr>"

definition acquired_conn :: "(int, int option) pooled" where
  "acquired_conn = \<lparr>conn_pool = Some 0, pooled_conn = \<lparr>pgconn_ptr = Some 4, socket_obj = Some 4\<rparr>\<rparr>"

abbreviation simple_reach :: "(int, int option, int list) users \<Rightarrow> bool" where
  "simple_reach \<equiv> reach (users_init (\<lambda>w. w)) (user_step simple_handles busy_view)"

lemma reach_acquired:
  "simple_reach \<lparr>variables = [acquired_conn], pools = [Some []], opened = [(0, 4)], outside = []\<rparr>"
proof -
  let ?S = "\<lparr>variables = [], pools = [Some []], opened = [], outside = []\<rparr> :: (int, int option, int list) users"
  have 0: "simple_reach ?S"
    by (rule reach_init) (simp add: users_init_def)
  have o: "open_connection simple_handles ''host'' (new_handles simple_handles) (outside ?S) =
      (Inr no_error, pooled_conn acquired_conn, [])"
    by (simp add: open_connection_def simple_handles_def reset_pgconn_def new_handles_def acquired_conn_def)
  have c: "construct_pooled simple_handles (Some 0) (pooled_conn acquired_conn) [] = (acquired_conn, [])"
    by (simp add: construct_pooled_def move_construct_def new_handles_def simple_handles_def destroy_connection_def
        acquired_conn_def)
  have "user_step simple_handles busy_view ?S (?S\<lparr>variables := variables ?S @ [acquired_conn],
      opened := opened ?S @ map (Pair 0) (descriptor simple_handles (pooled_conn acquired_conn)), outside := []\<rparr>)"
    by (rule user_step.acquire_new [of 0 ?S simple_handles "''host''", OF _ _ o c]) simp_all
  from reach_step [OF 0 this] show ?thesis
    by (simp add: descriptor_def simple_handles_def acquired_conn_def)
qed

lemma reach_dropped: "simple_reach \<lparr>variables = [], pools = [Some []], opened = [(0, 4)], outside = [4]\<rparr>"
proof -
  have "destroy_pooled simple_handles busy_view acquired_conn [Some []] [] = ([Some []], [4])"
    by (simp add: destroy_pooled_def lock_def return_handles_def busy_view_def destroy_connection_def
        simple_handles_def acquired_conn_def)
  with reach_step [OF reach_acquired user_step.drop [of _ "[]" acquired_conn "[]"]] show ?thesis by simp
qed

theorem pooled_descriptors_closed_once_witness: "mset [4 :: int] = mset [4] + mset []"
  using pooled_descriptors_closed_once [OF simple_handle_laws reach_dropped] by simp

subsection \<open>Connections stay with their pool\<close>

definition at_home :: "('p, 'k, 'w) handle_api \<Rightarrow> (nat \<times> int) list \<Rightarrow> nat \<Rightarrow> ('p, 'k) handles \<Rightarrow> bool" where
  "at_home A os i h \<longleftrightarrow> (\<forall>fd \<in> set (descriptor A h). (i, fd) \<in> set os)"

text \<open>Every connection is one that was opened for its pool: the pool of its variable, or of its queue.\<close>

definition home_inv :: "('p, 'k, 'w) handle_api \<Rightarrow> ('p, 'k, 'w) users \<Rightarrow> bool" where
  "home_inv A S \<longleftrightarrow>
     (\<forall>x \<in> set (variables S). pgconn_ptr (pooled_conn x) \<noteq> None \<longrightarrow>
        (\<exists>i. conn_pool x = Some i \<and> at_home A (opened S) i (pooled_conn x))) \<and>
     (\<forall>i q. i < length (pools S) \<longrightarrow> pools S ! i = Some q \<longrightarrow> (\<forall>h \<in> set q. at_home A (opened S) i h))"

lemma at_home_more [intro]: "at_home A os i h \<Longrightarrow> at_home A (os @ os') i h"
  by (auto simp: at_home_def)

lemma home_inv_queue:
  assumes "home_inv A S" and "i < length (pools S)" and "pools S ! i = Some q"
  shows "\<forall>h \<in> set q. at_home A (opened S) i h"
  using assms by (auto simp: home_inv_def)

text \<open>Changing variables and one queue.\<close>

lemma home_inv_update:
  assumes "home_inv A S" and "opened S' = opened S"
    and "\<And>x. x \<in> set (variables S') \<Longrightarrow> x \<in> set (variables S) \<or> pgconn_ptr (pooled_conn x) = None \<or>
      (\<exists>i. conn_pool x = Some i \<and> at_home A (opened S) i (pooled_conn x))"
    and "pools S' = pools S \<or>
      (\<exists>i q. pools S' = (pools S)[i := q] \<and> (\<forall>h \<in> set (case q of None \<Rightarrow> [] | Some hs \<Rightarrow> hs). at_home A (opened S) i h))"
  shows "home_inv A S'"
proof -
  have "\<forall>i q. i < length (pools S') \<longrightarrow> pools S' ! i = Some q \<longrightarrow> (\<forall>h \<in> set q. at_home A (opened S) i h)"
    using assms(4)
  proof
    assume "pools S' = pools S"
    with assms(1) show ?thesis by (simp add: home_inv_def)
  next
    assume "\<exists>i q. pools S' = (pools S)[i := q] \<and> (\<forall>h \<in> set (case q of None \<Rightarrow> [] | Some hs \<Rightarrow> hs). at_home A (opened S) i h)"
    then obtain i q where q: "pools S' = (pools S)[i := q]"
      "\<forall>h \<in> set (case q of None \<Rightarrow> [] | Some hs \<Rightarrow> hs). at_home A (opened S) i h" by blast
    show ?thesis
    proof (intro allI impI)
      fix j p assume j: "j < length (pools S')" "pools S' ! j = Some p"
      show "\<forall>h \<in> set p. at_home A (opened S) j h"
      proof (cases "j = i")
        case True
        with q j show ?thesis by simp
      next
        case False
        with q j home_inv_queue [OF assms(1), of j p] show ?thesis by simp
      qed
    qed
  qed
  moreover have "\<exists>i. conn_pool x = Some i \<and> at_home A (opened S) i (pooled_conn x)"
    if "x \<in> set (variables S')" "pgconn_ptr (pooled_conn x) \<noteq> None" for x
    using assms(3) [OF that(1)] that(2) assms(1) by (auto simp: home_inv_def)
  ultimately show ?thesis using assms(2) by (simp add: home_inv_def)
qed

lemma new_handles_ptr [simp]: "pgconn_ptr (new_handles A) = None"
  by (simp add: new_handles_def)

lemma drop_home:
  assumes inv: "home_inv A S" and vars: "variables S = xs @ x # ys"
    and d: "destroy_pooled A view x (pools S) (outside S) = (qs, w)"
  shows "home_inv A (S\<lparr>variables := xs @ ys, pools := qs, outside := w\<rparr>)"
proof (rule home_inv_update [OF inv])
  show "pools (S\<lparr>variables := xs @ ys, pools := qs, outside := w\<rparr>) = pools S \<or>
      (\<exists>i q. pools (S\<lparr>variables := xs @ ys, pools := qs, outside := w\<rparr>) = (pools S)[i := q] \<and>
         (\<forall>h \<in> set (case q of None \<Rightarrow> [] | Some hs \<Rightarrow> hs). at_home A (opened S) i h))"
  proof (cases "lock (conn_pool x) (pools S)")
    case None
    with d show ?thesis by (simp add: destroy_pooled_def)
  next
    case (Some l)
    obtain i q where l: "l = (i, q)" by fastforce
    with Some have i: "conn_pool x = Some i" "i < length (pools S)" "pools S ! i = Some q"
      by (simp_all add: lock_Some_iff)
    obtain h q' where r: "return_handles A view (pooled_conn x) q = (h, q')" by fastforce
    with d Some l have qs: "qs = (pools S)[i := Some q']" by (simp add: destroy_pooled_def)
    have "at_home A (opened S) i (pooled_conn x)"
    proof (cases "pgconn_ptr (pooled_conn x) = None")
      case False
      with inv vars i(1) show ?thesis by (auto simp: home_inv_def)
    qed (simp add: at_home_def descriptor_def)
    then have "\<forall>h \<in> set q'. at_home A (opened S) i h"
      using return_cases [OF r] home_inv_queue [OF inv i(2,3)] by auto
    with qs show ?thesis by auto
  qed
qed (use vars in auto)

lemma user_step_home:
  assumes laws: "handle_laws A held_fd closed" and step: "user_step A view S S'" and inv: "home_inv A S"
  shows "home_inv A S'"
  using step
proof cases
  case (acquire_new i conninfo r h w1 x w2)
  from construct_closes [OF laws acquire_new(5)] have "x = \<lparr>conn_pool = Some i, pooled_conn = h\<rparr>" by simp
  moreover have "at_home A (opened S @ map (Pair i) (descriptor A h)) i h" by (simp add: at_home_def)
  ultimately show ?thesis using inv acquire_new(1) by (fastforce simp: home_inv_def)
next
  case (acquire_idle i front q h w1 x w2)
  from construct_closes [OF laws acquire_idle(5)] take_closes [OF laws acquire_idle(4)]
  have "x = \<lparr>conn_pool = Some i, pooled_conn = front\<rparr>" by simp
  with acquire_idle(1) home_inv_queue [OF inv acquire_idle(2,3)] show ?thesis
    by (intro home_inv_update [OF inv]) auto
next
  case (acquire_cancelled x w)
  with construct_closes [OF laws acquire_cancelled(2)] show ?thesis
    by (intro home_inv_update [OF inv]) auto
next
  case declare_variable
  then show ?thesis by (intro home_inv_update [OF inv]) (auto simp: new_pooled_def new_handles_def)
next
  case (move xs x ys y x')
  then have "y = x" "pgconn_ptr (pooled_conn x') = None"
    by (auto simp: move_pooled_def move_construct_def)
  with move(1,2) show ?thesis by (intro home_inv_update [OF inv]) auto
next
  case (assign xs x ys y zs x' y' w)
  with assign_closes [OF laws assign(3)] show ?thesis by (intro home_inv_update [OF inv]) auto
next
  case (assign_back xs x ys y zs y' x' w)
  with assign_closes [OF laws assign_back(3)] show ?thesis by (intro home_inv_update [OF inv]) auto
next
  case (drop xs x ys qs w)
  with drop_home [OF inv] show ?thesis by blast
next
  case (destroy_pool i q)
  then show ?thesis by (intro home_inv_update [OF inv]) auto
qed

lemma users_init_home:
  assumes "users_init closed S"
  shows "home_inv A S"
proof -
  have "q = []" if "i < length (pools S)" "pools S ! i = Some q" for i q
    using assms nth_mem [OF that(1)] that(2) by (auto simp: users_init_def)
  then show ?thesis using assms by (auto simp: home_inv_def users_init_def) (metis empty_iff empty_set)
qed

interpretation homes: inductive_invariant "users_init closed" "user_step A view"
  "\<lambda>S. handle_laws A held_fd closed \<longrightarrow> home_inv A S" for A view held_fd closed
  by unfold_locales (blast intro: users_init_home user_step_home)+

text \<open>
  C18: a pooled connection stays with its pool, through every move and assignment: an open connection in
  a variable of a user was opened for the pool that the variable refers to, and returns to that pool;
  an open connection in the queue of a pool was opened for that pool.
\<close>

theorem pooled_connections_stay_home:
  assumes "handle_laws A held_fd closed" and "reach (users_init closed) (user_step A view) S"
  shows "(\<forall>x \<in> set (variables S). \<forall>p. pgconn_ptr (pooled_conn x) = Some p \<longrightarrow>
      (\<exists>i. conn_pool x = Some i \<and> (i, api_socket A p) \<in> set (opened S))) \<and>
    (\<forall>i < length (pools S). \<forall>q. pools S ! i = Some q \<longrightarrow>
      (\<forall>h \<in> set q. \<forall>p. pgconn_ptr h = Some p \<longrightarrow> (i, api_socket A p) \<in> set (opened S)))"
proof -
  have "home_inv A S" using homes.reach_inv [OF assms(2)] assms(1) by blast
  then show ?thesis by (fastforce simp: home_inv_def at_home_def descriptor_def)
qed

theorem pooled_connections_stay_home_witness: "\<exists>i. conn_pool acquired_conn = Some i \<and> (i, 4) \<in> {(0, 4 :: int)}"
  using pooled_connections_stay_home [OF simple_handle_laws reach_acquired]
  by (simp add: acquired_conn_def simple_handles_def)

end
