(* ===== verification/PoolTasks.thy ===== *)
theory PoolTasks
  imports ConnectionPool
begin

text \<open>
  Tasks that share a pool (example/connection_pool.cpp): each acquires a connection, runs its queries on
  it and drops it. Whatever the order in which their handlers run, all of them finish.
\<close>

subsection \<open>The tasks\<close>

text \<open>The pool, the tasks that are spawned and have not started, and the number of those that have finished.\<close>

record 't tasks =
  shared_pool :: "'t pool"
  spawned :: "nat list"
  finished :: nat

text \<open>
  The handlers of the acquisitions of the tasks; a wait ends with \<open>operation_aborted\<close>, and nothing cancels
  an acquisition. What a task does with its connection leaves it in some state \<open>c'\<close>, also when connecting
  or a query fails: the exception drops the connection as the end of the task does.
\<close>

inductive task_step :: "'t timer \<Rightarrow> error_code \<Rightarrow> 't tasks \<Rightarrow> 't tasks \<Rightarrow> bool"
  for T :: "'t timer" and abort_code :: error_code where
  task_starts: "spawned S = xs @ i # ys \<Longrightarrow>
    task_step T abort_code S
      (S\<lparr>shared_pool := aquire_handler T abort_code i no_error False (shared_pool S), spawned := xs @ ys\<rparr>)"
| task_resumes: "woken (shared_pool S) = xs @ i # ys \<Longrightarrow>
    task_step T abort_code S
      (S\<lparr>shared_pool := aquire_handler T abort_code i abort_code False ((shared_pool S)\<lparr>woken := xs @ ys\<rparr>)\<rparr>)"
| task_connected: "connecting (shared_pool S) = xs @ i # ys \<Longrightarrow>
    task_step T abort_code S (S\<lparr>shared_pool := aquire_complete i c ((shared_pool S)\<lparr>connecting := xs @ ys\<rparr>)\<rparr>)"
| task_handed: "posted (shared_pool S) = xs @ (i, c) # ys \<Longrightarrow>
    task_step T abort_code S (S\<lparr>shared_pool := aquire_complete i c ((shared_pool S)\<lparr>posted := xs @ ys\<rparr>)\<rparr>)"
| task_finishes: "held (shared_pool S) = xs @ c # ys \<Longrightarrow>
    task_step T abort_code S
      (S\<lparr>shared_pool := return_connection T c' ((shared_pool S)\<lparr>held := xs @ ys\<rparr>), finished := finished S + 1\<rparr>)"

definition tasks_init :: "'t timer \<Rightarrow> 64 word \<Rightarrow> nat \<Rightarrow> 't tasks \<Rightarrow> bool" where
  "tasks_init T m n S \<longleftrightarrow>
     pool_init T m (shared_pool S) \<and> max_size (shared_pool S) = m \<and> spawned S = [0..<n] \<and> finished S = 0"

subsection \<open>The invariant and the measure\<close>

definition in_progress_tasks :: "'t timer \<Rightarrow> 't pool \<Rightarrow> nat" where
  "in_progress_tasks T s = length (waiting T (cv s)) + length (woken s) + in_use s"

definition tasks_inv :: "'t timer \<Rightarrow> 64 word \<Rightarrow> nat \<Rightarrow> 't tasks \<Rightarrow> bool" where
  "tasks_inv T m n S \<longleftrightarrow>
     pool_inv T m (shared_pool S) \<and> max_size (shared_pool S) = m \<and>
     distinct (spawned S) \<and> set (spawned S) \<inter> set (live_ops T (shared_pool S)) = {} \<and>
     length (spawned S) + in_progress_tasks T (shared_pool S) + finished S = n"

text \<open>
  What each task still has to do at most; an acquisition may be woken in vain, but only by a task that
  finishes.
\<close>

definition tasks_left :: "'t timer \<Rightarrow> 't tasks \<Rightarrow> nat" where
  "tasks_left T S =
     (let s = shared_pool S in
      5 * length (spawned S) + 3 * length (waiting T (cv s)) + 4 * length (woken s) +
      3 * (length (connecting s) + length (posted s)) + 2 * length (held s))"

text \<open>Where an acquisition goes that is not cancelled.\<close>

lemma aquire_handler_goes:
  assumes "timer_ok T" and "t = aquire_handler T abort_code i ec False s" and "\<not> failed ec \<or> ec = abort_code"
  shows "max_size t = max_size s \<and> woken t = woken s \<and> held t = held s \<and>
    set (live_ops T t) = insert i (set (live_ops T s)) \<and>
    (waiting T (cv t) = waiting T (cv s) @ [i] \<and> connecting t = connecting s \<and> posted t = posted s \<or>
     waiting T (cv t) = waiting T (cv s) \<and>
     length (connecting t) + length (posted t) = Suc (length (connecting s) + length (posted s)))"
  using assms by (auto simp: aquire_handler_def timer_ok_def live_ops_def Let_def split: list.split)

lemma return_connection_goes:
  assumes "timer_ok T" and "t = return_connection T c s"
  shows "max_size t = max_size s \<and> held t = held s \<and> connecting t = connecting s \<and> posted t = posted s \<and>
    woken t = woken s @ take 1 (waiting T (cv s)) \<and> waiting T (cv t) = drop 1 (waiting T (cv s)) \<and>
    set (live_ops T t) = set (live_ops T s)"
proof -
  obtain ws u where one: "cancel_one T (cv s) = (ws, u)" by fastforce
  with assms(1) have "ws = take 1 (waiting T (cv s))" "waiting T u = drop 1 (waiting T (cv s))"
    unfolding timer_ok_def by (metis fst_conv snd_conv)+
  then show ?thesis unfolding assms(2) return_connection_fields [OF one]
    by (cases "waiting T (cv s)") (auto simp: live_ops_def)
qed

lemma task_handler:
  assumes T: "timer_ok T" and inv: "tasks_inv T m n S" and i: "i \<notin> set (live_ops T s)" "i \<notin> set sp" "distinct sp"
    and pool: "pool_inv_but 1 T m s" "max_size s = m" and ec: "\<not> failed ec \<or> ec = abort_code"
    and sp: "set sp \<inter> set (live_ops T s) = {}"
    and n: "length sp + in_progress_tasks T s + finished S + 1 = n"
  shows "tasks_inv T m n (S\<lparr>shared_pool := aquire_handler T abort_code i ec False s, spawned := sp\<rparr>)"
proof -
  have "pool_inv T m (aquire_handler T abort_code i ec False s)" by (rule aquire_handler_inv [OF T pool(1) i(1)])
  with aquire_handler_goes [OF T refl ec, of i s] i sp n pool(2) show ?thesis
    by (auto simp: tasks_inv_def in_progress_tasks_def in_use_def)
qed

lemma tasks_start:
  assumes T: "timer_ok T" and inv: "tasks_inv T m n S" and sp: "spawned S = xs @ i # ys"
  shows "tasks_inv T m n
    (S\<lparr>shared_pool := aquire_handler T abort_code i no_error False (shared_pool S), spawned := xs @ ys\<rparr>)"
  using inv sp
  by (intro task_handler [OF T inv]) (auto simp: tasks_inv_def intro: pool_inv_weaken)

lemma tasks_resume:
  assumes T: "timer_ok T" and inv: "tasks_inv T m n S" and w: "woken (shared_pool S) = xs @ i # ys"
  shows "tasks_inv T m n
    (S\<lparr>shared_pool := aquire_handler T abort_code i abort_code False ((shared_pool S)\<lparr>woken := xs @ ys\<rparr>)\<rparr>)"
proof -
  let ?s = "(shared_pool S)\<lparr>woken := xs @ ys\<rparr>"
  have "pool_inv_but 1 T m ?s" "i \<notin> set (live_ops T ?s)"
    using inv w by (auto simp: tasks_inv_def pool_inv_but_def live_ops_def in_use_def)
  then have "tasks_inv T m n (S\<lparr>shared_pool := aquire_handler T abort_code i abort_code False ?s, spawned := spawned S\<rparr>)"
    using inv w by (intro task_handler [OF T inv]) (auto simp: tasks_inv_def live_ops_def in_progress_tasks_def in_use_def)
  then show ?thesis by simp
qed

lemma task_step_inv:
  assumes T: "timer_ok T" and step: "task_step T abort_code S S'" and inv: "tasks_inv T m n S"
  shows "tasks_inv T m n S'"
  using step
proof cases
  case (task_starts xs i ys)
  with tasks_start [OF T inv] show ?thesis by simp
next
  case (task_resumes xs i ys)
  with tasks_resume [OF T inv] show ?thesis by simp
next
  case (task_connected xs i ys c)
  with inv complete_inv(1) [of T m "shared_pool S" xs i ys c] show ?thesis
    by (auto simp: tasks_inv_def live_ops_def in_progress_tasks_def in_use_def aquire_complete_def)
next
  case (task_handed xs i c ys)
  with inv complete_inv(2) [of T m "shared_pool S" xs i c ys] show ?thesis
    by (auto simp: tasks_inv_def live_ops_def in_progress_tasks_def in_use_def aquire_complete_def)
next
  case (task_finishes xs c ys c')
  let ?s = "(shared_pool S)\<lparr>held := xs @ c' # ys\<rparr>"
  have "pool_inv T m ?s" using used_inv [OF _ task_finishes(2), of T m c'] inv by (simp add: tasks_inv_def)
  then have "pool_inv T m (return_connection T c' (?s\<lparr>held := xs @ ys\<rparr>))"
    by (rule return_connection_inv [OF T]) simp
  with return_connection_goes [OF T refl, of c' "(shared_pool S)\<lparr>held := xs @ ys\<rparr>"] task_finishes inv show ?thesis
    by (cases "waiting T (cv (shared_pool S))") (auto simp: tasks_inv_def live_ops_def in_progress_tasks_def in_use_def)
qed

lemma task_step_left:
  assumes T: "timer_ok T" and step: "task_step T abort_code S S'"
  shows "tasks_left T S' < tasks_left T S"
  using step
proof cases
  case (task_starts xs i ys)
  with aquire_handler_goes [OF T refl, of no_error abort_code i "shared_pool S"] show ?thesis
    by (auto simp: tasks_left_def Let_def)
next
  case (task_resumes xs i ys)
  with aquire_handler_goes [OF T refl, of abort_code abort_code i "(shared_pool S)\<lparr>woken := xs @ ys\<rparr>"] show ?thesis
    by (auto simp: tasks_left_def Let_def)
next
  case (task_finishes xs c ys c')
  with return_connection_goes [OF T refl, of c' "(shared_pool S)\<lparr>held := xs @ ys\<rparr>"] show ?thesis
    by (cases "waiting T (cv (shared_pool S))") (auto simp: tasks_left_def Let_def)
qed (auto simp: tasks_left_def Let_def aquire_complete_def)

lemma tasks_init_inv:
  assumes "timer_ok T" and "tasks_init T m n S"
  shows "tasks_inv T m n S"
proof -
  have "live_ops T (shared_pool S) = []" using assms by (simp add: tasks_init_def pool_init_def live_ops_def)
  with assms pool_init_inv [of T m "shared_pool S"] show ?thesis
    by (simp add: tasks_inv_def tasks_init_def in_progress_tasks_def in_use_def pool_init_def)
qed

interpretation tasks: terminating_system "\<lambda>S. timer_ok T \<and> tasks_init T m n S" "task_step T abort_code"
  "\<lambda>S. timer_ok T \<and> tasks_inv T m n S" "tasks_left T" for T m n abort_code
  by unfold_locales (auto intro: tasks_init_inv task_step_inv task_step_left)

text \<open>A task whose handler may run is there, unless all tasks are finished: a full pool has its users.\<close>

lemma tasks_not_stuck:
  assumes T: "timer_ok T" and inv: "tasks_inv T m n S" and m: "m \<noteq> 0" and n: "finished S \<noteq> n"
  shows "\<exists>S'. task_step T abort_code S S'"
proof (rule ccontr)
  let ?s = "shared_pool S"
  assume stuck: "\<not> ?thesis"
  have "spawned S = []" using stuck task_starts [of S "[]"] by (cases "spawned S") auto
  moreover have w: "woken ?s = []" using stuck task_resumes [of S "[]"] by (cases "woken ?s") auto
  moreover have "connecting ?s = []" using stuck task_connected [of S "[]"] by (metis append_Nil list.exhaust)
  moreover have "posted ?s = []" using stuck task_handed [of S "[]"] by (cases "posted ?s") fastforce+
  moreover have "held ?s = []" using stuck task_finishes [of S "[]"] by (metis append_Nil list.exhaust)
  ultimately have "in_use ?s = 0" and "waiting T (cv ?s) \<noteq> []"
    using inv n by (auto simp: tasks_inv_def in_progress_tasks_def in_use_def)
  with inv w have "unat m = 0" by (auto simp: tasks_inv_def pool_inv_but_def)
  with m show False by (simp add: unat_eq_zero)
qed

text \<open>
  C19: tasks that share a pool all finish, whatever the order in which their handlers run: no run has more
  than five steps for a task, at most as many connections are in use as the pool may have, and as long as
  a task has not finished the handler of some task can run.
\<close>

theorem tasks_finish:
  assumes "timer_ok T" and "tasks_init T m n S0" and "m \<noteq> 0" and "(task_step T abort_code ^^ k) S0 S"
  shows "k \<le> 5 * n \<and> num_aquired (shared_pool S) \<le> m \<and>
    (finished S = n \<or> (\<exists>S'. task_step T abort_code S S'))"
proof -
  have "tasks_inv T m n S0" by (rule tasks_init_inv [OF assms(1,2)])
  with tasks.steps_bounded [OF assms(4), of m n] assms(1) have inv: "tasks_inv T m n S" "k \<le> tasks_left T S0" by auto
  have "tasks_left T S0 = 5 * n" using assms(2) by (simp add: tasks_left_def tasks_init_def pool_init_def Let_def)
  moreover have "num_aquired (shared_pool S) \<le> m"
    using inv(1) by (simp add: tasks_inv_def pool_inv_but_def num_aquired_def word_le_nat_alt)
  ultimately show ?thesis using inv tasks_not_stuck [OF assms(1) inv(1) assms(3)] by auto
qed

theorem tasks_finish_witness:
  "\<exists>S'. task_step list_timer no_error
     \<lparr>shared_pool = small_pool\<lparr>max_size := 4\<rparr>, spawned = [0..<8], finished = 0\<rparr> S'"
proof -
  have "tasks_init list_timer 4 8 \<lparr>shared_pool = small_pool\<lparr>max_size := 4\<rparr>, spawned = [0..<8], finished = 0\<rparr>"
    by (simp add: tasks_init_def pool_init_def small_pool_def list_timer_def)
  from tasks_finish [OF list_timer_ok this, of 0 no_error] show ?thesis by simp
qed

end
