(* ===== verification/Spec2Isabelle.thy ===== *)
theory Spec2Isabelle
  imports SqlState ExampleRuns InterleavedQuery PooledConnection PoolTasks
begin

text \<open>
  \<^bold>\<open>Verification of psql, an asynchronous client of PostgreSQL over libpq and Boost.Asio.\<close>

  \<^bold>\<open>The program.\<close> The library is the header files under \<open>src/include/psql\<close>. A connection
  (\<open>connection.hpp\<close>) runs operations as Asio handlers: it connects, queries, prepares, describes, runs
  pipelines (\<open>pipeline.hpp\<close>) and waits for notifications (\<open>notification.hpp\<close>). Query parameters are
  serialized to PostgreSQL's binary format (\<open>detail/serialization.hpp\<close>, \<open>size_of.hpp\<close>) with the object
  identifiers of their types (\<open>detail/builtins.hpp\<close>, \<open>oid_of.hpp\<close>, \<open>oid_map.hpp\<close>); identifiers of
  user-defined types are asked from the server (\<open>detail/extract_new_udts.hpp\<close>). Results are read through
  \<open>result.hpp\<close>, \<open>row.hpp\<close> and \<open>field.hpp\<close>, whose conversions \<open>as\<close> use \<open>detail/deserialization.hpp\<close>.
  Failures are error codes of two categories (\<open>error.hpp\<close>, \<open>sqlstate.hpp\<close>) or exceptions. A pool
  (\<open>connection_pool.hpp\<close>) shares connections.

  \<^bold>\<open>The theories, from the bottom.\<close>
  \<^item> \<open>Prelude\<close>: octets, big-endian integers on words, the sequencing \<open>sbind\<close> of fallible computations,
    reachability and the locales of inductive invariants and of measures, which the transition systems interpret.
  \<^item> \<open>Failures\<close>: the exceptions of the code, undefined behaviour and instantiations that do not compile, as
    values; every function that can fail gives a sum of a failure and its result.
  \<^item> \<open>ErrorCodes\<close>, \<open>Base36\<close>, \<open>SqlState\<close>: the enumerations, their categories and messages, SQLSTATEs as
    numbers in base 36 (\<open>to_base36\<close> and \<open>strtol\<close>), all the cases of the switch as tables. The locale
    \<open>error_enumeration\<close> says that codes distinguish errors; both categories interpret it.
  \<^item> \<open>PgTypes\<close>, \<open>Values\<close>: the C++ types that the templates accept as the datatype \<open>ty\<close>, the traits, the
    identifiers with and without a map, and the values \<open>val\<close> with their sizes. A \<open>std::type_index\<close> is a
    number; \<open>encodable\<close> and \<open>decodable\<close> are the types whose instantiations compile.
  \<^item> \<open>Buffer\<close>, \<open>Serialization\<close>: the string buffer with its capacity and the reallocations that leave
    pointers dangling; every \<open>serialize_impl\<close>; the conversion of a parameter list. \<open>encode\<close> is the wire
    format as a function, which the serializer refines.
  \<^item> \<open>Deserialization\<close>, \<open>RoundTrip\<close>: every \<open>deserialize_impl\<close> on spans (the memory from a pointer on, and
    a length), reads outside of the memory and spans as failures. The locale \<open>element_codec\<close> is the contract
    between an encoding of elements and their reader; the serializer and the deserializer interpret it.
    \<open>norm v\<close> is what the format keeps of a value. Exactly which composites and arrays are accepted.
  \<^item> \<open>ResultView\<close>: fields, rows, results and their iterators over the functions of libpq that read a
    result. The locale \<open>iterator_range\<close> is what a range-based \<open>for\<close> needs; both iterators interpret it.
  \<^item> \<open>ExtractUdts\<close>: which user-defined types of the parameters are unknown.
  \<^item> \<open>Connection\<close>, \<open>Pipeline\<close>, \<open>Notification\<close>: the members of \<open>basic_connection\<close> as the record \<open>conn\<close>,
    every operation as a function from a connection to its completion and the connection after it.
  \<^item> \<open>Lifecycle\<close>: the two handles of a connection and who closes the descriptor.
  \<^item> \<open>Progress\<close>, \<open>Delivery\<close>: hypotheses on the environment, and the locale \<open>conn_operation\<close>: an operation
    ends, and changes nothing but the state of libpq; flushing, receiving, the loop over the results of a
    pipeline and the single-result query interpret it.
  \<^item> \<open>Script\<close>: a concrete environment, at which the properties are applied.
  \<^item> \<open>Queries\<close>, \<open>PipelineRun\<close>: what queries and pipelines do.
  \<^item> \<open>Server\<close>: queries to a server with a database, and a value on its way to the server and back,
    user-defined types included. This theory compares pipelines with queries there.
  \<^item> \<open>Examples\<close>, \<open>ExampleRuns\<close>: the programs of the directory \<open>example\<close> as coroutines over a connection and
    the output streams, \<open>mp\<close> of \<open>params.hpp\<close>; that they end, and what they print.
  \<^item> \<open>SharedConnection\<close>, \<open>Interleaving\<close>, \<open>InterleavedQuery\<close>: the handlers of an operation with one result and of
    \<open>async_receive_notifcation\<close> cut at their suspension points, and the two interleaved on one connection as
    the step relation \<open>shared_step\<close>; what happens to the notifications and to the results.
  \<^item> \<open>ConnectionPool\<close>, \<open>PooledConnection\<close>: the pool as a transition system whose steps are its handlers
    under the mutex; the connections of its users with the handles they own.
  \<^item> \<open>PoolTasks\<close>: the tasks of \<open>example/connection_pool.cpp\<close>, which share a pool. The locale
    \<open>terminating_system\<close>, an invariant with a measure that falls, bounds their steps.

  \<^bold>\<open>The environment.\<close> Libpq and Asio are not part of the repository. Their functions are the fields of
  records (\<open>env\<close>, \<open>result_api\<close>, \<open>timer\<close>, \<open>handle_api\<close>) over an abstract state, arguments of the model. A
  wait is a function that changes the state of the outside; a suspension point is a call of such a
  function or of \<open>post\<close>. What a property needs of them is a named hypothesis of documented behaviour, about
  the worlds that satisfy a predicate which no step leaves:
  \<^item> \<open>progressing\<close>, \<open>connect_progress\<close>, \<open>notification_progress\<close>, \<open>notified_soon\<close>: every turn of a waiting loop,
    the call of libpq after the wait included, lowers a rank. Waiting alone is not assumed to help: as libpq
    documents, the busy state does not end unless \<open>PQconsumeInput\<close> is called.
  \<^item> \<open>delivers\<close>: no call fails, and the results come in order, the next one when \<open>PQisBusy\<close> says that it is
    there; \<open>working\<close> is progress and delivery.
  \<^item> \<open>pipelines\<close>: a command accepted in pipeline mode gives a result and a null, a refused one nothing;
    \<open>pipeline_mode\<close>: the mode is entered when nothing is pending, and can be left when every result was
    received; with results pending nothing is assumed.
  \<^item> \<open>sends_stay\<close>, \<open>modes_stay\<close>: sending and changing the mode do not leave the predicate.
  \<^item> Of a server: \<open>answering\<close> and \<open>answering_pipelined\<close> (a command that is sent when the previous one is
    done, or in a pipeline after successful ones, has the result and the effect that a function gives for the
    state of the database), \<open>knows_types\<close>, \<open>answers_lookups\<close>, \<open>echoes\<close>.
  \<^item> \<open>timer_ok\<close>, \<open>handle_laws\<close>, \<open>counts_ok\<close>; \<open>input_laws\<close> (the notifications that libpq has
    read are handed out in order, and asking whether it is busy changes nothing), \<open>result_laws\<close> (only
    \<open>PQgetResult\<close> takes a result), \<open>delivers_notifications\<close>.

  Properties of errors and of termination do without \<open>delivers\<close>.

  \<^bold>\<open>Loops.\<close> The handlers that wait in a loop (\<open>connect_poll\<close>, \<open>flush_handler\<close>, \<open>receive_loop\<close>,
  \<open>receive_notification_loop\<close>, \<open>run_query\<close>, \<open>notifcation_receiver\<close>, \<open>range_for\<close>) are partial functions into an option, so that a wait that is
  never answered is None. Under the hypotheses of progress every operation ends (\<open>operations_complete\<close>), and
  so do the examples of one coroutine (\<open>examples_end\<close>). No fuel is used; all other functions are total.

  \<^bold>\<open>Bounds.\<close> Integers of the wire are words of their widths, with sign where the code has it. Lengths and
  counts that the code narrows (\<open>int32_t\<close> sizes, the lengths given to libpq) are cut to 32 bits, hence the
  bound \<open>2 ^ 31\<close> on sizes; the conversions of \<open>int\<close> to \<open>std::size_t\<close> wrap (\<open>to_size_t\<close>); timestamps are
  64-bit words and their overflow a failure; the counters of the pool are 64-bit words.

  \<^bold>\<open>What is shown.\<close> Round trip: what was serialized is read back, through the server and all
  layers (\<open>deserialize_serialize\<close>, \<open>query_echo\<close>), up to what a program prints
  (\<open>user_defined_prints\<close>). Memory: pointers into the buffer are never dangling
  (\<open>serialize_params_correct\<close>); reads out of bounds are exhibited where the code makes them
  (\<open>as_field_null\<close>, \<open>null_element_misread\<close>). Protocol: on a connection that works every operation takes its own
  results and leaves none behind (\<open>query_sends_encodings\<close>, \<open>commands_complete_with_result\<close>,
  \<open>pipeline_takes_its_results\<close>), a pipeline of queries that succeed agrees with the same queries one by one,
  user-defined types are registered once and for all. Formats: exactly which composites and arrays are
  accepted (\<open>composite_checked\<close>, \<open>arrays_accepted\<close>). The handlers, run one after the other, make up the operation
  (lemma \<open>handlers_make_operation\<close>); in any interleaving a notification that libpq holds is left waiting only while
  the query is under way or after it failed (\<open>held_notification_waits_for_query\<close>), and a query takes its own results
  only (\<open>interleaved_result\<close>), but a wait for a notification can
  read the results of a query that then waits in vain (\<open>notification_takes_results\<close>). The pool: the counter, the bound, no lost
  wakeup, exclusive acquisitions, a refinement of a bounded set, and that tasks that share it all finish
  (\<open>tasks_finish\<close>). The descriptor of a connection is closed once, also with a pool
  (\<open>pooled_descriptors_closed_once\<close>), where it always returns to the pool that opened it
  (\<open>pooled_connections_stay_home\<close>), but for \<open>close\<close> and assigning to a connected
  connection. Errors: the code of every failure. Each property has its description beside it.

  \<^bold>\<open>Not modelled.\<close> The texts of exceptions. The freeing of \<open>PGresult\<close> and
  \<open>PGnotify\<close> by their smart pointers. Executors, the dispatch of handlers and the assignment of
  cancellation slots (a cancelled wait is a wait that completes with the code for it). The mutex of the pool,
  but for the atomicity of what it protects; a connection that is given back and not kept is destroyed in the
  same step of the model, in the code right after it. Taking \<open>front()\<close> of the empty buffer in
  \<open>serialize\<close>, which is undefined but in every implementation the address of the terminating zero.
  The ordering of \<open>std::type_index\<close> and of the map. The accessors \<open>get_executor\<close>,
  \<open>native_handle\<close> and \<open>error_message\<close>. In the example
  \<open>connection_pool.cpp\<close> the queries of a task are one step that leaves its connection in some
  state. The build files and the script that generated a part of \<open>sqlstate.hpp\<close>.
\<close>

section \<open>Properties that span components\<close>

subsection \<open>A pipeline and the same queries one by one\<close>

definition push_all :: "(string \<times> val list) list \<Rightarrow> pipeline_op" where
  "push_all = push_each (\<lambda>(query, vs). PushQuery query vs)"

lemma push_all_simps [simp]:
  "push_all [] = Return"
  "push_all ((query, vs) # xs) = PushQuery query vs (case_sum Raise (\<lambda>_. push_all xs))"
  by (simp_all add: push_all_def)

primrec query_all :: "('w, 'r) env \<Rightarrow> (string \<times> val list) list \<Rightarrow> 'w conn \<Rightarrow>
    ((error_code \<times> 'r result) list res, 'w) io" where
  "query_all E [] s = Some (Inr [], s)"
| "query_all E (x # xs) s =
     (case x of (query, vs) \<Rightarrow> do {
        (y, s) \<leftarrow> async_query E query vs s;
        case y of
          Inl f \<Rightarrow> Some (Inl f, s)
        | Inr z \<Rightarrow> do { (zs, s) \<leftarrow> query_all E xs s; Some (sbind zs (\<lambda>zs. Inr (z # zs)), s) } })"

text \<open>The queries one by one, on a server with a database.\<close>

lemma query_all_run:
  assumes "\<And>d. working E (P d) rank q" and "answering E P q exec"
  shows "new_udts s = [] \<Longrightarrow> P d (pgconn s) \<Longrightarrow> q (pgconn s) = [] \<Longrightarrow> \<forall>(query, vs) \<in> set xs. known_params s vs \<Longrightarrow>
    server_run exec (conn_oids s) xs d = (rs, d') \<Longrightarrow>
    \<exists>b w. query_all E xs s = Some (Inr (map (\<lambda>r. (result_status_to_error_code E r, r)) rs),
       s\<lparr>buffer := b, pgconn := w\<rparr>) \<and> q w = [] \<and> P d' w"
proof (induction xs arbitrary: s d rs)
  case Nil
  then show ?case by (intro exI [of _ "buffer s"] exI [of _ "pgconn s"]) simp
next
  case (Cons x xs)
  obtain query vs where x: "x = (query, vs)" by fastforce
  obtain r d1 where r: "exec query (wire_params (conn_oids s) vs) d = (r, d1)" by fastforce
  with Cons.prems(5) x obtain rs' where rs: "server_run exec (conn_oids s) xs d1 = (rs', d')" "rs = r # rs'"
    by (auto split: prod.splits)
  obtain b w where 1: "async_query E query vs s =
      Some (Inr (result_status_to_error_code E r, r), s\<lparr>buffer := b, pgconn := w\<rparr>)" "q w = []" "P d1 w"
    using query_answered [OF assms Cons.prems(1) _ Cons.prems(2,3) r] Cons.prems(4) x by auto
  obtain b' w' where "query_all E xs (s\<lparr>buffer := b, pgconn := w\<rparr>) = Some
      (Inr (map (\<lambda>r. (result_status_to_error_code E r, r)) rs'), s\<lparr>buffer := b', pgconn := w'\<rparr>)" "q w' = []" "P d' w'"
    using Cons.IH [of "s\<lparr>buffer := b, pgconn := w\<rparr>" d1 rs'] Cons.prems(1,4) 1(2,3) rs(1) by (auto simp: known_params_def)
  with 1(1) x rs(2) show ?case by auto
qed

text \<open>The same queries in a pipeline, when all succeed.\<close>

lemma run_push_all:
  assumes "answering_pipelined E M q exec"
  shows "pl_oids p = conn_oids s \<Longrightarrow> M d (pl_pgconn p) \<Longrightarrow> \<forall>(query, vs) \<in> set xs. known_params s vs \<Longrightarrow>
    server_run exec (conn_oids s) xs d = (rs, d') \<Longrightarrow> \<forall>r \<in> set rs. \<not> failed (result_status_to_error_code E r) \<Longrightarrow>
    \<exists>p'. run_pipeline_op E (push_all xs) p = (None, p') \<and>
      q (pl_pgconn p') = q (pl_pgconn p) @ answered rs \<and> pl_index p' = pl_index p + length rs \<and> M d' (pl_pgconn p')"
proof (induction xs arbitrary: p d rs)
  case (Cons x xs)
  obtain query vs where x: "x = (query, vs)" by fastforce
  let ?ps = "wire_params (conn_oids s) vs"
  obtain a b where ser: "serialize_params (conn_oids s) (pl_buffer p) vs = (Inr a, b)" "sent_params b a = ?ps"
    using serialize_params_wire Cons.prems(3) x by fastforce
  obtain r d1 where r: "exec query ?ps d = (r, d1)" by fastforce
  with Cons.prems(4) x obtain rs' where rs: "server_run exec (conn_oids s) xs d1 = (rs', d')" "rs = r # rs'"
    by (auto split: prod.splits)
  obtain i w where send: "PQsendQueryParams E query ?ps (pl_pgconn p) = (i, w)" by fastforce
  with assms [unfolded answering_pipelined_def, rule_format, of d "pl_pgconn p" query ?ps] Cons.prems(2,5) r rs(2)
  have sent: "i \<noteq> 0" "q w = q (pl_pgconn p) @ [r, None]" "M d1 w" by simp_all
  let ?p = "p\<lparr>pl_buffer := b, pl_pgconn := w, pl_index := pl_index p + 1\<rparr>"
  have "push_query E query vs p = (Inr (pl_index p), ?p)"
    using ser send sent(1) Cons.prems(1) by (simp add: push_query_def push_with_def)
  with Cons.IH [of ?p d1 rs'] Cons.prems x sent(2,3) rs show ?case by auto
qed simp

lemma length_server_run: "server_run exec omp xs d = (rs, d') \<Longrightarrow> length rs = length xs"
  by (induction exec omp xs d arbitrary: rs rule: server_run.induct) (auto split: prod.splits)

text \<open>
  C5: when every query succeeds, a pipeline of the queries and the same queries made one by one give the
  same results in the same order, leave nothing to receive and leave the database in the same state. The
  server has a database, and executes a command alike in and outside of pipeline mode.
\<close>

theorem pipeline_equals_queries:
  assumes "\<And>d. working E (P d) rank q" and "\<And>d. working E (M d) rank' q" and "\<And>d. pipeline_mode E (P d) (M d) q"
    and "answering E P q exec" and "answering_pipelined E M q exec"
    and "P d (pgconn s)" and "q (pgconn s) = []" and "new_udts s = []"
    and "\<forall>(query, vs) \<in> set xs. known_params s vs"
    and "server_run exec (conn_oids s) xs d = (rs, d')"
    and "\<forall>r \<in> set rs. \<not> failed (result_status_to_error_code E r)"
  shows "\<exists>zs s1 s2. query_all E xs s = Some (Inr zs, s1) \<and>
    async_exec_pipeline E (push_all xs) s = Some (Inr (no_error, map snd zs), s2) \<and>
    length zs = length xs \<and> (\<forall>z \<in> set zs. \<not> failed (fst z)) \<and>
    q (pgconn s1) = [] \<and> q (pgconn s2) = [] \<and> P d' (pgconn s1) \<and> P d' (pgconn s2)"
proof -
  obtain i w where enter: "PQenterPipelineMode E (pgconn s) = (i, w)" by fastforce
  let ?p = "\<lparr>pl_pgconn = w, pl_oids = conn_oids s, pl_buffer = buffer s, pl_index = 0\<rparr>"
  have w: "M d w" "q w = []" using pipeline_modeD(1) [OF assms(3) enter assms(6,7)] by auto
  then obtain p where p: "run_pipeline_op E (push_all xs) ?p = (None, p)" "q (pl_pgconn p) = answered rs"
    "pipeline_size p = length rs" "M d' (pl_pgconn p)"
    using run_push_all [OF assms(5), of ?p s d xs rs d'] assms(9-11) by (auto simp: pipeline_size_def)
  then have "pipeline_block E (push_all xs) ?p = (Inr False, p)" by (simp add: pipeline_block_def)
  from exec_pipeline_done [OF assms(1-3,6,7) enter this p(2,3) assms(2,3,1) p(4)] obtain s2 where
    "async_exec_pipeline E (push_all xs) s = Some (Inr (no_error, rs), s2)" "q (pgconn s2) = []" "P d' (pgconn s2)"
    using first_failure_none [OF assms(11)] by auto
  moreover obtain b w' where "query_all E xs s = Some
      (Inr (map (\<lambda>r. (result_status_to_error_code E r, r)) rs), s\<lparr>buffer := b, pgconn := w'\<rparr>)" "q w' = []" "P d' w'"
    using query_all_run [OF assms(1,4,8,6,7,9,10)] by blast
  ultimately show ?thesis using assms(11) length_server_run [OF assms(10)] by (auto simp: comp_def)
qed

lemma answering_script_mode: "pipeline_mode (answering_script f) (one_by_one d) (in_pipeline d) pending"
  by (auto simp: pipeline_mode_def answering_script_def one_by_one_def in_pipeline_def script_simps sync_reply_def)

theorem pipeline_equals_queries_witness:
  "\<exists>zs s1 s2. query_all (answering_script echo_answer) [(''SELECT $1'', [SVal (VInt32 7)]), (''SELECT 1'', [])] (fresh idle_server) =
      Some (Inr zs, s1) \<and>
    async_exec_pipeline (answering_script echo_answer) (push_all [(''SELECT $1'', [SVal (VInt32 7)]), (''SELECT 1'', [])])
      (fresh idle_server) = Some (Inr (no_error, map snd zs), s2) \<and> length zs = 2 \<and>
    executed (pgconn s1) = 2 \<and> executed (pgconn s2) = 2"
proof -
  let ?xs = "[(''SELECT $1'', [SVal (VInt32 7)]), (''SELECT 1'', [])]" and ?E = "answering_script echo_answer"
  have start: "one_by_one 0 (pgconn (fresh idle_server))" "pending (pgconn (fresh idle_server)) = []"
    "new_udts (fresh idle_server) = []"
    by (simp_all add: fresh_def idle_server_def one_by_one_def)
  have known: "\<forall>(query, vs) \<in> set ?xs. known_params (fresh idle_server) vs"
    by (simp add: known_params_def sendable_def)
  have "''SELECT $1'' \<noteq> query_oids_text" "''SELECT 1'' \<noteq> query_oids_text" by (simp_all add: query_oids_text_def)
  then obtain a b where run: "server_run (script_exec echo_answer) (conn_oids (fresh idle_server)) ?xs 0 =
      ([Some (echo_reply a), Some (echo_reply b)], 2)"
    by (simp add: script_exec_def echo_answer_def)
  have ok: "\<forall>r \<in> set [Some (echo_reply a), Some (echo_reply b)]. \<not> failed (result_status_to_error_code ?E r)"
    by (simp add: echo_reply_def)
  show ?thesis
    using pipeline_equals_queries [OF answering_script_working answering_script_mode answering_script_answering start known run ok]
    by (fastforce simp: one_by_one_def)
qed

end
